(* ===== verification/Prelude.thy ===== *)
theory Prelude
  imports Complex_Main "HOL-Library.Word" "HOL-Library.Sublist" "HOL-Library.Multiset"
begin

text \<open>
  What every theory of the development shares: the outcome of a Go function (it returns, it
  panics or it never returns), slices with Go's bounds checks, the machine integers of the
  source, and generic lemmas on lists and words.
\<close>

unbundle bit_operations_syntax

section \<open>Outcomes of Go code\<close>

text \<open>
  A Go function returns a value, stops in a run-time panic, or runs forever. The three outcomes
  are values here: \<open>Some (Inr x)\<close> (it returns \<open>x\<close>), \<open>Some (Inl p)\<close> (it panics with \<open>p\<close>) and
  \<open>None\<close> (it never returns). The option layer is the one of \<open>partial_function (option)\<close>, so a
  pointer loop of the source is the least fixpoint of its body and \<open>None\<close> is exactly divergence.
\<close>

datatype panic =
    NilDeref
  | IndexOutOfRange
  | SliceOutOfRange
  | DivideByZero
  | MakeSliceLen
  | UnhashableKey
  | TypeAssertion
  | Explicit string

type_synonym 'a go = "(panic + 'a) option"

abbreviation Ret :: "'a \<Rightarrow> 'a go" where
  "Ret x \<equiv> Some (Inr x)"

abbreviation Panics :: "panic \<Rightarrow> 'a go" where
  "Panics p \<equiv> Some (Inl p)"

abbreviation Diverges :: "'a go" where
  "Diverges \<equiv> None"

text \<open>Sequencing: a panic or divergence of the first part is the outcome of the whole.\<close>

definition gobind :: "'a go \<Rightarrow> ('a \<Rightarrow> 'b go) \<Rightarrow> 'b go" where
  "gobind m f = Option.bind m (\<lambda>r. case r of Inl p \<Rightarrow> Some (Inl p) | Inr x \<Rightarrow> f x)"

lemma gobind_simps [simp]:
  "gobind (Ret x) f = f x"
  "gobind (Panics p) f = Panics p"
  "gobind Diverges f = Diverges"
  by (simp_all add: gobind_def)

lemma gobind_Ret_iff: "gobind m f = Ret y \<longleftrightarrow> (\<exists>x. m = Ret x \<and> f x = Ret y)"
  by (cases m) (auto simp: gobind_def split: sum.splits)

lemma gobindE: "gobind m f = Ret y \<Longrightarrow> (\<And>x. m = Ret x \<Longrightarrow> f x = Ret y \<Longrightarrow> thesis) \<Longrightarrow> thesis"
  by (auto simp: gobind_Ret_iff)

lemma gobind_cong [fundef_cong]:
  "m = m' \<Longrightarrow> (\<And>x. m' = Ret x \<Longrightarrow> f x = f' x) \<Longrightarrow> gobind m f = gobind m' f'"
  by (cases m') (auto simp: gobind_def split: sum.splits)

lemma gobind_mono [partial_function_mono]:
  assumes "mono_option m" and "\<And>x. mono_option (\<lambda>f. g x f)"
  shows "mono_option (\<lambda>f. gobind (m f) (\<lambda>x. g x f))"
  unfolding gobind_def
proof (rule bind_mono [OF assms(1)])
  fix r
  show "mono_option (\<lambda>f. case r of Inl p \<Rightarrow> Some (Inl p) | Inr x \<Rightarrow> g x f)"
    using assms(2) by (cases r) (auto intro: option.const_mono)
qed

definition returns :: "'a go \<Rightarrow> bool" where
  "returns m = (case m of Some (Inr _) \<Rightarrow> True | _ \<Rightarrow> False)"

lemma returns_iff: "returns m \<longleftrightarrow> (\<exists>x. m = Ret x)"
  by (auto simp: returns_def split: option.splits sum.splits)

section \<open>Slices\<close>

text \<open>Indexing and index assignment panic outside the slice's length.\<close>

definition slice_get :: "'a list \<Rightarrow> int \<Rightarrow> 'a go" where
  "slice_get xs i = (if 0 \<le> i \<and> i < int (length xs) then Ret (xs ! nat i) else Panics IndexOutOfRange)"

definition slice_set :: "'a list \<Rightarrow> int \<Rightarrow> 'a \<Rightarrow> 'a list go" where
  "slice_set xs i x =
     (if 0 \<le> i \<and> i < int (length xs) then Ret (xs[nat i := x]) else Panics IndexOutOfRange)"

text \<open>
  Slicing \<open>s[lo:]\<close> and \<open>s[:hi]\<close>; the capacity of every slice is taken to be its length.
\<close>

definition slice_from :: "'a list \<Rightarrow> int \<Rightarrow> 'a list go" where
  "slice_from xs lo =
     (if 0 \<le> lo \<and> lo \<le> int (length xs) then Ret (drop (nat lo) xs) else Panics SliceOutOfRange)"

definition slice_upto :: "'a list \<Rightarrow> int \<Rightarrow> 'a list go" where
  "slice_upto xs hi =
     (if 0 \<le> hi \<and> hi \<le> int (length xs) then Ret (take (nat hi) xs) else Panics SliceOutOfRange)"

lemma slice_get_nat [simp]: "i < length xs \<Longrightarrow> slice_get xs (int i) = Ret (xs ! i)"
  by (simp add: slice_get_def)

lemma slice_set_nat [simp]: "i < length xs \<Longrightarrow> slice_set xs (int i) x = Ret (xs[i := x])"
  by (simp add: slice_set_def)

lemma slice_from_nat [simp]: "n \<le> length xs \<Longrightarrow> slice_from xs (int n) = Ret (drop n xs)"
  by (simp add: slice_from_def)

lemma slice_upto_nat [simp]: "n \<le> length xs \<Longrightarrow> slice_upto xs (int n) = Ret (take n xs)"
  by (simp add: slice_upto_def)

section \<open>Machine integers\<close>

type_synonym int64 = "64 word"
type_synonym uint64 = "64 word"
type_synonym uint32 = "32 word"

section \<open>Lists\<close>

lemma list_all2_update:
  "list_all2 P xs ys \<Longrightarrow> i < length xs \<Longrightarrow> P x y \<Longrightarrow> list_all2 P (xs[i := x]) (ys[i := y])"
  by (simp add: list_all2_update_cong)

lemma list_all2_nth: "list_all2 P xs ys \<Longrightarrow> i < length xs \<Longrightarrow> P (xs ! i) (ys ! i)"
  by (simp add: list_all2_conv_all_nth)

lemma set_concat_nth: "i < length xss \<Longrightarrow> x \<in> set (xss ! i) \<Longrightarrow> x \<in> set (concat xss)"
  by (auto intro: nth_mem)

lemma nth_subset_concat [simp]: "i < length xss \<Longrightarrow> set (xss ! i) \<subseteq> \<Union> (set ` set xss)"
  by (auto intro: nth_mem)

lemma in_concatE:
  assumes "x \<in> set (concat xss)"
  obtains i where "i < length xss" and "x \<in> set (xss ! i)"
  using assms by (metis (no_types, lifting) UN_E in_set_conv_nth set_concat)

lemma mset_concat_update:
  "i < length xss \<Longrightarrow> mset (concat (xss[i := ys])) + mset (xss ! i) = mset (concat xss) + mset ys"
proof (induction xss arbitrary: i)
  case (Cons xs xss)
  then show ?case
    by (cases i) (auto simp: ac_simps)
qed simp

lemma mset_concat_push:
  assumes "i < length xss"
  shows "mset (concat (xss[i := x # xss ! i])) = add_mset x (mset (concat xss))"
  using mset_concat_update [OF assms, of "x # xss ! i"] by simp

lemma mset_concat_snoc:
  assumes "i < length xss"
  shows "mset (concat (xss[i := xss ! i @ [x]])) = add_mset x (mset (concat xss))"
  using mset_concat_update [OF assms, of "xss ! i @ [x]"] by simp

lemma mset_concat_remove:
  assumes "i < length xss" and "xss ! i = xs @ x # ys"
  shows "add_mset x (mset (concat (xss[i := xs @ ys]))) = mset (concat xss)"
  using mset_concat_update [OF assms(1), of "xs @ ys"] assms(2) by simp

lemma concat_replicate_Nil [simp]: "concat (replicate n []) = []"
  by (induction n) auto

lemma concat_eq_Nil: "(\<And>i. i < length xss \<Longrightarrow> xss ! i = []) \<Longrightarrow> concat xss = []"
  by (metis concat_eq_Nil_conv in_set_conv_nth)

lemma find_Some_iff2: "find P xs = Some x \<Longrightarrow> x \<in> set xs \<and> P x"
  by (metis find_Some_iff nth_mem)

lemma find_split:
  "find P xs = Some c \<Longrightarrow> \<exists>ys zs. xs = ys @ c # zs \<and> P c \<and> (\<forall>y \<in> set ys. \<not> P y)"
proof (induction xs)
  case (Cons x xs)
  show ?case
  proof (cases "P x")
    case True
    with Cons.prems show ?thesis by - (rule exI [of _ "[]"], auto)
  next
    case False
    with Cons.prems Cons.IH obtain ys zs where "xs = ys @ c # zs" "P c" "\<forall>y \<in> set ys. \<not> P y" by auto
    with False show ?thesis by - (rule exI [of _ "x # ys"], auto)
  qed
qed simp

lemma find_filter_hd: "filter P xs = y # ys \<Longrightarrow> find P xs = Some y"
  by (induction xs) (auto split: if_splits)

end
