(* ===== verification/Zmalloc.thy ===== *)
theory Zmalloc
  imports Prelude
begin

text \<open>
  \<open>src/db/zmalloc.go\<close>: the global counter of used memory (\<open>usedMemory\<close>, an \<open>int64\<close> that wraps) and
  the estimate of a value's size. The counter is passed explicitly to every operation that
  changes it. A value stored in an interface (\<open>any\<close>) is a \<open>goany\<close>.
\<close>

section \<open>Dynamic values\<close>

text \<open>
  The dynamic types the source distinguishes when it inspects an interface value: the cases of
  \<open>estimateMemoryUsage\<close>, and the \<open>uint64\<close> and \<open>int64\<close> that \<open>getLongLongFromObject\<close> and \<open>AddReply\<close>
  assert. \<open>AOther\<close> stands for a value of any other type.
\<close>

datatype goany =
    ANil
  | AInt int64
  | AFloat64 uint64
  | AString string
  | AInts "int64 list"
  | AUint64 uint64
  | AInt64 int64
  | AOther

section \<open>The memory counter\<close>

definition MAX_MEMORY :: int where
  "MAX_MEMORY = 1024 * 1024 * 1024"

definition estimateMemoryUsage :: "goany \<Rightarrow> int64" where
  "estimateMemoryUsage v =
     (case v of
        AInt _ \<Rightarrow> 8
      | AFloat64 _ \<Rightarrow> 8
      | AString s \<Rightarrow> word_of_nat (16 + length s)
      | AInts xs \<Rightarrow> word_of_nat (24 + length xs * 8)
      | _ \<Rightarrow> 0)"

definition updateZmallocStatAlloc :: "int64 \<Rightarrow> int64 \<Rightarrow> int64" where
  "updateZmallocStatAlloc n used = used + n"

definition updateZmallocStatFree :: "int64 \<Rightarrow> int64 \<Rightarrow> int64" where
  "updateZmallocStatFree n used = used + - n"

definition IncreaseUsedMemory :: "goany \<Rightarrow> int64 \<Rightarrow> int64" where
  "IncreaseUsedMemory v used = updateZmallocStatAlloc (estimateMemoryUsage v) used"

definition DecreaseUsedMemory :: "goany \<Rightarrow> int64 \<Rightarrow> int64" where
  "DecreaseUsedMemory v used = updateZmallocStatFree (estimateMemoryUsage v) used"

text \<open>\<open>getUsedMemory\<close> reads the counter as a signed number.\<close>

definition getUsedMemory :: "int64 \<Rightarrow> int" where
  "getUsedMemory used = sint used"

lemmas zmalloc_defs =
  IncreaseUsedMemory_def DecreaseUsedMemory_def updateZmallocStatAlloc_def updateZmallocStatFree_def

section \<open>Allocation and release are inverse\<close>

lemma Increase_Decrease [simp]: "DecreaseUsedMemory v (IncreaseUsedMemory v used) = used"
  by (simp add: zmalloc_defs)

lemma Decrease_Increase [simp]: "IncreaseUsedMemory v (DecreaseUsedMemory v used) = used"
  by (simp add: zmalloc_defs)

lemma Increase_commute:
  "IncreaseUsedMemory v (IncreaseUsedMemory w used) = IncreaseUsedMemory w (IncreaseUsedMemory v used)"
  by (simp add: zmalloc_defs)

lemma Increase_Decrease_commute:
  "DecreaseUsedMemory v (IncreaseUsedMemory w used) = IncreaseUsedMemory w (DecreaseUsedMemory v used)"
  by (simp add: zmalloc_defs)

text \<open>Below the signed limit the counter moves by exactly the estimate.\<close>

lemma getUsedMemory_Increase_string:
  assumes "0 \<le> getUsedMemory used"
    and "getUsedMemory used + 16 + int (length s) < 2 ^ 63"
  shows "getUsedMemory (IncreaseUsedMemory (AString s) used) =
    getUsedMemory used + 16 + int (length s)"
proof -
  have n: "sint (word_of_nat (16 + length s) :: int64) = 16 + int (length s)"
    using assms by (simp only: signed_of_nat) (simp add: getUsedMemory_def signed_take_bit_int_eq_self)
  show ?thesis
    using assms n
    by (simp add: getUsedMemory_def zmalloc_defs estimateMemoryUsage_def sint_word_ariths
        signed_take_bit_int_eq_self del: of_nat_add)
qed

end
