(* ===== verification/Dict.thy ===== *)
theory Dict
  imports Zmalloc
begin

text \<open>
  \<open>src/db/dict.go\<close>: the chained hash table with incremental rehashing, as the code has it: entries
  are heap objects linked by \<open>Next\<close> pointers, and both bucket arrays hold pointers to chain heads.
  The store of a table is a list of entries, a pointer is an index into it (\<open>None\<close> is nil), and
  allocation appends. The code mutates and shares these entries, so nothing is assumed about the
  shape of the chains: a loop over a chain is a \<open>partial_function (option)\<close>, and it never returns
  (\<open>None\<close>) on a cyclic chain.

  The generic key type is instantiated with strings (the key type of every table of the program).
  What the code needs of the value type \<open>V\<close> is a record: its zero value, and the dynamic value its
  boxing in \<open>any\<close> gives (read by the memory estimate only).
\<close>

section \<open>Data\<close>

record 'v vtype =
  vt_zero :: 'v
  vt_any :: "'v \<Rightarrow> goany"

record 'v entry =
  ent_Key :: string
  ent_Value :: 'v
  ent_Next :: "nat option"

record 'v hashtable =
  ht_Entries :: "'v entry list"
  ht_Table :: "nat option list"
  ht_Size :: int
  ht_RehashingIdx :: int
  ht_RehashingSize :: int
  ht_RehashingTbl :: "nat option list"
  ht_Count :: int

definition rehashingBuckets :: nat where
  "rehashingBuckets = 10"

text \<open>
  \<open>float64(Count)/float64(Size) > 0.7\<close>. Below \<open>2^49\<close> buckets the rounded quotient exceeds the
  rounded constant exactly when the rational one exceeds 7/10; for \<open>Size = 0\<close> the quotient is NaN
  (false) for \<open>Count = 0\<close> and infinite (true) for a positive count, as the cross product says.
\<close>

definition load_exceeded :: "'v hashtable \<Rightarrow> bool" where
  "load_exceeded h \<longleftrightarrow> 10 * ht_Count h > 7 * ht_Size h"

definition NewHashTable :: "int \<Rightarrow> 'v hashtable go" where
  "NewHashTable initSize =
     (if initSize < 0 then Panics MakeSliceLen
      else Ret \<lparr>ht_Entries = [], ht_Table = replicate (nat initSize) None, ht_Size = initSize,
                ht_RehashingIdx = -1, ht_RehashingSize = 0, ht_RehashingTbl = [], ht_Count = 0\<rparr>)"

section \<open>Hashing\<close>

text \<open>32-bit FNV-1a over the bytes of the key (\<open>hash/fnv\<close>), reduced modulo the table size.\<close>

definition fnv32a :: "string \<Rightarrow> uint32" where
  "fnv32a s = foldl (\<lambda>h c. (h XOR of_char c) * 16777619) 2166136261 s"

definition Hash :: "string \<Rightarrow> int \<Rightarrow> int go" where
  "Hash key sz =
     (if sz = 0 then Panics DivideByZero else Ret (uint (fnv32a key) mod \<bar>sz\<bar>))"

section \<open>Memory accounting\<close>

definition ht_IncreaseUsedMemory :: "'v vtype \<Rightarrow> string \<Rightarrow> 'v \<Rightarrow> int64 \<Rightarrow> int64" where
  "ht_IncreaseUsedMemory V key val m =
     IncreaseUsedMemory (vt_any V val) (IncreaseUsedMemory (AString key) m)"

definition ht_DecreaseUsedMemory :: "'v vtype \<Rightarrow> string \<Rightarrow> 'v \<Rightarrow> int64 \<Rightarrow> int64" where
  "ht_DecreaseUsedMemory V key val m =
     DecreaseUsedMemory (vt_any V val) (DecreaseUsedMemory (AString key) m)"

section \<open>Incremental rehashing\<close>

definition startRehashing :: "'v hashtable \<Rightarrow> 'v hashtable" where
  "startRehashing h =
     (if ht_RehashingIdx h < 0 then
        h\<lparr>ht_RehashingSize := ht_Size h * 2,
          ht_RehashingTbl := replicate (nat (ht_Size h * 2)) None,
          ht_RehashingIdx := 0\<rparr>
      else h)"

text \<open>The deferred check at the end of \<open>Set\<close> and \<open>findPositionForInsert\<close>.\<close>

definition deferred_check :: "'v hashtable \<Rightarrow> 'v hashtable" where
  "deferred_check h = (if load_exceeded h then startRehashing h else h)"

text \<open>The inner loop of \<open>rehashStep\<close>: move the chain at \<open>p\<close>, entry by entry, to bucket heads.\<close>

partial_function (option) migrate ::
  "'v entry list \<Rightarrow> nat option list \<Rightarrow> int \<Rightarrow> nat option
     \<Rightarrow> (panic + 'v entry list \<times> nat option list) option" where
  "migrate es tbl sz p =
     (case p of
        None \<Rightarrow> Ret (es, tbl)
      | Some a \<Rightarrow>
          let next = ent_Next (es ! a) in
          gobind (Hash (ent_Key (es ! a)) sz) (\<lambda>index.
          gobind (slice_get tbl index) (\<lambda>head.
          gobind (slice_set tbl index (Some a)) (\<lambda>tbl'.
            migrate (es[a := (es ! a)\<lparr>ent_Next := head\<rparr>]) tbl' sz next))))"

fun rehash_loop :: "nat \<Rightarrow> 'v hashtable \<Rightarrow> 'v hashtable go" where
  "rehash_loop 0 h = Ret h"
| "rehash_loop (Suc i) h =
     (if ht_RehashingIdx h < ht_Size h then
        gobind (slice_get (ht_Table h) (ht_RehashingIdx h)) (\<lambda>entries.
        gobind (slice_set (ht_Table h) (ht_RehashingIdx h) None) (\<lambda>table.
        gobind (migrate (ht_Entries h) (ht_RehashingTbl h) (ht_RehashingSize h) entries) (\<lambda>(es, tbl).
          rehash_loop i (h\<lparr>ht_Entries := es, ht_Table := table, ht_RehashingTbl := tbl,
                           ht_RehashingIdx := ht_RehashingIdx h + 1\<rparr>))))
      else Ret h)"

definition rehash_finish :: "'v hashtable \<Rightarrow> 'v hashtable" where
  "rehash_finish h =
     (if ht_RehashingIdx h = ht_Size h then
        h\<lparr>ht_Table := ht_RehashingTbl h, ht_Size := ht_RehashingSize h,
          ht_RehashingTbl := [], ht_RehashingIdx := -1, ht_RehashingSize := 0\<rparr>
      else h)"

definition rehashStep :: "'v hashtable \<Rightarrow> 'v hashtable go" where
  "rehashStep h = gobind (rehash_loop rehashingBuckets h) (\<lambda>h'. Ret (rehash_finish h'))"

section \<open>Lookup\<close>

text \<open>\<open>for curr := p; curr != nil; curr = curr.Next\<close>, returning the first entry with the key.\<close>

partial_function (option) chain_find ::
  "'v entry list \<Rightarrow> string \<Rightarrow> nat option \<Rightarrow> (panic + nat option) option" where
  "chain_find es key p =
     (case p of
        None \<Rightarrow> Ret None
      | Some a \<Rightarrow> if ent_Key (es ! a) = key then Ret (Some a)
                  else chain_find es key (ent_Next (es ! a)))"

definition GetEntry :: "string \<Rightarrow> 'v hashtable \<Rightarrow> nat option go" where
  "GetEntry key h =
     gobind
       (if ht_RehashingIdx h \<ge> 0 then
          gobind (Hash key (ht_RehashingSize h)) (\<lambda>newIndex.
          gobind (slice_get (ht_RehashingTbl h) newIndex) (\<lambda>p.
            chain_find (ht_Entries h) key p))
        else Ret None)
       (\<lambda>found. case found of
          Some a \<Rightarrow> Ret (Some a)
        | None \<Rightarrow>
            gobind (Hash key (ht_Size h)) (\<lambda>index.
            gobind (slice_get (ht_Table h) index) (\<lambda>p.
              chain_find (ht_Entries h) key p)))"

text \<open>\<open>Get\<close> returns the value and whether the key exists; \<open>None\<close> here is the pair of zero and false.\<close>

definition Get :: "string \<Rightarrow> 'v hashtable \<Rightarrow> 'v option go" where
  "Get key h =
     gobind (GetEntry key h) (\<lambda>found. Ret (map_option (\<lambda>a. ent_Value (ht_Entries h ! a)) found))"

definition getFromTable :: "string \<Rightarrow> 'v hashtable \<Rightarrow> nat option list \<Rightarrow> 'v option go" where
  "getFromTable key h table =
     gobind (Hash key (int (length table))) (\<lambda>index.
     gobind (slice_get table index) (\<lambda>p.
     gobind (chain_find (ht_Entries h) key p) (\<lambda>found.
       Ret (map_option (\<lambda>a. ent_Value (ht_Entries h ! a)) found))))"

section \<open>Insertion\<close>

text \<open>
  The chain loop of \<open>Set\<close>: \<open>Inl a\<close> is the entry that holds the key, \<open>Inr a\<close> the last entry of a
  chain that does not hold it.
\<close>

partial_function (option) chain_locate ::
  "'v entry list \<Rightarrow> string \<Rightarrow> nat \<Rightarrow> (panic + (nat + nat)) option" where
  "chain_locate es key a =
     (if ent_Key (es ! a) = key then Ret (Inl a)
      else case ent_Next (es ! a) of
             None \<Rightarrow> Ret (Inr a)
           | Some b \<Rightarrow> chain_locate es key b)"

definition link_last :: "'v entry list \<Rightarrow> nat \<Rightarrow> 'v entry \<Rightarrow> 'v entry list" where
  "link_last es a e = es[a := (es ! a)\<lparr>ent_Next := Some (length es)\<rparr>] @ [e]"

definition set_rehashing ::
  "'v vtype \<Rightarrow> string \<Rightarrow> 'v \<Rightarrow> 'v hashtable \<Rightarrow> int64 \<Rightarrow> ('v hashtable \<times> int64) go" where
  "set_rehashing V key val h m =
     gobind (Hash key (ht_RehashingSize h)) (\<lambda>newIndex.
     gobind (slice_get (ht_RehashingTbl h) newIndex) (\<lambda>p.
       let es = ht_Entries h; entry = \<lparr>ent_Key = key, ent_Value = val, ent_Next = None\<rparr> in
       case p of
         None \<Rightarrow>
           gobind (slice_set (ht_RehashingTbl h) newIndex (Some (length es))) (\<lambda>tbl.
             Ret (h\<lparr>ht_Entries := es @ [entry], ht_RehashingTbl := tbl, ht_Count := ht_Count h + 1\<rparr>,
                  ht_IncreaseUsedMemory V key val m))
       | Some a \<Rightarrow>
           gobind (chain_locate es key a) (\<lambda>r.
             case r of
               Inl c \<Rightarrow> Ret (h\<lparr>ht_Entries := es[c := (es ! c)\<lparr>ent_Value := val\<rparr>]\<rparr>, m)
             | Inr c \<Rightarrow> Ret (h\<lparr>ht_Entries := link_last es c entry, ht_Count := ht_Count h + 1\<rparr>,
                             ht_IncreaseUsedMemory V key val m))))"

definition set_main ::
  "'v vtype \<Rightarrow> string \<Rightarrow> 'v \<Rightarrow> 'v hashtable \<Rightarrow> int64 \<Rightarrow> ('v hashtable \<times> int64) go" where
  "set_main V key val h m =
     gobind (Hash key (ht_Size h)) (\<lambda>index.
     gobind (slice_get (ht_Table h) index) (\<lambda>p.
       let es = ht_Entries h; entry = \<lparr>ent_Key = key, ent_Value = val, ent_Next = None\<rparr> in
       case p of
         None \<Rightarrow>
           gobind (slice_set (ht_Table h) index (Some (length es))) (\<lambda>tbl.
             Ret (h\<lparr>ht_Entries := es @ [entry], ht_Table := tbl, ht_Count := ht_Count h + 1\<rparr>,
                  ht_IncreaseUsedMemory V key val m))
       | Some a \<Rightarrow>
           gobind (chain_locate es key a) (\<lambda>r.
             case r of
               Inl c \<Rightarrow> Ret (h\<lparr>ht_Entries := es[c := (es ! c)\<lparr>ent_Value := val\<rparr>]\<rparr>,
                             ht_IncreaseUsedMemory V key val m)
             | Inr c \<Rightarrow> Ret (h\<lparr>ht_Entries := link_last es c entry, ht_Count := ht_Count h + 1\<rparr>,
                             ht_IncreaseUsedMemory V key val m))))"

definition ht_Set ::
  "'v vtype \<Rightarrow> string \<Rightarrow> 'v \<Rightarrow> 'v hashtable \<Rightarrow> int64 \<Rightarrow> ('v hashtable \<times> int64) go" where
  "ht_Set V key val h m =
     gobind (if ht_RehashingIdx h \<ge> 0 then rehashStep h else Ret h) (\<lambda>h'.
     gobind (if ht_RehashingIdx h' \<ge> 0 then set_rehashing V key val h' m
             else set_main V key val h' m) (\<lambda>(h'', m').
       Ret (deferred_check h'', m')))"

section \<open>Deletion\<close>

text \<open>
  The \<open>prev\<close>/\<open>cur\<close> loop of \<open>deleteFromTable\<close>: the pair of the entry before the match and the match.
\<close>

partial_function (option) chain_prev ::
  "'v entry list \<Rightarrow> string \<Rightarrow> nat \<Rightarrow> (panic + (nat \<times> nat) option) option" where
  "chain_prev es key prev =
     (case ent_Next (es ! prev) of
        None \<Rightarrow> Ret None
      | Some cur \<Rightarrow> if ent_Key (es ! cur) = key then Ret (Some (prev, cur))
                     else chain_prev es key cur)"

definition deleteFromTable ::
  "'v vtype \<Rightarrow> string \<Rightarrow> 'v entry list \<Rightarrow> nat option list \<Rightarrow> int64
     \<Rightarrow> (bool \<times> 'v entry list \<times> nat option list \<times> int64) go" where
  "deleteFromTable V key es table m =
     gobind (Hash key (int (length table))) (\<lambda>index.
     gobind (slice_get table index) (\<lambda>p.
       case p of
         None \<Rightarrow> Ret (False, es, table, m)
       | Some a \<Rightarrow>
           if ent_Key (es ! a) = key then
             gobind (slice_set table index (ent_Next (es ! a))) (\<lambda>table'.
               Ret (True, es, table', ht_DecreaseUsedMemory V key (ent_Value (es ! a)) m))
           else
             gobind (chain_prev es key a) (\<lambda>r.
               case r of
                 None \<Rightarrow> Ret (False, es, table, m)
               | Some (prev, cur) \<Rightarrow>
                   Ret (True, es[prev := (es ! prev)\<lparr>ent_Next := ent_Next (es ! cur)\<rparr>], table,
                        ht_DecreaseUsedMemory V key (ent_Value (es ! cur)) m))))"

text \<open>\<open>Delete\<close> does not touch \<open>Count\<close>.\<close>

definition ht_Delete ::
  "'v vtype \<Rightarrow> string \<Rightarrow> 'v hashtable \<Rightarrow> int64 \<Rightarrow> (bool \<times> 'v hashtable \<times> int64) go" where
  "ht_Delete V key h m =
     (if ht_RehashingIdx h \<ge> 0 then
        gobind (deleteFromTable V key (ht_Entries h) (ht_Table h) m) (\<lambda>(old, es, table, m').
        gobind (deleteFromTable V key es (ht_RehashingTbl h) m') (\<lambda>(new, es', tbl, m'').
          Ret (old \<or> new, h\<lparr>ht_Entries := es', ht_Table := table, ht_RehashingTbl := tbl\<rparr>, m'')))
      else
        gobind (deleteFromTable V key (ht_Entries h) (ht_Table h) m) (\<lambda>(old, es, table, m').
          Ret (old, h\<lparr>ht_Entries := es, ht_Table := table\<rparr>, m')))"

section \<open>Raw insertion\<close>

text \<open>
  The chain loop of \<open>findPositionForInsert\<close>. The new entry \<open>n\<close> is linked at the end of the chain
  and the loop goes on to visit it, as it does in the code: nothing leaves the loop after the link.
\<close>

partial_function (option) raw_scan ::
  "nat \<Rightarrow> string \<Rightarrow> 'v entry list \<Rightarrow> int \<Rightarrow> int64 \<Rightarrow> nat option
     \<Rightarrow> (panic + nat option \<times> 'v entry list \<times> int \<times> int64) option" where
  "raw_scan n key es cnt m p =
     (case p of
        None \<Rightarrow> Ret (None, es, cnt, m)
      | Some a \<Rightarrow>
          if ent_Key (es ! a) = key then Ret (Some a, es, cnt, m)
          else if ent_Next (es ! a) = None then
            let es' = es[a := (es ! a)\<lparr>ent_Next := Some n\<rparr>] in
            raw_scan n key es' (cnt + 1) (IncreaseUsedMemory (AString key) m) (ent_Next (es' ! a))
          else raw_scan n key es cnt m (ent_Next (es ! a)))"

definition raw_insert ::
  "nat \<Rightarrow> string \<Rightarrow> int \<Rightarrow> nat option list \<Rightarrow> 'v entry list \<Rightarrow> int \<Rightarrow> int64
     \<Rightarrow> (nat option \<times> nat option list \<times> 'v entry list \<times> int \<times> int64) go" where
  "raw_insert n key sz table es cnt m =
     gobind (Hash key sz) (\<lambda>index.
     gobind (slice_get table index) (\<lambda>p.
       case p of
         None \<Rightarrow>
           gobind (slice_set table index (Some n)) (\<lambda>table'.
             Ret (None, table', es, cnt + 1, IncreaseUsedMemory (AString key) m))
       | Some a \<Rightarrow>
           gobind (raw_scan n key es cnt m p) (\<lambda>(found, es', cnt', m').
             Ret (found, table, es', cnt', m'))))"

text \<open>
  The result: the entry, whether it is said to exist already, the table and the counter. The entry
  is allocated first; while a rehash is in progress it is linked into the new table and then, unless
  an entry was found there, into the old one as well.
\<close>

definition findPositionForInsert ::
  "'v vtype \<Rightarrow> string \<Rightarrow> 'v hashtable \<Rightarrow> int64 \<Rightarrow> (nat \<times> bool \<times> 'v hashtable \<times> int64) go" where
  "findPositionForInsert V key h m =
     (let n = length (ht_Entries h);
          entry = \<lparr>ent_Key = key, ent_Value = vt_zero V, ent_Next = None\<rparr>;
          h0 = h\<lparr>ht_Entries := ht_Entries h @ [entry]\<rparr> in
      gobind (if ht_RehashingIdx h0 \<ge> 0 then rehashStep h0 else Ret h0) (\<lambda>h1.
      gobind
        (if ht_RehashingIdx h1 \<ge> 0 then
           gobind (raw_insert n key (ht_RehashingSize h1) (ht_RehashingTbl h1) (ht_Entries h1)
                     (ht_Count h1) m)
             (\<lambda>(found, tbl, es, cnt, m').
                Ret (found, h1\<lparr>ht_RehashingTbl := tbl, ht_Entries := es, ht_Count := cnt\<rparr>, m'))
         else Ret (None, h1, m)) (\<lambda>(found1, h2, m2).
      gobind
        (case found1 of
           Some c \<Rightarrow> Ret (c, True, h2, m2)
         | None \<Rightarrow>
             gobind (raw_insert n key (ht_Size h2) (ht_Table h2) (ht_Entries h2) (ht_Count h2) m2)
               (\<lambda>(found, table, es, cnt, m').
                  let h3 = h2\<lparr>ht_Table := table, ht_Entries := es, ht_Count := cnt\<rparr> in
                  case found of
                    Some c \<Rightarrow> Ret (c, True, h3, m')
                  | None \<Rightarrow> Ret (n, False, h3, m'))) (\<lambda>(e, exist, h4, m4).
        Ret (e, exist, deferred_check h4, m4)))))"

definition AddRaw ::
  "'v vtype \<Rightarrow> string \<Rightarrow> 'v hashtable \<Rightarrow> int64 \<Rightarrow> (nat \<times> bool \<times> 'v hashtable \<times> int64) go" where
  "AddRaw V key h m = findPositionForInsert V key h m"

definition SetVal :: "'v vtype \<Rightarrow> nat option \<Rightarrow> 'v \<Rightarrow> 'v hashtable \<Rightarrow> int64 \<Rightarrow> 'v hashtable \<times> int64" where
  "SetVal V entry val h m =
     (case entry of
        None \<Rightarrow> (h, m)
      | Some a \<Rightarrow>
          (h\<lparr>ht_Entries := (ht_Entries h)[a := (ht_Entries h ! a)\<lparr>ent_Value := val\<rparr>]\<rparr>,
           IncreaseUsedMemory (vt_any V val) m))"

definition GetVal :: "'v vtype \<Rightarrow> nat option \<Rightarrow> 'v hashtable \<Rightarrow> 'v" where
  "GetVal V entry h =
     (case entry of None \<Rightarrow> vt_zero V | Some a \<Rightarrow> ent_Value (ht_Entries h ! a))"

section \<open>Size and sampling\<close>

definition ht_Len :: "'v hashtable \<Rightarrow> int" where
  "ht_Len h = ht_Count h"

definition ht_Empty :: "'v hashtable \<Rightarrow> bool" where
  "ht_Empty h \<longleftrightarrow> ht_Count h = 0"

text \<open>\<open>for curr != nil && len(keys) < count\<close>.\<close>

partial_function (option) collect_keys ::
  "'v entry list \<Rightarrow> int \<Rightarrow> string list \<Rightarrow> nat option \<Rightarrow> (panic + string list) option" where
  "collect_keys es cnt keys p =
     (case p of
        None \<Rightarrow> Ret keys
      | Some a \<Rightarrow> if int (length keys) < cnt
                  then collect_keys es cnt (keys @ [ent_Key (es ! a)]) (ent_Next (es ! a))
                  else Ret keys)"

text \<open>
  \<open>rand.Intn(h.Size)\<close> is the stream \<open>rnd\<close> of the numbers drawn, in the order they are drawn; the
  visited buckets are a list without duplicates.
\<close>

partial_function (option) sample_loop ::
  "'v hashtable \<Rightarrow> (nat \<Rightarrow> int) \<Rightarrow> int \<Rightarrow> nat \<Rightarrow> string list \<Rightarrow> int list \<Rightarrow> (panic + string list) option"
  where
  "sample_loop h rnd cnt i keys visited =
     (if int (length keys) < cnt \<and> int (length visited) < ht_Size h then
        let index = rnd i in
        if index \<in> set visited then sample_loop h rnd cnt (Suc i) keys visited
        else
          gobind (slice_get (ht_Table h) index) (\<lambda>p.
          gobind (collect_keys (ht_Entries h) cnt keys p) (\<lambda>keys'.
            sample_loop h rnd cnt (Suc i) keys' (visited @ [index])))
      else Ret keys)"

definition GetSomeKeys :: "(nat \<Rightarrow> int) \<Rightarrow> int \<Rightarrow> 'v hashtable \<Rightarrow> string list go" where
  "GetSomeKeys rnd cnt h =
     (if ht_Empty h then Ret []
      else
        let cnt' = (if cnt > ht_Len h then ht_Len h else cnt) in
        if cnt' < 0 then Panics MakeSliceLen
        else sample_loop h rnd cnt' 0 [] [])"

text \<open>The loops are executable by their equations.\<close>

declare migrate.simps [code] chain_find.simps [code] chain_locate.simps [code]
  chain_prev.simps [code] raw_scan.simps [code] collect_keys.simps [code] sample_loop.simps [code]

end
