(* ===== verification/Dict_Chain.thy ===== *)
theory Dict_Chain
  imports Dict
begin

text \<open>
  Chains of entries in the store of a hash table: when the pointers from \<open>p\<close> lead through the
  addresses \<open>as\<close> to nil, every pointer loop of \<open>Dict\<close> returns, and this theory says what. The lemmas
  about updates of the store (frame lemmas) say which chains an operation leaves alone.
\<close>

section \<open>Chains\<close>

fun chain :: "'v entry list \<Rightarrow> nat option \<Rightarrow> nat list \<Rightarrow> bool" where
  "chain es p [] \<longleftrightarrow> p = None"
| "chain es p (a # as) \<longleftrightarrow> p = Some a \<and> a < length es \<and> chain es (ent_Next (es ! a)) as"

abbreviation key_of :: "'v entry list \<Rightarrow> nat \<Rightarrow> string" where
  "key_of es a \<equiv> ent_Key (es ! a)"

text \<open>What the store says about keys and values, links forgotten.\<close>

definition kv :: "'v entry list \<Rightarrow> (string \<times> 'v) list" where
  "kv es = map (\<lambda>e. (ent_Key e, ent_Value e)) es"

lemma length_kv [simp]: "length (kv es) = length es"
  by (simp add: kv_def)

lemma kv_nth: "a < length es \<Longrightarrow> kv es ! a = (ent_Key (es ! a), ent_Value (es ! a))"
  by (simp add: kv_def)

lemma kv_relink [simp]: "kv (es[a := (es ! a)\<lparr>ent_Next := p\<rparr>]) = kv es"
  by (cases "a < length es") (simp_all add: kv_def map_update list_update_same_conv list_update_beyond)

lemma kv_append [simp]: "kv (es @ fs) = kv es @ kv fs"
  by (simp add: kv_def)

lemma kv_link_last [simp]: "kv (link_last es a e) = kv es @ [(ent_Key e, ent_Value e)]"
  by (simp add: link_last_def) (simp add: kv_def)

lemma length_link_last [simp]: "length (link_last es a e) = Suc (length es)"
  by (simp add: link_last_def)

lemma kv_set_value:
  "a < length es \<Longrightarrow> kv (es[a := (es ! a)\<lparr>ent_Value := v\<rparr>]) = (kv es)[a := (ent_Key (es ! a), v)]"
  by (simp add: kv_def map_update)

lemma key_of_kv: "kv es = kv fs \<Longrightarrow> a < length es \<Longrightarrow> key_of es a = key_of fs a"
  by (metis fst_conv kv_nth length_kv)

lemma kv_length: "kv es = kv fs \<Longrightarrow> length es = length fs"
  by (metis length_kv)

lemma chain_bound: "chain es p as \<Longrightarrow> a \<in> set as \<Longrightarrow> a < length es"
  by (induction as arbitrary: p) auto

lemma chain_None [simp]: "chain es None as \<longleftrightarrow> as = []"
  by (cases as) auto

lemma chain_Some:
  "chain es (Some a) as \<longleftrightarrow> (\<exists>bs. as = a # bs \<and> a < length es \<and> chain es (ent_Next (es ! a)) bs)"
  by (cases as) auto

lemma chain_unique: "chain es p as \<Longrightarrow> chain es p bs \<Longrightarrow> as = bs"
proof (induction as arbitrary: p bs)
  case Nil
  then show ?case by simp
next
  case (Cons a as)
  from Cons.prems obtain cs where bs: "bs = a # cs" and "chain es (ent_Next (es ! a)) cs"
    by (cases bs) auto
  with Cons.prems(1) Cons.IH [of "ent_Next (es ! a)" cs] have "as = cs" by (metis chain.simps(2))
  with bs show ?case by simp
qed

section \<open>Frame lemmas\<close>

lemma chain_update_other [simp]: "a \<notin> set as \<Longrightarrow> chain (es[a := e]) p as \<longleftrightarrow> chain es p as"
  by (induction as arbitrary: p) auto

lemma chain_update_next:
  assumes "ent_Next e = ent_Next (es ! a)"
  shows "chain (es[a := e]) p as \<longleftrightarrow> chain es p as"
proof (induction as arbitrary: p)
  case (Cons b as)
  have "ent_Next (es[a := e] ! b) = ent_Next (es ! b)" if "b < length es"
    using assms that by (cases "b = a") simp_all
  then show ?case by (simp only: chain.simps length_list_update Cons.IH cong: conj_cong)
qed simp

lemma chain_update_same_next [simp]:
  "chain (es[a := (es ! a)\<lparr>ent_Value := v\<rparr>]) p as \<longleftrightarrow> chain es p as"
  by (rule chain_update_next) simp

lemma chain_alloc: "chain es p as \<Longrightarrow> chain (es @ fs) p as"
  by (induction as arbitrary: p) (auto simp: nth_append)

lemma chain_link_last_other:
  assumes "chain es p as" and "a \<notin> set as"
  shows "chain (link_last es a e) p as"
  using assms by (simp add: link_last_def chain_alloc)

lemma chain_link_last:
  assumes "chain es p as" and "as \<noteq> []" and "distinct as" and "ent_Next e = None"
  shows "chain (link_last es (last as) e) p (as @ [length es])"
  using assms
proof (induction as arbitrary: p)
  case Nil
  then show ?case by simp
next
  case (Cons a as)
  show ?case
  proof (cases as)
    case Nil
    with Cons.prems show ?thesis by (auto simp: link_last_def nth_append)
  next
    case (Cons b bs)
    with Cons.prems have "last as \<noteq> a" by (metis distinct.simps(2) last_in_set list.distinct(1))
    with Cons Cons.IH [of "ent_Next (es ! a)"] Cons.prems show ?thesis
      by (auto simp: link_last_def nth_append)
  qed
qed

lemma chain_unlink:
  assumes "chain es p (xs @ b # c # ys)" and "distinct (xs @ b # c # ys)"
  shows "chain (es[b := (es ! b)\<lparr>ent_Next := ent_Next (es ! c)\<rparr>]) p (xs @ b # ys)"
  using assms
proof (induction xs arbitrary: p)
  case Nil
  then show ?case by auto
next
  case (Cons a xs)
  then show ?case by auto
qed

section \<open>The pointer loops on a chain\<close>

lemma chain_find_chain:
  "chain es p as \<Longrightarrow> chain_find es key p = Ret (find (\<lambda>a. key_of es a = key) as)"
proof (induction as arbitrary: p)
  case Nil
  then show ?case by (simp add: chain_find.simps)
next
  case (Cons a as)
  then show ?case by (subst chain_find.simps) auto
qed

lemma chain_locate_chain:
  "chain es (Some a) (a # as) \<Longrightarrow>
     chain_locate es key a =
       Ret (case find (\<lambda>a. key_of es a = key) (a # as) of Some c \<Rightarrow> Inl c | None \<Rightarrow> Inr (last (a # as)))"
proof (induction as arbitrary: a)
  case Nil
  then show ?case by (subst chain_locate.simps) auto
next
  case (Cons b as)
  then have "ent_Next (es ! a) = Some b" and "chain es (Some b) (b # as)" by auto
  with Cons.IH [of b] show ?case
    by (subst chain_locate.simps) (auto split: option.splits)
qed

lemma chain_prev_none:
  "chain es (Some a) (a # as) \<Longrightarrow> \<forall>x \<in> set as. key_of es x \<noteq> key \<Longrightarrow> chain_prev es key a = Ret None"
proof (induction as arbitrary: a)
  case Nil
  then show ?case by (subst chain_prev.simps) auto
next
  case (Cons b as)
  then have "ent_Next (es ! a) = Some b" and "chain es (Some b) (b # as)" by auto
  with Cons.IH [of b] Cons.prems show ?case
    by (subst chain_prev.simps) auto
qed

lemma chain_prev_some:
  "chain es (Some a) (a # xs @ c # ys) \<Longrightarrow> \<forall>x \<in> set xs. key_of es x \<noteq> key \<Longrightarrow> key_of es c = key \<Longrightarrow>
     chain_prev es key a = Ret (Some (last (a # xs), c))"
proof (induction xs arbitrary: a)
  case Nil
  then show ?case by (subst chain_prev.simps) auto
next
  case (Cons b xs)
  then have "ent_Next (es ! a) = Some b" and "chain es (Some b) (b # xs @ c # ys)" by auto
  with Cons.IH [of b] Cons.prems show ?case
    by (subst chain_prev.simps) auto
qed

lemma raw_scan_found:
  "chain es p as \<Longrightarrow> find (\<lambda>a. key_of es a = key) as = Some c \<Longrightarrow>
     raw_scan n key es cnt m p = Ret (Some c, es, cnt, m)"
proof (induction as arbitrary: p)
  case Nil
  then show ?case by simp
next
  case (Cons a as)
  show ?case
  proof (cases "key_of es a = key")
    case True
    with Cons.prems show ?thesis by (subst raw_scan.simps) auto
  next
    case False
    with Cons.prems have "as \<noteq> []" by auto
    with Cons.prems False Cons.IH [of "ent_Next (es ! a)"] show ?thesis
      by (subst raw_scan.simps) (auto simp: neq_Nil_conv)
  qed
qed

text \<open>
  The key is not in the chain: the loop links the new entry behind the last one, visits it next and
  reports it as found.
\<close>

lemma raw_scan_collide:
  "chain es p as \<Longrightarrow> as \<noteq> [] \<Longrightarrow> \<forall>a \<in> set as. key_of es a \<noteq> key \<Longrightarrow> n \<notin> set as \<Longrightarrow> key_of es n = key \<Longrightarrow>
     raw_scan n key es cnt m p =
       Ret (Some n, es[last as := (es ! last as)\<lparr>ent_Next := Some n\<rparr>], cnt + 1,
            IncreaseUsedMemory (AString key) m)"
proof (induction as arbitrary: p)
  case Nil
  then show ?case by simp
next
  case (Cons a as)
  show ?case
  proof (cases as)
    case Nil
    with Cons.prems show ?thesis
      by (subst raw_scan.simps) (auto simp: Let_def raw_scan.simps nth_list_update)
  next
    case (Cons b bs)
    with Cons.IH [of "ent_Next (es ! a)"] Cons.prems show ?thesis
      by (subst raw_scan.simps) auto
  qed
qed

section \<open>The hash index\<close>

definition hidx :: "string \<Rightarrow> nat \<Rightarrow> nat" where
  "hidx key n = nat (uint (fnv32a key) mod int n)"

lemma hidx_less [simp]: "0 < n \<Longrightarrow> hidx key n < n"
  by (simp add: hidx_def nat_less_iff)

lemma Hash_nat: "0 < n \<Longrightarrow> Hash key (int n) = Ret (int (hidx key n))"
  by (simp add: Hash_def hidx_def)

section \<open>Bucket arrays\<close>

text \<open>
  The array \<open>tbl\<close> holds the chains \<open>A\<close>, one list of addresses per bucket, and every entry is in the
  bucket of its hash.
\<close>

definition rep_table :: "'v entry list \<Rightarrow> nat option list \<Rightarrow> nat list list \<Rightarrow> bool" where
  "rep_table es tbl A \<longleftrightarrow>
     tbl \<noteq> [] \<and> list_all2 (chain es) tbl A \<and>
     (\<forall>i < length A. \<forall>a \<in> set (A ! i). hidx (key_of es a) (length tbl) = i)"

lemma rep_table_length: "rep_table es tbl A \<Longrightarrow> length A = length tbl"
  by (auto simp: rep_table_def dest: list_all2_lengthD)

lemma rep_table_pos: "rep_table es tbl A \<Longrightarrow> 0 < length tbl"
  by (simp add: rep_table_def)

lemma rep_table_chain: "rep_table es tbl A \<Longrightarrow> i < length tbl \<Longrightarrow> chain es (tbl ! i) (A ! i)"
  by (simp add: rep_table_def list_all2_nth)

lemma rep_table_bound:
  assumes "rep_table es tbl A" and "a \<in> set (concat A)"
  shows "a < length es"
proof -
  from assms(2) obtain i where "i < length A" and "a \<in> set (A ! i)" by (rule in_concatE)
  with assms(1) show ?thesis
    by (metis chain_bound rep_table_chain rep_table_length)
qed

lemma rep_table_bucket:
  assumes "rep_table es tbl A" and "a \<in> set (concat A)"
  shows "a \<in> set (A ! hidx (key_of es a) (length tbl))"
proof -
  from assms(2) obtain i where "i < length A" and "a \<in> set (A ! i)" by (rule in_concatE)
  with assms(1) show ?thesis by (auto simp: rep_table_def)
qed

text \<open>A change of the store that leaves keys and the chains of the array alone.\<close>

lemma rep_table_frame:
  assumes rep: "rep_table es tbl A"
    and chains: "\<And>q cs. chain es q cs \<Longrightarrow> set cs \<subseteq> set (concat A) \<Longrightarrow> chain es' q cs"
    and keys: "\<And>a. a \<in> set (concat A) \<Longrightarrow> key_of es' a = key_of es a"
  shows "rep_table es' tbl A"
proof -
  have "chain es' (tbl ! i) (A ! i)" if "i < length tbl" for i
    using that chains [OF rep_table_chain [OF rep that]] rep_table_length [OF rep] by simp
  moreover have "hidx (key_of es' a) (length tbl) = i" if "i < length A" "a \<in> set (A ! i)" for i a
    using rep that keys [OF set_concat_nth [OF that]] by (auto simp: rep_table_def)
  ultimately show ?thesis
    using rep by (auto simp: rep_table_def list_all2_conv_all_nth)
qed

text \<open>A change of the store together with the chain of one bucket.\<close>

lemma rep_table_update:
  assumes rep: "rep_table es tbl A" and j: "j < length tbl"
    and chains: "\<And>q cs. chain es q cs \<Longrightarrow> set cs \<subseteq> set (concat A) \<Longrightarrow> set cs \<inter> set (A ! j) = {} \<Longrightarrow>
      chain es' q cs"
    and keys: "\<And>a. a \<in> set (concat A) \<Longrightarrow> key_of es' a = key_of es a"
    and dist: "distinct (concat A)"
    and new: "chain es' p as" and hash: "\<And>a. a \<in> set as \<Longrightarrow> hidx (key_of es' a) (length tbl) = j"
  shows "rep_table es' (tbl[j := p]) (A[j := as])"
proof -
  have len: "length A = length tbl" using rep by (rule rep_table_length)
  have "chain es' (tbl[j := p] ! i) (A[j := as] ! i)" if i: "i < length tbl" for i
  proof (cases "i = j")
    case True
    with new j len show ?thesis by simp
  next
    case False
    have "set (A ! i) \<inter> set (A ! j) = {}"
    proof (rule ccontr)
      assume "set (A ! i) \<inter> set (A ! j) \<noteq> {}"
      then obtain x where x: "x \<in> set (A ! i)" "x \<in> set (A ! j)" by auto
      have "i = hidx (key_of es x) (length tbl)" using rep i x len by (auto simp: rep_table_def)
      moreover have "j = hidx (key_of es x) (length tbl)" using rep j x len by (auto simp: rep_table_def)
      ultimately show False using False by simp
    qed
    with False chains [OF rep_table_chain [OF rep i]] i len show ?thesis by simp
  qed
  moreover have "hidx (key_of es' a) (length tbl) = i"
    if "i < length A" "a \<in> set (A[j := as] ! i)" for i a
  proof (cases "i = j")
    case True
    with that hash show ?thesis by simp
  next
    case False
    with that rep keys [OF set_concat_nth] show ?thesis by (auto simp: rep_table_def)
  qed
  ultimately show ?thesis
    using rep len by (auto simp: rep_table_def list_all2_conv_all_nth)
qed

end
