(* ===== verification/Dict_Refine.thy ===== *)
theory Dict_Refine
  imports Dict_Chain
begin

text \<open>
  The hash table implements a finite map. \<open>shape\<close> is the invariant of the pointer structure (every
  entry in exactly one chain, in the bucket of its hash, every key once), \<open>represents h M d\<close> says
  that a table in that shape stores the map \<open>M\<close>, where \<open>d\<close> counts the deletions that \<open>Count\<close> never
  saw. Each operation is then a step on \<open>M\<close>.
\<close>

text \<open>The addresses of a bucket array stay in the form \<open>set (concat A)\<close> in this theory.\<close>

declare set_concat [simp del] concat_eq_Nil_conv [simp del]

section \<open>Invariant and abstraction\<close>

definition shape :: "'v hashtable \<Rightarrow> nat list list \<Rightarrow> nat list list \<Rightarrow> bool" where
  "shape h A B \<longleftrightarrow>
     rep_table (ht_Entries h) (ht_Table h) A \<and> ht_Size h = int (length (ht_Table h)) \<and>
     distinct (concat A @ concat B) \<and>
     inj_on (key_of (ht_Entries h)) (set (concat A @ concat B)) \<and>
     (if ht_RehashingIdx h < 0 then ht_RehashingIdx h = -1 \<and> B = []
      else rep_table (ht_Entries h) (ht_RehashingTbl h) B \<and>
           ht_RehashingSize h = int (length (ht_RehashingTbl h)) \<and>
           ht_RehashingIdx h \<le> ht_Size h \<and> (\<forall>i < nat (ht_RehashingIdx h). A ! i = []))"

text \<open>The entries at the addresses \<open>S\<close> are the graph of the map \<open>M\<close>.\<close>

definition stores :: "'v entry list \<Rightarrow> nat set \<Rightarrow> (string \<rightharpoonup> 'v) \<Rightarrow> bool" where
  "stores es S M \<longleftrightarrow> (\<forall>k v. M k = Some v \<longleftrightarrow> (\<exists>a \<in> S. kv es ! a = (k, v)))"

definition represents :: "'v hashtable \<Rightarrow> (string \<rightharpoonup> 'v) \<Rightarrow> nat \<Rightarrow> bool" where
  "represents h M d \<longleftrightarrow>
     (\<exists>A B. shape h A B \<and> ht_RehashingIdx h < ht_Size h \<and>
        stores (ht_Entries h) (set (concat A @ concat B)) M \<and>
        ht_Count h = int (length (concat A @ concat B)) + int d)"

text \<open>The next step of a rehash in progress, if there is one, completes it.\<close>

definition rehash_ends :: "'v hashtable \<Rightarrow> bool" where
  "rehash_ends h \<longleftrightarrow> ht_RehashingIdx h < 0 \<or> ht_Size h \<le> ht_RehashingIdx h + int rehashingBuckets"

lemma shape_bound: "shape h A B \<Longrightarrow> a \<in> set (concat A @ concat B) \<Longrightarrow> a < length (ht_Entries h)"
  by (auto simp: shape_def split: if_splits dest: rep_table_bound)

lemma stores_cong:
  "kv es = kv es' \<Longrightarrow> S = S' \<Longrightarrow> stores es S M \<Longrightarrow> stores es' S' M"
  by (simp add: stores_def)

section \<open>Migration of one chain\<close>

lemma migrate_chain:
  assumes "chain es p as" and "rep_table es tbl B" and "distinct (as @ concat B)"
  shows "\<exists>es' tbl' B'. migrate es tbl (int (length tbl)) p = Ret (es', tbl') \<and>
    rep_table es' tbl' B' \<and> length tbl' = length tbl \<and> kv es' = kv es \<and>
    mset (concat B') = mset as + mset (concat B) \<and>
    (\<forall>q cs. chain es q cs \<longrightarrow> set cs \<inter> set as = {} \<longrightarrow> chain es' q cs)"
  using assms
proof (induction as arbitrary: es tbl p B)
  case Nil
  then show ?case by (subst migrate.simps) auto
next
  case (Cons a as)
  let ?n = "length tbl"
  let ?j = "hidx (key_of es a) ?n"
  let ?es = "es[a := (es ! a)\<lparr>ent_Next := tbl ! ?j\<rparr>]"
  let ?tbl = "tbl[?j := Some a]"
  let ?B = "B[?j := a # B ! ?j]"
  from Cons.prems have p: "p = Some a" and a: "a < length es" and ch: "chain es (ent_Next (es ! a)) as"
    and fresh: "a \<notin> set as" "a \<notin> set (concat B)" and dist: "distinct (concat B)" by auto
  have n: "0 < ?n" using Cons.prems(2) by (rule rep_table_pos)
  then have j: "?j < ?n" by simp
  have lenB: "length B = ?n" using Cons.prems(2) by (rule rep_table_length)
  have keys: "key_of ?es b = key_of es b" for b by (cases "b = a") (simp_all add: a)
  have notB: "a \<notin> set (B ! ?j)" using fresh(2) set_concat_nth [of ?j B a] j lenB by auto
  have rep: "rep_table ?es ?tbl ?B"
  proof (rule rep_table_update [OF Cons.prems(2) j])
    show "chain ?es (Some a) (a # B ! ?j)"
      using a notB rep_table_chain [OF Cons.prems(2) j] by simp
    show "hidx (key_of ?es b) ?n = ?j" if "b \<in> set (a # B ! ?j)" for b
      using that Cons.prems(2) j lenB unfolding keys by (auto simp: rep_table_def)
    show "chain ?es q cs" if "chain es q cs" "set cs \<subseteq> set (concat B)" for q cs
      using that fresh(2) by (subst chain_update_other) auto
  qed (use keys dist in auto)
  have ms: "mset (concat ?B) = add_mset a (mset (concat B))"
    using mset_concat_push [of ?j B a] j lenB by simp
  have "mset (as @ concat ?B) = mset ((a # as) @ concat B)" using ms by simp
  then have dist': "distinct (as @ concat ?B)"
    using Cons.prems(3) by (metis mset_eq_imp_distinct_iff)
  have ch': "chain ?es (ent_Next (es ! a)) as" using ch fresh(1) by simp
  from Cons.IH [OF ch' rep dist'] obtain es' tbl' B' where
    run: "migrate ?es ?tbl (int (length ?tbl)) (ent_Next (es ! a)) = Ret (es', tbl')"
    and res: "rep_table es' tbl' B'" "length tbl' = length ?tbl" "kv es' = kv ?es"
      "mset (concat B') = mset as + mset (concat ?B)"
    and frame: "\<forall>q cs. chain ?es q cs \<longrightarrow> set cs \<inter> set as = {} \<longrightarrow> chain es' q cs"
    by blast
  have "migrate es tbl (int ?n) p = Ret (es', tbl')"
    using run j n by (subst migrate.simps) (simp add: p Let_def Hash_nat)
  moreover have "\<forall>q cs. chain es q cs \<longrightarrow> set cs \<inter> set (a # as) = {} \<longrightarrow> chain es' q cs"
    using frame by simp
  ultimately show ?case
    using res ms by (intro exI [of _ es'] exI [of _ tbl'] exI [of _ B']) simp
qed

section \<open>Rehashing\<close>

lemma kv_inj_on:
  assumes "kv es = kv es'" and "inj_on (key_of es) S" and "\<And>a. a \<in> S \<Longrightarrow> a < length es"
  shows "inj_on (key_of es') S"
  using assms by (auto simp: inj_on_def key_of_kv [OF assms(1), symmetric])

lemma rehash_iteration:
  assumes sh: "shape h A B" and idx: "0 \<le> ht_RehashingIdx h" "ht_RehashingIdx h < ht_Size h"
  shows "\<exists>es tbl A' B'.
    (let h' = h\<lparr>ht_Entries := es, ht_Table := (ht_Table h)[nat (ht_RehashingIdx h) := None],
                ht_RehashingTbl := tbl, ht_RehashingIdx := ht_RehashingIdx h + 1\<rparr> in
     migrate (ht_Entries h) (ht_RehashingTbl h) (ht_RehashingSize h)
       (ht_Table h ! nat (ht_RehashingIdx h)) = Ret (es, tbl) \<and> shape h' A' B' \<and> kv es = kv (ht_Entries h) \<and>
     mset (concat A' @ concat B') = mset (concat A @ concat B))"
proof -
  let ?es = "ht_Entries h" and ?t = "ht_Table h" and ?i = "nat (ht_RehashingIdx h)"
  let ?A = "A[?i := []]"
  from sh idx have repA: "rep_table ?es ?t A" and repB: "rep_table ?es (ht_RehashingTbl h) B"
    and rs: "ht_RehashingSize h = int (length (ht_RehashingTbl h))"
    and sz: "ht_Size h = int (length ?t)" and dist: "distinct (concat A @ concat B)"
    and inj: "inj_on (key_of ?es) (set (concat A @ concat B))"
    and empty: "\<forall>i < ?i. A ! i = []"
    by (auto simp: shape_def)
  have lenA: "length A = length ?t" using repA by (rule rep_table_length)
  have i: "?i < length ?t" using idx sz by linarith
  have msA: "mset (concat ?A) + mset (A ! ?i) = mset (concat A)"
    using mset_concat_update [of ?i A "[]"] i lenA by simp
  have "distinct (concat ?A @ A ! ?i @ concat B)"
    using dist msA by (metis mset_append mset_eq_imp_distinct_iff append_assoc)
  then have distm: "distinct (A ! ?i @ concat B)" and disjA: "set (concat ?A) \<inter> set (A ! ?i) = {}"
    by auto
  obtain es tbl B' where run: "migrate ?es (ht_RehashingTbl h) (ht_RehashingSize h) (?t ! ?i) = Ret (es, tbl)"
    and repB': "rep_table es tbl B'" and len: "length tbl = length (ht_RehashingTbl h)"
    and kv: "kv es = kv ?es" and msB: "mset (concat B') = mset (A ! ?i) + mset (concat B)"
    and frame: "\<forall>q cs. chain ?es q cs \<longrightarrow> set cs \<inter> set (A ! ?i) = {} \<longrightarrow> chain es q cs"
    using migrate_chain [OF rep_table_chain [OF repA i] repB distm] rs by auto
  have keys: "key_of es a = key_of ?es a" if "a \<in> set (concat A @ concat B)" for a
    using key_of_kv [OF kv, of a] shape_bound [OF sh that] kv_length [OF kv] by simp
  have ms: "mset (concat ?A @ concat B') = mset (concat A @ concat B)"
    using msA msB by (simp add: ac_simps)
  then have set: "set (concat ?A @ concat B') = set (concat A @ concat B)"
    by (metis mset_eq_setD)
  have repA0: "rep_table ?es (?t[?i := None]) ?A"
    by (rule rep_table_update [OF repA i]) (use dist in auto)
  have subA: "set (concat ?A) \<subseteq> set (concat A)" using msA by (metis set_mset_mset mset_subset_eq_add_left set_mset_mono)
  have repA': "rep_table es (?t[?i := None]) ?A"
  proof (rule rep_table_frame [OF repA0])
    show "chain es q cs" if "chain ?es q cs" "set cs \<subseteq> set (concat ?A)" for q cs
      using that frame disjA by blast
    show "key_of es a = key_of ?es a" if "a \<in> set (concat ?A)" for a
      using that subA keys [of a] by auto
  qed
  have "shape (h\<lparr>ht_Entries := es, ht_Table := ?t[?i := None], ht_RehashingTbl := tbl,
      ht_RehashingIdx := ht_RehashingIdx h + 1\<rparr>) ?A B'"
  proof -
    have "inj_on (key_of es) (set (concat ?A @ concat B'))"
      unfolding set using kv_inj_on [OF kv [symmetric] inj] shape_bound [OF sh] by blast
    moreover have "distinct (concat ?A @ concat B')"
      using dist ms by (metis mset_eq_imp_distinct_iff)
    moreover have "?A ! k = []" if "k < nat (ht_RehashingIdx h + 1)" for k
      using that idx empty lenA i by (cases "k = ?i") auto
    ultimately show ?thesis
      using repA' repB' sz rs len idx by (simp add: shape_def)
  qed
  with run kv ms show ?thesis unfolding Let_def by blast
qed

lemma rehash_loop_shape:
  assumes "shape h A B" and "0 \<le> ht_RehashingIdx h"
  shows "\<exists>h' A' B'. rehash_loop i h = Ret h' \<and> shape h' A' B' \<and>
    kv (ht_Entries h') = kv (ht_Entries h) \<and> mset (concat A' @ concat B') = mset (concat A @ concat B) \<and>
    ht_Count h' = ht_Count h \<and> ht_Size h' = ht_Size h \<and> ht_RehashingSize h' = ht_RehashingSize h \<and>
    ht_RehashingIdx h' = min (ht_RehashingIdx h + int i) (ht_Size h)"
  using assms
proof (induction i arbitrary: h A B)
  case 0
  then have "ht_RehashingIdx h \<le> ht_Size h" by (simp add: shape_def)
  with "0" show ?case by - (rule exI [of _ h], rule exI [of _ A], rule exI [of _ B], simp)
next
  case (Suc i)
  show ?case
  proof (cases "ht_RehashingIdx h < ht_Size h")
    case True
    from rehash_iteration [OF Suc.prems True] obtain es tbl A1 B1 where
      run: "migrate (ht_Entries h) (ht_RehashingTbl h) (ht_RehashingSize h)
        (ht_Table h ! nat (ht_RehashingIdx h)) = Ret (es, tbl)"
      and sh: "shape (h\<lparr>ht_Entries := es, ht_Table := (ht_Table h)[nat (ht_RehashingIdx h) := None],
          ht_RehashingTbl := tbl, ht_RehashingIdx := ht_RehashingIdx h + 1\<rparr>) A1 B1" (is "shape ?h _ _")
      and keep: "kv es = kv (ht_Entries h)" "mset (concat A1 @ concat B1) = mset (concat A @ concat B)"
      unfolding Let_def by blast
    have idx1: "0 \<le> ht_RehashingIdx ?h" using Suc.prems(2) by simp
    from Suc.prems(1) have sz: "ht_Size h = int (length (ht_Table h))" by (simp add: shape_def)
    have step: "rehash_loop (Suc i) h = rehash_loop i ?h"
      using True run Suc.prems(2) sz by (simp add: slice_get_def slice_set_def)
    from Suc.IH [OF sh idx1] obtain h' A' B' where "rehash_loop i ?h = Ret h'" and sh': "shape h' A' B'"
      and "kv (ht_Entries h') = kv es" "mset (concat A' @ concat B') = mset (concat A1 @ concat B1)"
      and "ht_Count h' = ht_Count h" "ht_Size h' = ht_Size h" "ht_RehashingSize h' = ht_RehashingSize h"
      and "ht_RehashingIdx h' = min (ht_RehashingIdx h + 1 + int i) (ht_Size h)"
      by auto
    with step keep True show ?thesis
      by - (rule exI [of _ h'], rule exI [of _ A'], rule exI [of _ B'], simp add: algebra_simps)
  next
    case False
    with Suc.prems have "ht_RehashingIdx h = ht_Size h" by (simp add: shape_def)
    with False Suc.prems show ?thesis
      by - (rule exI [of _ h], rule exI [of _ A], rule exI [of _ B], simp)
  qed
qed

lemma shape_finish:
  assumes sh: "shape h A B" and idx: "0 \<le> ht_RehashingIdx h"
  shows "\<exists>A' B'. shape (rehash_finish h) A' B' \<and>
    set (concat A' @ concat B') = set (concat A @ concat B) \<and>
    length (concat A' @ concat B') = length (concat A @ concat B) \<and>
    ht_RehashingIdx (rehash_finish h) < ht_Size (rehash_finish h)"
proof (cases "ht_RehashingIdx h = ht_Size h")
  case True
  from sh idx have repA: "rep_table (ht_Entries h) (ht_Table h) A"
    and repB: "rep_table (ht_Entries h) (ht_RehashingTbl h) B"
    and sz: "ht_Size h = int (length (ht_Table h))"
    and empty: "\<forall>i < nat (ht_RehashingIdx h). A ! i = []"
    by (auto simp: shape_def)
  have "concat A = []"
    using empty True sz rep_table_length [OF repA] by (intro concat_eq_Nil) simp
  with True sh idx rep_table_pos [OF repB] show ?thesis
    by - (rule exI [of _ B], rule exI [of _ "[]"], simp add: shape_def rehash_finish_def)
next
  case False
  with sh idx show ?thesis
    by - (rule exI [of _ A], rule exI [of _ B], auto simp: rehash_finish_def shape_def)
qed

text \<open>One rehash step returns, keeps the map, and leaves a table in shape.\<close>

lemma rehashStep_shape:
  assumes sh: "shape h A B" and idx: "0 \<le> ht_RehashingIdx h"
  shows "\<exists>h' A' B'. rehashStep h = Ret h' \<and> shape h' A' B' \<and> ht_RehashingIdx h' < ht_Size h' \<and>
    kv (ht_Entries h') = kv (ht_Entries h) \<and> set (concat A' @ concat B') = set (concat A @ concat B) \<and>
    length (concat A' @ concat B') = length (concat A @ concat B) \<and> ht_Count h' = ht_Count h \<and>
    (rehash_ends h \<longrightarrow> ht_RehashingIdx h' = -1)"
proof -
  obtain h1 A1 B1 where run: "rehash_loop rehashingBuckets h = Ret h1" and sh1: "shape h1 A1 B1"
    and kv: "kv (ht_Entries h1) = kv (ht_Entries h)"
    and ms: "mset (concat A1 @ concat B1) = mset (concat A @ concat B)"
    and cnt: "ht_Count h1 = ht_Count h" and sz: "ht_Size h1 = ht_Size h"
    and idx1: "ht_RehashingIdx h1 = min (ht_RehashingIdx h + int rehashingBuckets) (ht_Size h)"
    using rehash_loop_shape [OF sh idx, of rehashingBuckets] by blast
  have nonneg: "0 \<le> ht_RehashingIdx h1" using idx idx1 sh by (simp add: shape_def)
  obtain A' B' where fin: "shape (rehash_finish h1) A' B'"
    "set (concat A' @ concat B') = set (concat A1 @ concat B1)"
    "length (concat A' @ concat B') = length (concat A1 @ concat B1)"
    "ht_RehashingIdx (rehash_finish h1) < ht_Size (rehash_finish h1)"
    using shape_finish [OF sh1 nonneg] by blast
  have "rehashStep h = Ret (rehash_finish h1)" using run by (simp add: rehashStep_def)
  moreover have "ht_Entries (rehash_finish h1) = ht_Entries h1" "ht_Count (rehash_finish h1) = ht_Count h1"
    by (simp_all add: rehash_finish_def)
  moreover have "ht_RehashingIdx (rehash_finish h1) = -1" if "rehash_ends h"
    using that idx idx1 sz by (simp add: rehash_finish_def rehash_ends_def)
  moreover have "set (concat A1 @ concat B1) = set (concat A @ concat B)"
    "length (concat A1 @ concat B1) = length (concat A @ concat B)"
    using ms by (metis mset_eq_setD, metis size_mset)
  ultimately show ?thesis
    using fin kv cnt by - (rule exI [of _ "rehash_finish h1"], rule exI [of _ A'], rule exI [of _ B'], simp)
qed

section \<open>Lookup\<close>

definition located :: "'v entry list \<Rightarrow> nat set \<Rightarrow> string \<Rightarrow> nat option \<Rightarrow> bool" where
  "located es S key r \<longleftrightarrow>
     (case r of Some c \<Rightarrow> c \<in> S \<and> key_of es c = key | None \<Rightarrow> \<forall>a \<in> S. key_of es a \<noteq> key)"

lemma bucket_located:
  assumes rep: "rep_table es tbl A"
  shows "located es (set (concat A)) key
    (find (\<lambda>a. key_of es a = key) (A ! hidx key (length tbl)))"
proof -
  let ?j = "hidx key (length tbl)"
  have j: "?j < length A" using rep_table_pos [OF rep] rep_table_length [OF rep] by simp
  show ?thesis
  proof (cases "find (\<lambda>a. key_of es a = key) (A ! ?j)")
    case None
    then have none: "\<forall>a \<in> set (A ! ?j). key_of es a \<noteq> key" by (auto simp: find_None_iff)
    have "\<forall>a \<in> set (concat A). key_of es a \<noteq> key"
      using none rep_table_bucket [OF rep] by auto
    with None show ?thesis by (simp add: located_def)
  next
    case (Some c)
    with find_Some_iff2 [OF Some] set_concat_nth [OF j] show ?thesis by (simp add: located_def)
  qed
qed

lemma table_lookup:
  assumes "rep_table es tbl A"
  shows "gobind (slice_get tbl (int (hidx key (length tbl)))) (\<lambda>p. chain_find es key p) =
    Ret (find (\<lambda>a. key_of es a = key) (A ! hidx key (length tbl)))"
  using rep_table_pos [OF assms] rep_table_chain [OF assms] by (simp add: chain_find_chain)

lemma located_Un:
  "located es S key (Some c) \<Longrightarrow> located es (T \<union> S) key (Some c)"
  "located es S key None \<Longrightarrow> located es T key r \<Longrightarrow> located es (T \<union> S) key r"
  by (auto simp: located_def split: option.splits)

lemma GetEntry_located:
  assumes sh: "shape h A B"
  shows "\<exists>r. GetEntry key h = Ret r \<and> located (ht_Entries h) (set (concat A @ concat B)) key r"
proof -
  let ?es = "ht_Entries h"
  from sh have repA: "rep_table ?es (ht_Table h) A" and sz: "ht_Size h = int (length (ht_Table h))"
    by (auto simp: shape_def)
  note old = table_lookup [OF repA, of key] bucket_located [OF repA, of key]
  have posA: "0 < length (ht_Table h)" using repA by (rule rep_table_pos)
  show ?thesis
  proof (cases "ht_RehashingIdx h < 0")
    case True
    with sh have "B = []" by (simp add: shape_def)
    with True old posA sz show ?thesis by (simp add: GetEntry_def Hash_nat)
  next
    case False
    with sh have repB: "rep_table ?es (ht_RehashingTbl h) B"
      and rs: "ht_RehashingSize h = int (length (ht_RehashingTbl h))" by (auto simp: shape_def)
    note new = table_lookup [OF repB, of key] bucket_located [OF repB, of key]
    have posB: "0 < length (ht_RehashingTbl h)" using repB by (rule rep_table_pos)
    show ?thesis
    proof (cases "find (\<lambda>a. key_of ?es a = key) (B ! hidx key (length (ht_RehashingTbl h)))")
      case None
      with False new old posA posB sz rs show ?thesis
        by (simp add: GetEntry_def Hash_nat located_Un)
    next
      case (Some c)
      with False new posB rs show ?thesis
        by (simp add: GetEntry_def Hash_nat located_Un)
    qed
  qed
qed

lemma located_stores:
  assumes "stores es S M" and "located es S key r" and "inj_on (key_of es) S"
    and "\<And>a. a \<in> S \<Longrightarrow> a < length es"
  shows "map_option (\<lambda>a. ent_Value (es ! a)) r = M key"
proof (cases r)
  case None
  with assms have "M key \<noteq> Some v" for v by (force simp: located_def stores_def kv_nth)
  with None show ?thesis by (cases "M key") auto
next
  case (Some c)
  with assms(2,4) have "c \<in> S" "kv es ! c = (key, ent_Value (es ! c))" by (auto simp: located_def kv_nth)
  with assms(1) have "M key = Some (ent_Value (es ! c))" by (auto simp: stores_def)
  with Some show ?thesis by simp
qed

lemma shape_inj: "shape h A B \<Longrightarrow> inj_on (key_of (ht_Entries h)) (set (concat A @ concat B))"
  by (simp add: shape_def)

text \<open>A lookup returns what the map holds.\<close>

lemma Get_represents:
  assumes "represents h M d"
  shows "Get key h = Ret (M key)"
proof -
  from assms obtain A B where sh: "shape h A B"
    and st: "stores (ht_Entries h) (set (concat A @ concat B)) M" by (auto simp: represents_def)
  obtain r where "GetEntry key h = Ret r"
    and loc: "located (ht_Entries h) (set (concat A @ concat B)) key r"
    using GetEntry_located [OF sh] by blast
  with located_stores [OF st loc shape_inj [OF sh] shape_bound [OF sh]] show ?thesis
    by (simp add: Get_def)
qed

section \<open>Growth of one bucket\<close>

lemma stores_insert:
  assumes st: "stores es S M" and kv: "kv es' = kv es @ [(key, v)]" and fresh: "M key = None"
    and bound: "\<And>a. a \<in> S \<Longrightarrow> a < length es"
  shows "stores es' (insert (length es) S) (M(key \<mapsto> v))"
proof -
  have old: "kv es' ! a = kv es ! a" if "a \<in> S" for a
    using bound [OF that] kv by (simp add: nth_append)
  have new: "kv es' ! length es = (key, v)" using kv by (simp add: nth_append)
  have "kv es ! a \<noteq> (key, w)" if "a \<in> S" for a w
    using st fresh that by (metis option.distinct(1) stores_def)
  with st old new show ?thesis
    by (auto simp: stores_def)
qed

lemma stores_update:
  assumes st: "stores es S M" and c: "c \<in> S" "c < length es" "key_of es c = key"
    and inj: "inj_on (key_of es) S" and kv: "kv es' = (kv es)[c := (key, v)]"
    and bound: "\<And>a. a \<in> S \<Longrightarrow> a < length es"
  shows "stores es' S (M(key \<mapsto> v))"
proof -
  have new: "kv es' ! c = (key, v)" using kv c(2) by simp
  have old: "kv es' ! a = kv es ! a" if "a \<noteq> c" for a using kv that by simp
  have other: "fst (kv es ! a) \<noteq> key" if "a \<in> S" "a \<noteq> c" for a
    using inj c(1,3) that bound by (auto simp: kv_nth inj_on_def)
  show ?thesis
    unfolding stores_def
  proof (intro allI)
    fix k w
    show "(M(key \<mapsto> v)) k = Some w \<longleftrightarrow> (\<exists>a\<in>S. kv es' ! a = (k, w))"
    proof (cases "k = key")
      case True
      with new other old c(1) show ?thesis by (metis fst_conv fun_upd_same option.inject snd_conv)
    next
      case False
      have "(\<exists>a\<in>S. kv es ! a = (k, w)) \<longleftrightarrow> (\<exists>a\<in>S. kv es' ! a = (k, w))"
        using False new old c by (metis fst_conv kv_nth)
      with False st show ?thesis by (simp add: stores_def)
    qed
  qed
qed

lemma key_of_new: "kv es' = kv es @ [(key, v)] \<Longrightarrow> key_of es' (length es) = key"
  using kv_nth [of "length es" es'] kv_length [of es' "es @ [\<lparr>ent_Key = key, ent_Value = v, ent_Next = None\<rparr>]"]
  by (simp add: kv_def nth_append)

lemma key_of_old: "kv es' = kv es @ [(key, v)] \<Longrightarrow> a < length es \<Longrightarrow> key_of es' a = key_of es a"
proof -
  assume kv: "kv es' = kv es @ [(key, v)]" and a: "a < length es"
  then have "length es' = Suc (length es)" by (metis length_append_singleton length_kv)
  with kv a kv_nth [of a es'] kv_nth [of a es] show ?thesis by (simp add: nth_append)
qed

text \<open>A store extended by one entry keeps the arrays that do not see the change.\<close>

lemma rep_table_grow_frame:
  assumes rep: "rep_table es tbl B" and kv: "kv es' = kv es @ [(key, v)]"
    and chains: "\<And>q cs. chain es q cs \<Longrightarrow> set cs \<subseteq> set (concat B) \<Longrightarrow> chain es' q cs"
  shows "rep_table es' tbl B"
  by (rule rep_table_frame [OF rep chains]) (use rep_table_bound [OF rep] key_of_old [OF kv] in auto)

lemma rep_table_grow:
  assumes rep: "rep_table es tbl A" and dist: "distinct (concat A)"
    and kv: "kv es' = kv es @ [(key, v)]" and j: "j = hidx key (length tbl)"
    and chains: "\<And>q cs. chain es q cs \<Longrightarrow> set cs \<inter> set (A ! j) = {} \<Longrightarrow> chain es' q cs"
    and new: "chain es' p (A ! j @ [length es])"
  shows "rep_table es' (tbl[j := p]) (A[j := A ! j @ [length es]])"
proof (rule rep_table_update [OF rep])
  show jn: "j < length tbl" using rep_table_pos [OF rep] j by simp
  show "hidx (key_of es' a) (length tbl) = j" if "a \<in> set (A ! j @ [length es])" for a
  proof (cases "a = length es")
    case True
    with key_of_new [OF kv] j show ?thesis by simp
  next
    case False
    with that have "a \<in> set (A ! j)" by simp
    then have "hidx (key_of es a) (length tbl) = j" and "a \<in> set (concat A)"
      using rep jn rep_table_length [OF rep] set_concat_nth [of j A a] by (auto simp: rep_table_def)
    with key_of_old [OF kv] rep_table_bound [OF rep] show ?thesis by simp
  qed
qed (use chains dist new key_of_old [OF kv] rep_table_bound [OF rep] in auto)

section \<open>Insertion into one bucket array\<close>

text \<open>
  The common part of the two insertion paths of \<open>Set\<close>: what happens to the store and to one bucket
  array, and whether an entry was added.
\<close>

definition put_chain ::
  "string \<Rightarrow> 'v \<Rightarrow> int \<Rightarrow> 'v entry list \<Rightarrow> nat option list
     \<Rightarrow> (bool \<times> 'v entry list \<times> nat option list) go" where
  "put_chain key val sz es tbl =
     gobind (Hash key sz) (\<lambda>index.
     gobind (slice_get tbl index) (\<lambda>p.
       let entry = \<lparr>ent_Key = key, ent_Value = val, ent_Next = None\<rparr> in
       case p of
         None \<Rightarrow> gobind (slice_set tbl index (Some (length es))) (\<lambda>tbl'. Ret (True, es @ [entry], tbl'))
       | Some a \<Rightarrow>
           gobind (chain_locate es key a) (\<lambda>r.
             case r of
               Inl c \<Rightarrow> Ret (False, es[c := (es ! c)\<lparr>ent_Value := val\<rparr>], tbl)
             | Inr c \<Rightarrow> Ret (True, link_last es c entry, tbl))))"

lemma gobind_assoc: "gobind (gobind m f) g = gobind m (\<lambda>x. gobind (f x) g)"
  by (cases m) (auto simp: gobind_def split: sum.splits)

lemma set_main_put:
  "set_main V key val h m =
     gobind (put_chain key val (ht_Size h) (ht_Entries h) (ht_Table h)) (\<lambda>(new, es, tbl).
       Ret (h\<lparr>ht_Entries := es, ht_Table := tbl, ht_Count := ht_Count h + (if new then 1 else 0)\<rparr>,
            ht_IncreaseUsedMemory V key val m))"
  unfolding set_main_def put_chain_def gobind_assoc
  by (intro arg_cong2 [where f = gobind] refl ext)
    (auto simp: Let_def gobind_assoc intro!: gobind_cong split: option.splits sum.splits)

lemma set_rehashing_put:
  "set_rehashing V key val h m =
     gobind (put_chain key val (ht_RehashingSize h) (ht_Entries h) (ht_RehashingTbl h)) (\<lambda>(new, es, tbl).
       Ret (h\<lparr>ht_Entries := es, ht_RehashingTbl := tbl, ht_Count := ht_Count h + (if new then 1 else 0)\<rparr>,
            if new then ht_IncreaseUsedMemory V key val m else m))"
  unfolding set_rehashing_def put_chain_def gobind_assoc
  by (intro arg_cong2 [where f = gobind] refl ext)
    (auto simp: Let_def gobind_assoc intro!: gobind_cong split: option.splits sum.splits)

text \<open>What an insertion does to the array (\<open>A\<close>) it works on; other chains are untouched.\<close>

definition put_result ::
  "string \<Rightarrow> 'v \<Rightarrow> 'v entry list \<Rightarrow> nat list list \<Rightarrow> bool \<Rightarrow> 'v entry list \<Rightarrow> nat option list
     \<Rightarrow> nat list list \<Rightarrow> bool" where
  "put_result key val es A new es' tbl' A' \<longleftrightarrow>
     rep_table es' tbl' A' \<and>
     (if new then kv es' = kv es @ [(key, val)] \<and> (\<forall>a \<in> set (concat A). key_of es a \<noteq> key) \<and>
                  mset (concat A') = add_mset (length es) (mset (concat A))
      else A' = A \<and> (\<exists>c \<in> set (concat A). key_of es c = key \<and> kv es' = (kv es)[c := (key, val)]))"

lemma put_chain_result:
  assumes rep: "rep_table es tbl A" and dist: "distinct (concat A)"
  shows "\<exists>new es' tbl' A'. put_chain key val (int (length tbl)) es tbl = Ret (new, es', tbl') \<and>
    put_result key val es A new es' tbl' A' \<and> length tbl' = length tbl \<and>
    (\<forall>q cs. chain es q cs \<longrightarrow> set cs \<inter> set (concat A) = {} \<longrightarrow> chain es' q cs)"
proof -
  let ?j = "hidx key (length tbl)"
  let ?e = "\<lparr>ent_Key = key, ent_Value = val, ent_Next = None\<rparr>"
  let ?A = "A[?j := A ! ?j @ [length es]]"
  have n: "0 < length tbl" using rep by (rule rep_table_pos)
  then have j: "?j < length tbl" by simp
  have len: "length A = length tbl" using rep by (rule rep_table_length)
  have ch: "chain es (tbl ! ?j) (A ! ?j)" using rep_table_chain [OF rep j] .
  have sub: "set (A ! ?j) \<subseteq> set (concat A)" using set_concat_nth [of ?j A] j len by auto
  have ms: "mset (concat ?A) = add_mset (length es) (mset (concat A))"
    using mset_concat_snoc [of ?j A] j len by simp
  have loc: "located es (set (concat A)) key (find (\<lambda>a. key_of es a = key) (A ! ?j))"
    using bucket_located [OF rep] .
  note unfolded = put_chain_def Hash_nat [OF n] slice_get_nat [OF j] slice_set_nat [OF j] Let_def
  show ?thesis
  proof (cases "tbl ! ?j")
    case None
    with ch have "A ! ?j = []" by simp
    with loc have "put_result key val es A True (es @ [?e]) (tbl[?j := Some (length es)]) ?A"
      using ms rep_table_grow [OF rep dist _ refl, of "es @ [?e]" key val "Some (length es)"]
      by (auto simp: put_result_def located_def chain_alloc kv_def)
    with None show ?thesis by (auto simp: unfolded chain_alloc)
  next
    case (Some a)
    with ch obtain as where as: "A ! ?j = a # as" by (auto simp: chain_Some)
    have loop: "chain_locate es key a =
        Ret (case find (\<lambda>a. key_of es a = key) (A ! ?j) of Some c \<Rightarrow> Inl c | None \<Rightarrow> Inr (last (A ! ?j)))"
      unfolding as by (rule chain_locate_chain) (use ch Some as in simp)
    show ?thesis
    proof (cases "find (\<lambda>a. key_of es a = key) (A ! ?j)")
      case none: None
      let ?es = "link_last es (last (A ! ?j)) ?e"
      have lastin: "last (A ! ?j) \<in> set (A ! ?j)" using as by simp
      have "distinct (A ! ?j)" using dist j len by (metis distinct_concat_iff nth_mem)
      then have "chain ?es (tbl ! ?j) (A ! ?j @ [length es])"
        using ch as by (intro chain_link_last) auto
      then have "rep_table ?es (tbl[?j := tbl ! ?j]) ?A"
        using lastin by (intro rep_table_grow [OF rep dist _ refl]) (auto intro!: chain_link_last_other)
      with none loc ms have "put_result key val es A True ?es tbl ?A"
        by (auto simp: put_result_def located_def)
      moreover have "chain ?es q cs" if "chain es q cs" "set cs \<inter> set (concat A) = {}" for q cs
        using that lastin sub by (intro chain_link_last_other) auto
      ultimately show ?thesis using Some none by (auto simp: unfolded loop)
    next
      case (Some c)
      with loc have c: "c \<in> set (concat A)" "key_of es c = key" by (simp_all add: located_def)
      let ?es = "es[c := (es ! c)\<lparr>ent_Value := val\<rparr>]"
      have keys: "key_of ?es b = key_of es b" for b by (cases "b = c"; cases "c < length es") (simp_all add: list_update_beyond)
      have "rep_table ?es tbl A" by (rule rep_table_frame [OF rep]) (simp_all add: keys)
      with c have "put_result key val es A False ?es tbl A"
        using kv_set_value [of c es val] rep_table_bound [OF rep c(1)] by (auto simp: put_result_def)
      with Some \<open>tbl ! ?j = Some a\<close> show ?thesis by (auto simp: unfolded loop)
    qed
  qed
qed

section \<open>Set\<close>

lemma inj_on_grow:
  assumes inj: "inj_on (key_of es) S" and bound: "\<And>a. a \<in> S \<Longrightarrow> a < length es"
    and kv: "kv es' = kv es @ [(key, v)]" and fresh: "\<And>a. a \<in> S \<Longrightarrow> key_of es a \<noteq> key"
  shows "inj_on (key_of es') (insert (length es) S)"
proof -
  have "inj_on (key_of es') S"
    using inj bound key_of_old [OF kv] by (auto simp: inj_on_def)
  moreover have "key_of es' (length es) \<notin> key_of es' ` (S - {length es})"
    using key_of_new [OF kv] key_of_old [OF kv] bound fresh by force
  ultimately show ?thesis by simp
qed

lemma stores_fresh:
  assumes "stores es S M" and "M key = None" and "a \<in> S" and "a < length es"
  shows "key_of es a \<noteq> key"
  using assms by (metis kv_nth option.distinct(1) stores_def)

lemma keys_update:
  assumes kv: "kv es' = (kv es)[c := (key, v)]" and c: "key_of es c = key" and a: "a < length es"
  shows "key_of es' a = key_of es a"
proof -
  have len: "length es' = length es" using kv by (metis length_kv length_list_update)
  show ?thesis
    using kv_nth [of a es'] kv_nth [of a es] kv c a len by (cases "a = c") auto
qed

text \<open>
  A put into the array in use: either the main table outside a rehash, or the new table while a
  rehash is in progress. \<open>C\<close> are the chains of the other array.
\<close>

lemma put_result_stores:
  assumes st: "stores es (set (concat C) \<union> set (concat A)) M"
    and bound: "\<And>a. a \<in> set (concat C) \<union> set (concat A) \<Longrightarrow> a < length es"
    and inj: "inj_on (key_of es) (set (concat C) \<union> set (concat A))"
    and dist: "distinct (concat C @ concat A)"
    and put: "put_result key val es A new es' tbl' A'"
    and free: "\<forall>a \<in> set (concat C). key_of es a \<noteq> key"
  shows "stores es' (set (concat C) \<union> set (concat A')) (M(key \<mapsto> val)) \<and>
    inj_on (key_of es') (set (concat C) \<union> set (concat A')) \<and> distinct (concat C @ concat A') \<and>
    length (concat A') = length (concat A) + (if new then 1 else 0)"
proof (cases new)
  case True
  with put have kv: "kv es' = kv es @ [(key, val)]" and no: "\<forall>a \<in> set (concat A). key_of es a \<noteq> key"
    and ms: "mset (concat A') = add_mset (length es) (mset (concat A))" by (auto simp: put_result_def)
  have fresh: "key_of es a \<noteq> key" if "a \<in> set (concat C) \<union> set (concat A)" for a
    using that no free by auto
  have "M key \<noteq> Some w" for w
    using st fresh bound by (auto simp: stores_def kv_nth)
  then have none: "M key = None" by (cases "M key") auto
  have set: "set (concat C) \<union> set (concat A') = insert (length es) (set (concat C) \<union> set (concat A))"
    using arg_cong [OF ms, of set_mset] by simp
  have "length es \<notin> set (concat C) \<union> set (concat A)" using bound by blast
  moreover have "mset (concat C @ concat A') = mset (length es # concat C @ concat A)" using ms by simp
  ultimately have "distinct (concat C @ concat A')"
    using dist by (metis Un_iff distinct.simps(2) mset_eq_imp_distinct_iff set_append)
  moreover have "length (concat A') = Suc (length (concat A))"
    using arg_cong [OF ms, of size] by simp
  ultimately show ?thesis
    unfolding set using stores_insert [OF st kv none bound] inj_on_grow [OF inj bound kv fresh] True by simp
next
  case False
  with put obtain c where A': "A' = A" and c: "c \<in> set (concat A)" "key_of es c = key"
    and kv: "kv es' = (kv es)[c := (key, val)]" by (auto simp: put_result_def)
  have "stores es' (set (concat C) \<union> set (concat A)) (M(key \<mapsto> val))"
    by (rule stores_update [OF st _ _ c(2) inj kv bound]) (use c bound in auto)
  moreover have "inj_on (key_of es') (set (concat C) \<union> set (concat A))"
    using inj bound keys_update [OF kv c(2)] by (simp add: inj_on_def)
  ultimately show ?thesis using A' dist False by simp
qed

lemma put_result_keys:
  assumes put: "put_result key val es A new es' tbl' A'" and a: "a < length es"
  shows "key_of es' a = key_of es a"
  using put key_of_old [OF _ a] keys_update [OF _ _ a] by (auto simp: put_result_def split: if_splits)

text \<open>The deferred check only adds an empty new table.\<close>

lemma deferred_check_shape:
  assumes sh: "shape h A B" and idx: "ht_RehashingIdx h < ht_Size h"
  shows "\<exists>B'. shape (deferred_check h) A B' \<and> concat B' = concat B \<and>
    ht_RehashingIdx (deferred_check h) < ht_Size (deferred_check h) \<and>
    ht_Entries (deferred_check h) = ht_Entries h \<and> ht_Count (deferred_check h) = ht_Count h"
proof (cases "load_exceeded h \<and> ht_RehashingIdx h < 0")
  case True
  let ?n = "nat (ht_Size h * 2)"
  let ?B = "replicate ?n ([] :: nat list)"
  from sh True have sz: "ht_Size h = int (length (ht_Table h))" and B: "B = []"
    and repA: "rep_table (ht_Entries h) (ht_Table h) A" by (auto simp: shape_def)
  have pos: "0 < ?n" using sz rep_table_pos [OF repA] by simp
  have "rep_table (ht_Entries h) (replicate ?n None) ?B"
    using pos by (simp add: rep_table_def list_all2_conv_all_nth)
  then show ?thesis
    using sh True B sz pos
    by (intro exI [of _ ?B]) (simp add: shape_def deferred_check_def startRehashing_def)
next
  case False
  then have "deferred_check h = h" by (auto simp: deferred_check_def startRehashing_def)
  with sh idx show ?thesis by auto
qed

lemma deferred_check_represents:
  assumes "represents h M d"
  shows "represents (deferred_check h) M d"
proof -
  from assms obtain A B where sh: "shape h A B" and idx: "ht_RehashingIdx h < ht_Size h"
    and st: "stores (ht_Entries h) (set (concat A @ concat B)) M"
    and cnt: "ht_Count h = int (length (concat A @ concat B)) + int d" by (auto simp: represents_def)
  from deferred_check_shape [OF sh idx] obtain B' where
    "shape (deferred_check h) A B'" "concat B' = concat B"
    "ht_RehashingIdx (deferred_check h) < ht_Size (deferred_check h)"
    "ht_Entries (deferred_check h) = ht_Entries h" "ht_Count (deferred_check h) = ht_Count h" by blast
  then show ?thesis
    unfolding represents_def by (intro exI [of _ A] exI [of _ B']) (use st cnt in simp)
qed

lemma rehash_first:
  assumes "represents h M d"
  shows "\<exists>h'. (if ht_RehashingIdx h \<ge> 0 then rehashStep h else Ret h) = Ret h' \<and> represents h' M d \<and>
    kv (ht_Entries h') = kv (ht_Entries h) \<and> (rehash_ends h \<longrightarrow> ht_RehashingIdx h' < 0)"
proof (cases "ht_RehashingIdx h \<ge> 0")
  case True
  from assms obtain A B where sh: "shape h A B"
    and st: "stores (ht_Entries h) (set (concat A @ concat B)) M"
    and cnt: "ht_Count h = int (length (concat A @ concat B)) + int d" by (auto simp: represents_def)
  from rehashStep_shape [OF sh True] obtain h' A' B' where "rehashStep h = Ret h'" and "shape h' A' B'"
    "ht_RehashingIdx h' < ht_Size h'" "kv (ht_Entries h') = kv (ht_Entries h)"
    "set (concat A' @ concat B') = set (concat A @ concat B)"
    "length (concat A' @ concat B') = length (concat A @ concat B)" "ht_Count h' = ht_Count h"
    "rehash_ends h \<longrightarrow> ht_RehashingIdx h' = -1" by blast
  moreover from this have "represents h' M d"
    unfolding represents_def
    by (intro exI [of _ A'] exI [of _ B']) (use st cnt in \<open>auto simp: stores_def\<close>)
  ultimately show ?thesis using True by auto
next
  case False
  with assms show ?thesis by auto
qed

lemma set_main_represents:
  assumes rep: "represents h M d" and idx: "ht_RehashingIdx h < 0"
  shows "\<exists>h'. set_main V key val h m = Ret (h', ht_IncreaseUsedMemory V key val m) \<and>
    represents h' (M(key \<mapsto> val)) d"
proof -
  let ?es = "ht_Entries h"
  from rep obtain A B where sh: "shape h A B" and st: "stores ?es (set (concat A @ concat B)) M"
    and cnt: "ht_Count h = int (length (concat A @ concat B)) + int d" by (auto simp: represents_def)
  from sh idx have B: "B = []" and repA: "rep_table ?es (ht_Table h) A"
    and sz: "ht_Size h = int (length (ht_Table h))" and dist: "distinct (concat A)"
    and inj: "inj_on (key_of ?es) (set (concat A))" and idx1: "ht_RehashingIdx h = -1"
    by (auto simp: shape_def)
  obtain new es' tbl' A' where run: "put_chain key val (ht_Size h) ?es (ht_Table h) = Ret (new, es', tbl')"
    and put: "put_result key val ?es A new es' tbl' A'" and len: "length tbl' = length (ht_Table h)"
    using put_chain_result [OF repA dist, of key val] unfolding sz [symmetric] by blast
  have "stores es' (set (concat A')) (M(key \<mapsto> val)) \<and> inj_on (key_of es') (set (concat A')) \<and>
      distinct (concat A') \<and> length (concat A') = length (concat A) + (if new then 1 else 0)"
    using put_result_stores [OF _ _ _ _ put, of "[]" M] st inj dist B rep_table_bound [OF repA] by simp
  then have "represents (h\<lparr>ht_Entries := es', ht_Table := tbl',
      ht_Count := ht_Count h + (if new then 1 else 0)\<rparr>) (M(key \<mapsto> val)) d"
    unfolding represents_def
    by (intro exI [of _ A'] exI [of _ "[]"])
      (use put B sz len cnt idx1 in \<open>simp add: shape_def put_result_def\<close>)
  with run show ?thesis by (simp add: set_main_put)
qed

lemma set_rehashing_represents:
  assumes rep: "represents h M d" and idx: "0 \<le> ht_RehashingIdx h" and none: "M key = None"
  shows "\<exists>h'. set_rehashing V key val h m = Ret (h', ht_IncreaseUsedMemory V key val m) \<and>
    represents h' (M(key \<mapsto> val)) d"
proof -
  let ?es = "ht_Entries h"
  from rep obtain A B where sh: "shape h A B" and st: "stores ?es (set (concat A @ concat B)) M"
    and lt: "ht_RehashingIdx h < ht_Size h"
    and cnt: "ht_Count h = int (length (concat A @ concat B)) + int d" by (auto simp: represents_def)
  from sh idx have repA: "rep_table ?es (ht_Table h) A" and repB: "rep_table ?es (ht_RehashingTbl h) B"
    and rs: "ht_RehashingSize h = int (length (ht_RehashingTbl h))"
    and sz: "ht_Size h = int (length (ht_Table h))" and dist: "distinct (concat A @ concat B)"
    and inj: "inj_on (key_of ?es) (set (concat A) \<union> set (concat B))"
    by (auto simp: shape_def)
  have bound: "a < length ?es" if "a \<in> set (concat A) \<union> set (concat B)" for a
    using that shape_bound [OF sh] by simp
  have fresh: "key_of ?es a \<noteq> key" if "a \<in> set (concat A) \<union> set (concat B)" for a
    using stores_fresh [OF st none] that bound by simp
  have distB: "distinct (concat B)" using dist by simp
  obtain new es' tbl' B' where
    run: "put_chain key val (ht_RehashingSize h) ?es (ht_RehashingTbl h) = Ret (new, es', tbl')"
    and put: "put_result key val ?es B new es' tbl' B'" and len: "length tbl' = length (ht_RehashingTbl h)"
    and frame: "\<forall>q cs. chain ?es q cs \<longrightarrow> set cs \<inter> set (concat B) = {} \<longrightarrow> chain es' q cs"
    using put_chain_result [OF repB distB, of key val] unfolding rs [symmetric] by blast
  have new: "new" using put fresh by (auto simp: put_result_def split: if_splits)
  have res: "stores es' (set (concat A) \<union> set (concat B')) (M(key \<mapsto> val)) \<and>
      inj_on (key_of es') (set (concat A) \<union> set (concat B')) \<and> distinct (concat A @ concat B') \<and>
      length (concat B') = length (concat B) + (if new then 1 else 0)"
    using put_result_stores [OF _ bound inj dist put] st fresh by simp
  have "rep_table es' (ht_Table h) A"
  proof (rule rep_table_frame [OF repA])
    show "chain es' q cs" if "chain ?es q cs" "set cs \<subseteq> set (concat A)" for q cs
    proof -
      have "set cs \<inter> set (concat B) = {}" using that(2) dist by auto
      with frame that(1) show ?thesis by blast
    qed
    show "key_of es' a = key_of ?es a" if "a \<in> set (concat A)" for a
      using put_result_keys [OF put] bound that by simp
  qed
  then have "represents (h\<lparr>ht_Entries := es', ht_RehashingTbl := tbl', ht_Count := ht_Count h + 1\<rparr>)
      (M(key \<mapsto> val)) d"
    unfolding represents_def
    by (intro exI [of _ A] exI [of _ B'])
      (use put res new sz rs len cnt idx lt sh in \<open>simp add: shape_def put_result_def\<close>)
  with run new show ?thesis by (simp add: set_rehashing_put)
qed

text \<open>
  \<open>Set\<close> updates the map. In the middle of a rehash this is shown for a key that is not in the
  table; a key that is still in the old array would be stored a second time in the new one.
\<close>

lemma ht_Set_represents:
  assumes rep: "represents h M d" and ok: "M key = None \<or> rehash_ends h"
  shows "\<exists>h'. ht_Set V key val h m = Ret (h', ht_IncreaseUsedMemory V key val m) \<and>
    represents h' (M(key \<mapsto> val)) d"
proof -
  obtain h1 where first: "(if ht_RehashingIdx h \<ge> 0 then rehashStep h else Ret h) = Ret h1"
    and rep1: "represents h1 M d" and ends: "rehash_ends h \<longrightarrow> ht_RehashingIdx h1 < 0"
    using rehash_first [OF rep] by blast
  have "\<exists>h2. (if ht_RehashingIdx h1 \<ge> 0 then set_rehashing V key val h1 m else set_main V key val h1 m) =
      Ret (h2, ht_IncreaseUsedMemory V key val m) \<and> represents h2 (M(key \<mapsto> val)) d"
    using set_main_represents [OF rep1] set_rehashing_represents [OF rep1] ok ends by auto
  with first deferred_check_represents show ?thesis by (auto simp: ht_Set_def)
qed

lemma NewHashTable_represents:
  assumes "0 < n"
  shows "\<exists>h. NewHashTable n = Ret h \<and> represents h Map.empty 0 \<and> ht_RehashingIdx h = -1"
proof -
  let ?A = "replicate (nat n) ([] :: nat list)"
  have "rep_table [] (replicate (nat n) None) ?A"
    using assms by (simp add: rep_table_def list_all2_conv_all_nth)
  with assms show ?thesis
    by (simp add: NewHashTable_def represents_def)
      (intro exI [of _ ?A] exI [of _ "[]"], simp add: shape_def stores_def)
qed

end
