(* ===== verification/Dict_Delete.thy ===== *)
theory Dict_Delete
  imports Dict_Refine
begin

text \<open>
  \<open>Delete\<close> removes a key from the map in every state of the table, in the middle of a rehash too,
  releases exactly the memory its entry was charged with, and leaves \<open>Count\<close> as it was.
\<close>

section \<open>Deletion from one bucket array\<close>

text \<open>
  \<open>unlinked es tbl A key r tbl' es' A'\<close>: the entry \<open>r\<close> that held the key is no longer linked.
\<close>

definition unlinked ::
  "'v entry list \<Rightarrow> nat option list \<Rightarrow> nat list list \<Rightarrow> nat option
     \<Rightarrow> 'v entry list \<Rightarrow> nat option list \<Rightarrow> nat list list \<Rightarrow> bool" where
  "unlinked es tbl A r es' tbl' A' \<longleftrightarrow>
     rep_table es' tbl' A' \<and> kv es' = kv es \<and> length tbl' = length tbl \<and>
     mset (concat A) = mset (concat A') + (case r of None \<Rightarrow> {#} | Some c \<Rightarrow> {#c#}) \<and>
     (\<forall>i < length A. A ! i = [] \<longrightarrow> A' ! i = []) \<and>
     (\<forall>q cs. chain es q cs \<longrightarrow> set cs \<inter> set (concat A) = {} \<longrightarrow> chain es' q cs)"

lemma unlinked_refl: "rep_table es tbl A \<Longrightarrow> unlinked es tbl A None es tbl A"
  by (simp add: unlinked_def)

lemma unlinked_bucket:
  assumes rep: "rep_table es tbl A" and dist: "distinct (concat A)" and j: "j < length tbl"
    and split: "A ! j = xs @ c # ys" and kv: "kv es' = kv es"
    and frame: "\<And>q cs. chain es q cs \<Longrightarrow> set cs \<inter> set (A ! j) = {} \<Longrightarrow> chain es' q cs"
    and new: "chain es' p (xs @ ys)"
  shows "unlinked es tbl A (Some c) es' (tbl[j := p]) (A[j := xs @ ys])"
proof -
  have jA: "j < length A" using j rep_table_length [OF rep] by simp
  have keys: "key_of es' a = key_of es a" if "a \<in> set (concat A)" for a
    using key_of_kv [OF kv] kv_length [OF kv] rep_table_bound [OF rep that] by simp
  have sub: "set (A ! j) \<subseteq> set (concat A)" using set_concat_nth [OF jA] by auto
  have "rep_table es' (tbl[j := p]) (A[j := xs @ ys])"
  proof (rule rep_table_update [OF rep j _ keys dist new])
    show "chain es' q cs" if "chain es q cs" "set cs \<inter> set (A ! j) = {}" for q cs
      using that by (rule frame)
    show "hidx (key_of es' a) (length tbl) = j" if "a \<in> set (xs @ ys)" for a
    proof -
      have a: "a \<in> set (A ! j)" using that split by auto
      then have "key_of es' a = key_of es a" using keys sub by auto
      with rep jA a show ?thesis by (simp add: rep_table_def)
    qed
  qed
  moreover have "\<forall>i < length A. A ! i = [] \<longrightarrow> A[j := xs @ ys] ! i = []"
    using split by (metis Nil_is_append_conv list.distinct(1) nth_list_update_neq)
  ultimately show ?thesis
    using mset_concat_remove [OF jA split] kv frame sub
    by (auto simp: unlinked_def) (metis (no_types, lifting) disjoint_iff subsetD)
qed

lemma deleteFromTable_result:
  assumes rep: "rep_table es tbl A" and dist: "distinct (concat A)"
  shows "\<exists>r es' tbl' A'.
    deleteFromTable V key es tbl m = Ret (r \<noteq> None, es', tbl',
      case r of None \<Rightarrow> m | Some c \<Rightarrow> ht_DecreaseUsedMemory V key (ent_Value (es ! c)) m) \<and>
    located es (set (concat A)) key r \<and> unlinked es tbl A r es' tbl' A'"
proof -
  let ?j = "hidx key (length tbl)"
  let ?P = "\<lambda>a. key_of es a = key"
  have n: "0 < length tbl" using rep by (rule rep_table_pos)
  then have j: "?j < length tbl" by simp
  have ch: "chain es (tbl ! ?j) (A ! ?j)" using rep_table_chain [OF rep j] .
  have loc: "located es (set (concat A)) key (find ?P (A ! ?j))" using bucket_located [OF rep] .
  have dj: "distinct (A ! ?j)"
    using dist j rep_table_length [OF rep] by (metis distinct_concat_iff nth_mem)
  note unfolded = deleteFromTable_def Hash_nat [OF n] slice_get_nat [OF j] slice_set_nat [OF j]
  show ?thesis
  proof (cases "find ?P (A ! ?j)")
    case none: None
    then have no: "\<forall>a \<in> set (A ! ?j). key_of es a \<noteq> key" by (auto simp: find_None_iff)
    have "deleteFromTable V key es tbl m = Ret (False, es, tbl, m)"
    proof (cases "A ! ?j")
      case Nil
      with ch show ?thesis by (simp add: unfolded)
    next
      case (Cons a as)
      with ch no chain_prev_none [of es a as key] show ?thesis by (simp add: unfolded)
    qed
    with loc none unlinked_refl [OF rep] show ?thesis
      by - (rule exI [of _ None], auto)
  next
    case (Some c)
    then obtain xs ys where split: "A ! ?j = xs @ c # ys" and c: "key_of es c = key"
      and before: "\<forall>x \<in> set xs. key_of es x \<noteq> key"
      using find_split [OF Some] by blast
    show ?thesis
    proof (cases xs)
      case Nil
      with ch split c have run: "deleteFromTable V key es tbl m =
          Ret (True, es, tbl[?j := ent_Next (es ! c)], ht_DecreaseUsedMemory V key (ent_Value (es ! c)) m)"
        by (simp add: unfolded)
      have "unlinked es tbl A (Some c) es (tbl[?j := ent_Next (es ! c)]) (A[?j := xs @ ys])"
        by (rule unlinked_bucket [OF rep dist j split]) (use ch split Nil in auto)
      with run loc Some show ?thesis by - (rule exI [of _ "Some c"], auto)
    next
      case (Cons a as)
      let ?b = "last (a # as)"
      let ?es = "es[?b := (es ! ?b)\<lparr>ent_Next := ent_Next (es ! c)\<rparr>]"
      from ch split Cons have cha: "chain es (Some a) (a # as @ c # ys)" and hd: "tbl ! ?j = Some a" by auto
      have "chain_prev es key a = Ret (Some (?b, c))"
        by (rule chain_prev_some [OF cha]) (use before c Cons in auto)
      with hd before Cons have run: "deleteFromTable V key es tbl m =
          Ret (True, ?es, tbl, ht_DecreaseUsedMemory V key (ent_Value (es ! c)) m)"
        by (simp add: unfolded)
      have bl: "A ! ?j = butlast (a # as) @ ?b # c # ys" using split Cons append_butlast_last_id [of "a # as"]
        by (metis append_Cons append_Nil append_assoc list.distinct(1))
      have xs: "xs = butlast (a # as) @ [?b]" using Cons append_butlast_last_id [of "a # as"] by simp
      have "unlinked es tbl A (Some c) ?es (tbl[?j := tbl ! ?j]) (A[?j := xs @ ys])"
      proof (rule unlinked_bucket [OF rep dist j split])
        show "chain ?es (tbl ! ?j) (xs @ ys)"
          using chain_unlink [of es "tbl ! ?j" "butlast (a # as)" ?b c ys] ch dj
          unfolding bl [symmetric] xs by simp
        show "chain ?es q cs" if "chain es q cs" "set cs \<inter> set (A ! ?j) = {}" for q cs
          using that bl by (subst chain_update_other) auto
      qed simp
      with run loc Some show ?thesis by - (rule exI [of _ "Some c"], auto)
    qed
  qed
qed

section \<open>Delete\<close>

lemma stores_remove:
  assumes st: "stores es S M" and c: "c \<in> S" "key_of es c = key" and inj: "inj_on (key_of es) S"
    and bound: "\<And>a. a \<in> S \<Longrightarrow> a < length es"
  shows "stores es (S - {c}) (M(key := None))"
  unfolding stores_def
proof (intro allI)
  fix k v
  have only: "a = c \<longleftrightarrow> fst (kv es ! a) = key" if "a \<in> S" for a
    using that c inj bound by (auto simp: kv_nth inj_on_def)
  show "(M(key := None)) k = Some v \<longleftrightarrow> (\<exists>a \<in> S - {c}. kv es ! a = (k, v))"
  proof (cases "k = key")
    case True
    with only show ?thesis by force
  next
    case False
    have "(\<exists>a \<in> S. kv es ! a = (k, v)) \<longleftrightarrow> (\<exists>a \<in> S - {c}. kv es ! a = (k, v))"
      using False only c(1) by force
    with False st show ?thesis by (simp add: stores_def)
  qed
qed

text \<open>The effect on the union of the addresses of both arrays, of which one loses an entry.\<close>

definition drops :: "nat multiset \<Rightarrow> nat option \<Rightarrow> nat multiset \<Rightarrow> bool" where
  "drops X r Y \<longleftrightarrow> X = Y + (case r of None \<Rightarrow> {#} | Some c \<Rightarrow> {#c#})"

lemma drops_stores:
  assumes st: "stores es (set xs) M" and loc: "located es (set xs) key r"
    and inj: "inj_on (key_of es) (set xs)" and bound: "\<And>a. a \<in> set xs \<Longrightarrow> a < length es"
    and dist: "distinct xs" and drop: "drops (mset xs) r (mset ys)" and kv: "kv es' = kv es"
  shows "stores es' (set ys) (M(key := None)) \<and> inj_on (key_of es') (set ys) \<and> distinct ys \<and>
    length xs = length ys + (if M key = None then 0 else 1) \<and>
    map_option (\<lambda>c. ent_Value (es ! c)) r = M key \<and> (r = None \<longleftrightarrow> M key = None)"
proof -
  have val: "map_option (\<lambda>c. ent_Value (es ! c)) r = M key"
    using located_stores [OF st loc inj bound] .
  then have none: "r = None \<longleftrightarrow> M key = None" by (metis option.map_disc_iff)
  have sub: "set ys \<subseteq> set xs" and len: "length xs = length ys + (if r = None then 0 else 1)"
    using arg_cong [OF drop [unfolded drops_def], of set_mset] arg_cong [OF drop [unfolded drops_def], of size]
    by (auto split: option.splits)
  have inj': "inj_on (key_of es') (set ys)"
    using kv_inj_on [OF kv [symmetric] inj_on_subset [OF inj sub]] bound sub by blast
  show ?thesis
  proof (cases r)
    case None
    with drop have ms: "mset ys = mset xs" by (simp add: drops_def)
    then have "set ys = set xs" "distinct ys" using dist by (metis mset_eq_setD, metis mset_eq_imp_distinct_iff)
    moreover have "M(key := None) = M" using none None by auto
    ultimately show ?thesis using stores_cong [OF kv [symmetric] _ st] inj' len val none None by auto
  next
    case (Some c)
    with drop have ms: "mset xs = mset (c # ys)" by (simp add: drops_def)
    then have d: "distinct (c # ys)" using dist by (metis mset_eq_imp_distinct_iff)
    have "set xs = set (c # ys)" using ms by (metis mset_eq_setD)
    with d have ys: "set ys = set xs - {c}" by auto
    have "stores es (set ys) (M(key := None))"
      unfolding ys by (rule stores_remove [OF st _ _ inj bound]) (use loc Some in \<open>auto simp: located_def\<close>)
    then show ?thesis using stores_cong [OF kv [symmetric] refl] inj' d len val none Some by auto
  qed
qed

definition release :: "'v vtype \<Rightarrow> string \<Rightarrow> 'v option \<Rightarrow> int64 \<Rightarrow> int64" where
  "release V key v m = (case v of None \<Rightarrow> m | Some x \<Rightarrow> ht_DecreaseUsedMemory V key x m)"

lemma ht_Delete_main:
  assumes rep: "represents h M d" and idx: "ht_RehashingIdx h < 0"
  shows "\<exists>h'. ht_Delete V key h m = Ret (M key \<noteq> None, h', release V key (M key) m) \<and>
    represents h' (M(key := None)) (d + (if M key = None then 0 else 1)) \<and>
    ht_RehashingIdx h' = ht_RehashingIdx h \<and> ht_Size h' = ht_Size h"
proof -
  let ?es = "ht_Entries h"
  from rep obtain A B where sh: "shape h A B" and st: "stores ?es (set (concat A @ concat B)) M"
    and cnt: "ht_Count h = int (length (concat A @ concat B)) + int d" by (auto simp: represents_def)
  from sh idx have B: "B = []" and repA: "rep_table ?es (ht_Table h) A"
    and sz: "ht_Size h = int (length (ht_Table h))" and dist: "distinct (concat A)"
    and inj: "inj_on (key_of ?es) (set (concat A))" and idx1: "ht_RehashingIdx h = -1"
    by (auto simp: shape_def)
  from deleteFromTable_result [OF repA dist, of V key m] obtain r es' tbl' A' where
    run: "deleteFromTable V key ?es (ht_Table h) m = Ret (r \<noteq> None, es', tbl',
      case r of None \<Rightarrow> m | Some c \<Rightarrow> ht_DecreaseUsedMemory V key (ent_Value (?es ! c)) m)"
    and loc: "located ?es (set (concat A)) key r"
    and un: "unlinked ?es (ht_Table h) A r es' tbl' A'" by blast
  have res: "stores es' (set (concat A')) (M(key := None)) \<and> inj_on (key_of es') (set (concat A')) \<and>
      distinct (concat A') \<and> length (concat A) = length (concat A') + (if M key = None then 0 else 1) \<and>
      map_option (\<lambda>c. ent_Value (?es ! c)) r = M key \<and> (r = None \<longleftrightarrow> M key = None)"
    by (rule drops_stores [OF _ loc inj rep_table_bound [OF repA] dist])
      (use st un B in \<open>auto simp: drops_def unlinked_def\<close>)
  let ?h = "h\<lparr>ht_Entries := es', ht_Table := tbl'\<rparr>"
  have "shape ?h A' []" using un res sz idx1 by (simp add: shape_def unlinked_def)
  then have "represents ?h (M(key := None)) (d + (if M key = None then 0 else 1))"
    unfolding represents_def
    by (intro exI [of _ A'] exI [of _ "[]"])
      (use res cnt B idx sz idx1 rep_table_pos [OF repA] in simp)
  moreover have "ht_Delete V key h m = Ret (M key \<noteq> None, ?h, release V key (M key) m)"
    using run idx res by (auto simp: ht_Delete_def release_def split: option.splits)
  ultimately show ?thesis by auto
qed

lemma located_both:
  assumes locA: "located es SA key ra" and locB: "located es SB key rb" and inj: "inj_on (key_of es) (SA \<union> SB)"
    and disj: "SA \<inter> SB = {}"
  shows "ra = None \<or> rb = None" and "located es (SA \<union> SB) key (if ra = None then rb else ra)"
proof -
  show none: "ra = None \<or> rb = None"
  proof (rule ccontr)
    assume "\<not> (ra = None \<or> rb = None)"
    then obtain a b where "ra = Some a" "rb = Some b" by auto
    with locA locB have "a \<in> SA" "b \<in> SB" "key_of es a = key_of es b" by (auto simp: located_def)
    with inj disj show False by (auto dest: inj_onD)
  qed
  show "located es (SA \<union> SB) key (if ra = None then rb else ra)"
    using none locA locB by (auto simp: located_def split: option.splits)
qed

lemma unlinked_frame:
  assumes un: "unlinked es ta A r es' ta' A'" and rep: "rep_table es tb B"
    and disj: "set (concat A) \<inter> set (concat B) = {}"
  shows "rep_table es' tb B"
proof (rule rep_table_frame [OF rep])
  show "chain es' q cs" if "chain es q cs" "set cs \<subseteq> set (concat B)" for q cs
  proof -
    have "set cs \<inter> set (concat A) = {}" using that(2) disj by blast
    with un that(1) show ?thesis unfolding unlinked_def by blast
  qed
  show "key_of es' a = key_of es a" if "a \<in> set (concat B)" for a
    using key_of_kv [of es' es a] un kv_length [of es' es] rep_table_bound [OF rep that]
    by (simp add: unlinked_def)
qed

text \<open>The two deletions in a row of a table in the middle of a rehash.\<close>

lemma deleteFromTable_both:
  assumes repA: "rep_table es ta A" and repB: "rep_table es tb B" and dist: "distinct (concat A @ concat B)"
    and inj: "inj_on (key_of es) (set (concat A @ concat B))"
  shows "\<exists>ra rb r es1 ta' m1 es2 tb' A' B'.
    deleteFromTable V key es ta m = Ret (ra, es1, ta', m1) \<and>
    deleteFromTable V key es1 tb m1 = Ret (rb, es2, tb',
      case r of None \<Rightarrow> m | Some c \<Rightarrow> ht_DecreaseUsedMemory V key (ent_Value (es ! c)) m) \<and>
    (ra \<or> rb \<longleftrightarrow> r \<noteq> None) \<and> located es (set (concat A @ concat B)) key r \<and> kv es2 = kv es \<and>
    drops (mset (concat A @ concat B)) r (mset (concat A' @ concat B')) \<and>
    rep_table es2 ta' A' \<and> rep_table es2 tb' B' \<and> length ta' = length ta \<and> length tb' = length tb \<and>
    (\<forall>i < length A. A ! i = [] \<longrightarrow> A' ! i = [])"
proof -
  have distA: "distinct (concat A)" and distB: "distinct (concat B)"
    and disj: "set (concat A) \<inter> set (concat B) = {}" using dist by auto
  from deleteFromTable_result [OF repA distA, of V key m] obtain ra es1 ta' A' where
    runA: "deleteFromTable V key es ta m = Ret (ra \<noteq> None, es1, ta',
      case ra of None \<Rightarrow> m | Some c \<Rightarrow> ht_DecreaseUsedMemory V key (ent_Value (es ! c)) m)"
    (is "_ = Ret (_, _, _, ?m1)")
    and locA: "located es (set (concat A)) key ra"
    and unA: "unlinked es ta A ra es1 ta' A'" by blast
  have kv1: "kv es1 = kv es" using unA by (simp add: unlinked_def)
  have same: "key_of es1 c = key_of es c \<and> ent_Value (es1 ! c) = ent_Value (es ! c)"
    if "c < length es" for c
    using kv_nth [of c es1] kv_nth [of c es] that kv1 kv_length [OF kv1] by simp
  from deleteFromTable_result [OF unlinked_frame [OF unA repB disj] distB, of V key ?m1]
  obtain rb es2 tb' B' where
    runB: "deleteFromTable V key es1 tb ?m1 = Ret (rb \<noteq> None, es2, tb',
      case rb of None \<Rightarrow> ?m1 | Some c \<Rightarrow> ht_DecreaseUsedMemory V key (ent_Value (es1 ! c)) ?m1)"
    and locB1: "located es1 (set (concat B)) key rb"
    and unB: "unlinked es1 tb B rb es2 tb' B'" by blast
  have locB: "located es (set (concat B)) key rb"
    and val: "rb = Some c \<Longrightarrow> ent_Value (es1 ! c) = ent_Value (es ! c)" for c
    using locB1 same rep_table_bound [OF repB] by (auto simp: located_def split: option.splits)
  have one: "ra = None \<or> rb = None"
    and loc: "located es (set (concat A @ concat B)) key (if ra = None then rb else ra)"
    using located_both [OF locA locB _ disj] inj by simp_all
  have "set (concat A') \<subseteq> set (concat A)"
    using unA by (auto simp: unlinked_def dest: arg_cong [of _ _ set_mset])
  then have "rep_table es2 ta' A'"
    using unlinked_frame [OF unB, of ta' A'] unA disj unfolding unlinked_def by blast
  moreover have "drops (mset (concat A @ concat B)) (if ra = None then rb else ra) (mset (concat A' @ concat B'))"
    using unA unB one by (auto simp: drops_def unlinked_def split: option.splits)
  moreover have "deleteFromTable V key es1 tb ?m1 = Ret (rb \<noteq> None, es2, tb',
      case (if ra = None then rb else ra) of None \<Rightarrow> m
      | Some c \<Rightarrow> ht_DecreaseUsedMemory V key (ent_Value (es ! c)) m)"
    using runB one val by (auto split: option.splits)
  ultimately show ?thesis
    using runA loc unA unB one
    by (intro exI conjI) (assumption | auto simp: unlinked_def)+
qed

lemma ht_Delete_rehashing:
  assumes rep: "represents h M d" and idx: "0 \<le> ht_RehashingIdx h"
  shows "\<exists>h'. ht_Delete V key h m = Ret (M key \<noteq> None, h', release V key (M key) m) \<and>
    represents h' (M(key := None)) (d + (if M key = None then 0 else 1)) \<and>
    ht_RehashingIdx h' = ht_RehashingIdx h \<and> ht_Size h' = ht_Size h"
proof -
  let ?es = "ht_Entries h"
  from rep obtain A B where sh: "shape h A B" and st: "stores ?es (set (concat A @ concat B)) M"
    and lt: "ht_RehashingIdx h < ht_Size h"
    and cnt: "ht_Count h = int (length (concat A @ concat B)) + int d" by (auto simp: represents_def)
  from sh idx have repA: "rep_table ?es (ht_Table h) A" and repB: "rep_table ?es (ht_RehashingTbl h) B"
    and rs: "ht_RehashingSize h = int (length (ht_RehashingTbl h))"
    and sz: "ht_Size h = int (length (ht_Table h))" and dist: "distinct (concat A @ concat B)"
    and inj: "inj_on (key_of ?es) (set (concat A @ concat B))"
    and empty: "\<forall>i < nat (ht_RehashingIdx h). A ! i = []"
    by (auto simp: shape_def)
  from deleteFromTable_both [OF repA repB dist inj, of V key m] obtain ra rb r es1 ta' m1 es2 tb' A' B' where
    runA: "deleteFromTable V key ?es (ht_Table h) m = Ret (ra, es1, ta', m1)"
    and runB: "deleteFromTable V key es1 (ht_RehashingTbl h) m1 = Ret (rb, es2, tb',
      case r of None \<Rightarrow> m | Some c \<Rightarrow> ht_DecreaseUsedMemory V key (ent_Value (?es ! c)) m)"
    and r: "ra \<or> rb \<longleftrightarrow> r \<noteq> None" and loc: "located ?es (set (concat A @ concat B)) key r"
    and kv2: "kv es2 = kv ?es" and drop: "drops (mset (concat A @ concat B)) r (mset (concat A' @ concat B'))"
    and reps: "rep_table es2 ta' A'" "rep_table es2 tb' B'" "length ta' = length (ht_Table h)"
      "length tb' = length (ht_RehashingTbl h)" and nil: "\<forall>i < length A. A ! i = [] \<longrightarrow> A' ! i = []"
    by blast
  note res = drops_stores [OF st loc inj shape_bound [OF sh] dist drop kv2]
  let ?h = "h\<lparr>ht_Entries := es2, ht_Table := ta', ht_RehashingTbl := tb'\<rparr>"
  have "\<forall>i < nat (ht_RehashingIdx h). A' ! i = []"
    using nil empty rep_table_length [OF repA] lt sz by auto
  then have "represents ?h (M(key := None)) (d + (if M key = None then 0 else 1))"
    unfolding represents_def
    by (intro exI [of _ A'] exI [of _ B'])
      (use reps res sz rs idx lt cnt in \<open>simp add: shape_def\<close>)
  moreover have "ht_Delete V key h m = Ret (M key \<noteq> None, ?h, release V key (M key) m)"
    using runA runB idx res r by (auto simp: ht_Delete_def release_def split: option.splits)
  ultimately show ?thesis by auto
qed

lemma ht_Delete_represents:
  assumes "represents h M d"
  shows "\<exists>h'. ht_Delete V key h m = Ret (M key \<noteq> None, h', release V key (M key) m) \<and>
    represents h' (M(key := None)) (d + (if M key = None then 0 else 1)) \<and>
    ht_RehashingIdx h' = ht_RehashingIdx h \<and> ht_Size h' = ht_Size h"
  using ht_Delete_main [OF assms] ht_Delete_rehashing [OF assms] by (cases "ht_RehashingIdx h < 0") auto

end
