(* ===== verification/Dict_Raw.thy ===== *)
theory Dict_Raw
  imports Dict_Delete
begin

text \<open>
  Raw insertion (\<open>AddRaw\<close>, then \<open>SetVal\<close> on the entry it returned) outside a rehash: the key is in
  the table afterwards, but whether it is reported as already there depends on whether its bucket
  was empty, not on whether the key was there.
\<close>

section \<open>Entries\<close>

text \<open>The table stores \<open>M\<close> and \<open>e\<close> is the address of the entry of \<open>key\<close>.\<close>

definition rep_entry :: "'v hashtable \<Rightarrow> (string \<rightharpoonup> 'v) \<Rightarrow> nat \<Rightarrow> string \<Rightarrow> nat \<Rightarrow> bool" where
  "rep_entry h M d key e \<longleftrightarrow>
     (\<exists>A B. shape h A B \<and> ht_RehashingIdx h < ht_Size h \<and>
        stores (ht_Entries h) (set (concat A @ concat B)) M \<and>
        ht_Count h = int (length (concat A @ concat B)) + int d \<and>
        e \<in> set (concat A @ concat B) \<and> key_of (ht_Entries h) e = key)"

lemma rep_entry_represents: "rep_entry h M d key e \<Longrightarrow> represents h M d"
  unfolding rep_entry_def represents_def by blast

lemma rep_entry_value: "rep_entry h M d key e \<Longrightarrow> M key = Some (ent_Value (ht_Entries h ! e))"
proof -
  assume "rep_entry h M d key e"
  then obtain A B where sh: "shape h A B" and st: "stores (ht_Entries h) (set (concat A @ concat B)) M"
    and e: "e \<in> set (concat A @ concat B)" "key_of (ht_Entries h) e = key" by (auto simp: rep_entry_def)
  with shape_bound [OF sh e(1)] have "kv (ht_Entries h) ! e = (key, ent_Value (ht_Entries h ! e))"
    by (simp add: kv_nth)
  with st e(1) show ?thesis by (auto simp: stores_def)
qed

lemma GetVal_rep_entry: "rep_entry h M d key e \<Longrightarrow> Some (GetVal V (Some e) h) = M key"
  by (simp add: GetVal_def rep_entry_value)

lemma GetEntry_rep_entry:
  assumes rep: "represents h M d"
  shows "\<exists>r. GetEntry key h = Ret r \<and>
    (case r of None \<Rightarrow> M key = None | Some e \<Rightarrow> rep_entry h M d key e)"
proof -
  from rep obtain A B where sh: "shape h A B" and idx: "ht_RehashingIdx h < ht_Size h"
    and st: "stores (ht_Entries h) (set (concat A @ concat B)) M"
    and cnt: "ht_Count h = int (length (concat A @ concat B)) + int d" by (auto simp: represents_def)
  obtain r where run: "GetEntry key h = Ret r"
    and loc: "located (ht_Entries h) (set (concat A @ concat B)) key r"
    using GetEntry_located [OF sh] by blast
  have "map_option (\<lambda>a. ent_Value (ht_Entries h ! a)) r = M key"
    using located_stores [OF st loc shape_inj [OF sh] shape_bound [OF sh]] .
  moreover have "rep_entry h M d key e" if "r = Some e" for e
    using sh idx st cnt loc that unfolding rep_entry_def located_def by auto
  ultimately show ?thesis using run by (auto split: option.splits)
qed

lemma rep_table_keys_frame:
  assumes "rep_table es tbl A" and "\<And>q cs. chain es' q cs \<longleftrightarrow> chain es q cs"
    and "\<And>a. key_of es' a = key_of es a"
  shows "rep_table es' tbl A"
  using assms by (intro rep_table_frame [OF assms(1)]) auto

text \<open>\<open>SetVal\<close> on that entry is an update of the map at its key.\<close>

lemma SetVal_rep_entry:
  assumes rep: "rep_entry h M d key e"
  shows "rep_entry (fst (SetVal V (Some e) val h m)) (M(key \<mapsto> val)) d key e"
proof -
  let ?es = "ht_Entries h"
  let ?es' = "?es[e := (?es ! e)\<lparr>ent_Value := val\<rparr>]"
  from rep obtain A B where sh: "shape h A B" and idx: "ht_RehashingIdx h < ht_Size h"
    and st: "stores ?es (set (concat A @ concat B)) M"
    and cnt: "ht_Count h = int (length (concat A @ concat B)) + int d"
    and e: "e \<in> set (concat A @ concat B)" "key_of ?es e = key" by (auto simp: rep_entry_def)
  have be: "e < length ?es" by (rule shape_bound [OF sh e(1)])
  have kv: "kv ?es' = (kv ?es)[e := (key, val)]" using kv_set_value [OF be] e(2) by simp
  have keys: "key_of ?es' a = key_of ?es a" for a by (cases "a = e") (simp_all add: be)
  have reps: "rep_table ?es tbl C \<Longrightarrow> rep_table ?es' tbl C" for tbl C
    by (erule rep_table_keys_frame) (simp_all add: keys)
  have "stores ?es' (set (concat A @ concat B)) (M(key \<mapsto> val))"
    by (rule stores_update [OF st e(1) be e(2) shape_inj [OF sh] kv shape_bound [OF sh]])
  moreover have "shape (h\<lparr>ht_Entries := ?es'\<rparr>) A B"
    using sh reps by (auto simp: shape_def keys inj_on_def)
  ultimately show ?thesis
    unfolding rep_entry_def SetVal_def
    by (intro exI [of _ A] exI [of _ B]) (use idx cnt e keys in simp)
qed

section \<open>Raw insertion into one bucket array\<close>

lemma link_last_append: "a < length es \<Longrightarrow> (es @ [e])[a := (es ! a)\<lparr>ent_Next := Some (length es)\<rparr>] = link_last es a e"
  by (simp add: link_last_def list_update_append)

text \<open>
  Outside a rehash. The entry is found, or a fresh one is linked; a fresh entry that is linked behind
  others is then visited by the loop and reported as found.
\<close>

lemma raw_insert_result:
  assumes rep: "rep_table es tbl A" and dist: "distinct (concat A)" and key: "ent_Key e = key"
    and nx: "ent_Next e = None"
  shows "\<exists>r. located es (set (concat A)) key r \<and>
    (case r of
       Some c \<Rightarrow> raw_insert (length es) key (int (length tbl)) tbl (es @ [e]) cnt m =
         Ret (Some c, tbl, es @ [e], cnt, m)
     | None \<Rightarrow> \<exists>es' tbl' A'.
         raw_insert (length es) key (int (length tbl)) tbl (es @ [e]) cnt m =
           Ret (if A ! hidx key (length tbl) = [] then None else Some (length es), tbl', es', cnt + 1,
                IncreaseUsedMemory (AString key) m) \<and>
         put_result key (ent_Value e) es A True es' tbl' A' \<and> length tbl' = length tbl)"
proof -
  let ?j = "hidx key (length tbl)" and ?n = "length es" and ?es = "es @ [e]"
  let ?A = "A[?j := A ! ?j @ [?n]]"
  let ?f = "find (\<lambda>a. key_of es a = key) (A ! ?j)"
  have n: "0 < length tbl" using rep by (rule rep_table_pos)
  then have j: "?j < length tbl" by simp
  have jA: "?j < length A" using j rep_table_length [OF rep] by simp
  have ch0: "chain es (tbl ! ?j) (A ! ?j)" using rep_table_chain [OF rep j] .
  then have ch: "chain ?es (tbl ! ?j) (A ! ?j)" by (rule chain_alloc)
  have old: "key_of ?es a = key_of es a" if "a \<in> set (A ! ?j)" for a
    using chain_bound [OF ch0 that] by (simp add: nth_append)
  have notin: "?n \<notin> set (A ! ?j)" using chain_bound [OF ch0] by blast
  have loc: "located es (set (concat A)) key ?f" using bucket_located [OF rep] .
  have find: "find (\<lambda>a. key_of ?es a = key) (A ! ?j) = ?f"
    by (rule find_cong) (simp_all add: old)
  note unfolded = raw_insert_def Hash_nat [OF n] slice_get_nat [OF j] slice_set_nat [OF j]
  have bind: "raw_insert ?n key (int (length tbl)) tbl ?es cnt m =
      gobind (raw_scan ?n key ?es cnt m (tbl ! ?j)) (\<lambda>(found, es', cnt', m'). Ret (found, tbl, es', cnt', m'))"
    if "A ! ?j \<noteq> []" using that ch0 by (auto simp: unfolded neq_Nil_conv split: option.split)
  show ?thesis
  proof (cases ?f)
    case (Some c)
    then have "A ! ?j \<noteq> []" by auto
    with bind raw_scan_found [OF ch, of key c ?n cnt m] find Some loc show ?thesis
      by - (rule exI [of _ "Some c"], simp)
  next
    case None
    then have no: "\<forall>a \<in> set (A ! ?j). key_of ?es a \<noteq> key" using old by (auto simp: find_None_iff)
    have ms: "mset (concat ?A) = add_mset ?n (mset (concat A))" using mset_concat_snoc [OF jA] .
    have put: "put_result key (ent_Value e) es A True es' (tbl[?j := p]) ?A"
      if kv: "kv es' = kv es @ [(key, ent_Value e)]" and new: "chain es' p (A ! ?j @ [?n])"
        and frame: "\<And>q cs. chain es q cs \<Longrightarrow> set cs \<inter> set (A ! ?j) = {} \<Longrightarrow> chain es' q cs" for es' p
      using rep_table_grow [OF rep dist kv refl frame new] kv ms loc None
      by (simp add: put_result_def located_def)
    show ?thesis
    proof (cases "A ! ?j = []")
      case True
      then have "raw_insert ?n key (int (length tbl)) tbl ?es cnt m =
          Ret (None, tbl[?j := Some ?n], ?es, cnt + 1, IncreaseUsedMemory (AString key) m)"
        using ch0 by (simp add: unfolded)
      moreover have "put_result key (ent_Value e) es A True ?es (tbl[?j := Some ?n]) ?A"
        by (rule put) (use True key nx chain_alloc in \<open>auto simp: kv_def\<close>)
      ultimately show ?thesis using True loc None by - (rule exI [of _ None], auto)
    next
      case False
      let ?l = "last (A ! ?j)"
      have l: "?l < ?n" using chain_bound [OF ch0] False by simp
      have "raw_scan ?n key ?es cnt m (tbl ! ?j) = Ret (Some ?n, link_last es ?l e, cnt + 1,
          IncreaseUsedMemory (AString key) m)"
        using raw_scan_collide [OF ch False no notin, of cnt m] key link_last_append [OF l, of e] l
        by (simp add: nth_append)
      then have run: "raw_insert ?n key (int (length tbl)) tbl ?es cnt m =
          Ret (Some ?n, tbl, link_last es ?l e, cnt + 1, IncreaseUsedMemory (AString key) m)"
        using bind [OF False] by simp
      have dj: "distinct (A ! ?j)" using dist jA by (metis distinct_concat_iff nth_mem)
      have "put_result key (ent_Value e) es A True (link_last es ?l e) (tbl[?j := tbl ! ?j]) ?A"
      proof (rule put)
        show "chain (link_last es ?l e) (tbl ! ?j) (A ! ?j @ [?n])"
          by (rule chain_link_last [OF ch0 False dj nx])
        show "chain (link_last es ?l e) q cs" if "chain es q cs" "set cs \<inter> set (A ! ?j) = {}" for q cs
        proof -
          have "?l \<notin> set cs" using that(2) False by (meson disjoint_iff last_in_set)
          with that(1) show ?thesis by (rule chain_link_last_other)
        qed
      qed (simp add: key)
      with run False loc None show ?thesis by - (rule exI [of _ None], auto)
    qed
  qed
qed

section \<open>AddRaw\<close>

text \<open>Some key of the map is in the bucket of \<open>key\<close>.\<close>

definition bucket_used :: "'v hashtable \<Rightarrow> (string \<rightharpoonup> 'v) \<Rightarrow> string \<Rightarrow> bool" where
  "bucket_used h M key \<longleftrightarrow> (\<exists>k \<in> dom M. hidx k (nat (ht_Size h)) = hidx key (nat (ht_Size h)))"

lemma bucket_used_iff:
  assumes rep: "rep_table es tbl A" and st: "stores es (set (concat A)) M"
    and sz: "ht_Size h = int (length tbl)"
  shows "bucket_used h M key \<longleftrightarrow> A ! hidx key (length tbl) \<noteq> []"
proof
  assume "bucket_used h M key"
  then obtain k v where k: "M k = Some v" "hidx k (length tbl) = hidx key (length tbl)"
    using sz by (auto simp: bucket_used_def)
  with st obtain a where a: "a \<in> set (concat A)" "kv es ! a = (k, v)" by (auto simp: stores_def)
  with rep_table_bound [OF rep] have "key_of es a = k" by (simp add: kv_nth)
  with rep_table_bucket [OF rep a(1)] k(2) show "A ! hidx key (length tbl) \<noteq> []" by auto
next
  let ?j = "hidx key (length tbl)"
  assume "A ! ?j \<noteq> []"
  then obtain a where a: "a \<in> set (A ! ?j)" using last_in_set by blast
  have j: "?j < length A" using rep_table_pos [OF rep] rep_table_length [OF rep] by simp
  have in_A: "a \<in> set (concat A)" using set_concat_nth [OF j a] .
  have "hidx (key_of es a) (length tbl) = ?j" using rep a j by (simp add: rep_table_def)
  moreover have "kv es ! a = (key_of es a, ent_Value (es ! a))"
    using rep_table_bound [OF rep in_A] by (rule kv_nth)
  then have "M (key_of es a) = Some (ent_Value (es ! a))" using st in_A by (auto simp: stores_def)
  ultimately show "bucket_used h M key" using sz by (auto simp: bucket_used_def)
qed

text \<open>An entry that is allocated but not linked does not matter.\<close>

lemma rep_table_alloc:
  assumes rep: "rep_table es tbl A"
  shows "rep_table (es @ [e]) tbl A"
  by (rule rep_table_frame [OF rep]) (use rep_table_bound [OF rep] in \<open>auto simp: chain_alloc nth_append\<close>)

lemma shape_alloc:
  assumes sh: "shape h A B"
  shows "shape (h\<lparr>ht_Entries := ht_Entries h @ [e]\<rparr>) A B"
proof -
  have "inj_on (key_of (ht_Entries h @ [e])) (set (concat A @ concat B))"
    using shape_inj [OF sh] shape_bound [OF sh] by (auto simp: inj_on_def nth_append)
  with sh rep_table_alloc show ?thesis by (auto simp: shape_def)
qed

lemma stores_alloc:
  assumes "stores es S M" and "\<And>a. a \<in> S \<Longrightarrow> a < length es"
  shows "stores (es @ [e]) S M"
  using assms by (simp add: stores_def nth_append)

lemma deferred_check_rep_entry:
  assumes "rep_entry h M d key e"
  shows "rep_entry (deferred_check h) M d key e"
proof -
  from assms obtain A B where sh: "shape h A B" and idx: "ht_RehashingIdx h < ht_Size h"
    and st: "stores (ht_Entries h) (set (concat A @ concat B)) M"
    and cnt: "ht_Count h = int (length (concat A @ concat B)) + int d"
    and e: "e \<in> set (concat A @ concat B)" "key_of (ht_Entries h) e = key" by (auto simp: rep_entry_def)
  from deferred_check_shape [OF sh idx] obtain B' where
    "shape (deferred_check h) A B'" "concat B' = concat B"
    "ht_RehashingIdx (deferred_check h) < ht_Size (deferred_check h)"
    "ht_Entries (deferred_check h) = ht_Entries h" "ht_Count (deferred_check h) = ht_Count h" by blast
  then show ?thesis
    unfolding rep_entry_def by (intro exI [of _ A] exI [of _ B']) (use st cnt e in simp)
qed

lemma AddRaw_unchecked:
  assumes rep: "represents h M d" and idx: "ht_RehashingIdx h < 0"
  shows "\<exists>e h1. AddRaw V key h m = Ret (e, bucket_used h M key, deferred_check h1,
      if M key = None then IncreaseUsedMemory (AString key) m else m) \<and>
    rep_entry h1 (if M key = None then M(key \<mapsto> vt_zero V) else M) d key e"
proof -
  let ?es = "ht_Entries h" and ?n = "length (ht_Entries h)"
  let ?e = "\<lparr>ent_Key = key, ent_Value = vt_zero V, ent_Next = None\<rparr>"
  from rep obtain A B where sh: "shape h A B" and st: "stores ?es (set (concat A @ concat B)) M"
    and cnt: "ht_Count h = int (length (concat A @ concat B)) + int d" by (auto simp: represents_def)
  from sh idx have B: "B = []" and repA: "rep_table ?es (ht_Table h) A"
    and sz: "ht_Size h = int (length (ht_Table h))" and dist: "distinct (concat A)"
    and inj: "inj_on (key_of ?es) (set (concat A))" and idx1: "ht_RehashingIdx h = -1"
    by (auto simp: shape_def)
  have stA: "stores ?es (set (concat A)) M" using st B by simp
  note used = bucket_used_iff [OF repA stA sz, of key]
  obtain r where loc: "located ?es (set (concat A)) key r"
    and run: "case r of
       Some c \<Rightarrow> raw_insert ?n key (ht_Size h) (ht_Table h) (?es @ [?e]) (ht_Count h) m =
         Ret (Some c, ht_Table h, ?es @ [?e], ht_Count h, m)
     | None \<Rightarrow> \<exists>es' tbl' A'.
         raw_insert ?n key (ht_Size h) (ht_Table h) (?es @ [?e]) (ht_Count h) m =
           Ret (if A ! hidx key (length (ht_Table h)) = [] then None else Some ?n, tbl', es',
                ht_Count h + 1, IncreaseUsedMemory (AString key) m) \<and>
         put_result key (vt_zero V) ?es A True es' tbl' A' \<and> length tbl' = length (ht_Table h)"
    using raw_insert_result [OF repA dist, of ?e key "ht_Count h" m, folded sz]
    by (simp only: entry.select_convs simp_thms) blast
  have "map_option (\<lambda>a. ent_Value (?es ! a)) r = M key"
    by (rule located_stores [OF stA loc inj]) (rule rep_table_bound [OF repA])
  then have none: "r = None \<longleftrightarrow> M key = None" by (metis option.map_disc_iff)
  note unfolded = AddRaw_def findPositionForInsert_def Let_def
  show ?thesis
  proof (cases r)
    case (Some c)
    let ?h = "h\<lparr>ht_Entries := ?es @ [?e]\<rparr>"
    have c: "c \<in> set (concat A)" "key_of (?es @ [?e]) c = key"
      using loc Some rep_table_bound [OF repA] by (auto simp: located_def nth_append)
    have "rep_entry ?h M d key c"
      unfolding rep_entry_def
      by (intro exI [of _ A] exI [of _ B])
        (use shape_alloc [OF sh] stores_alloc [OF st shape_bound [OF sh]] cnt c idx sz
           rep_table_pos [OF repA] in simp)
    moreover have "bucket_used h M key"
      using none Some by (auto simp: bucket_used_def)
    ultimately show ?thesis
      using run Some none idx by (auto simp: unfolded)
  next
    case None
    with run obtain es' tbl' A' where
      ins: "raw_insert ?n key (ht_Size h) (ht_Table h) (?es @ [?e]) (ht_Count h) m =
           Ret (if A ! hidx key (length (ht_Table h)) = [] then None else Some ?n, tbl', es',
                ht_Count h + 1, IncreaseUsedMemory (AString key) m)"
      and put: "put_result key (vt_zero V) ?es A True es' tbl' A'"
      and len: "length tbl' = length (ht_Table h)" by auto
    let ?h = "h\<lparr>ht_Table := tbl', ht_Entries := es', ht_Count := ht_Count h + 1\<rparr>"
    have res: "stores es' (set (concat A')) (M(key \<mapsto> vt_zero V)) \<and> inj_on (key_of es') (set (concat A')) \<and>
        distinct (concat A') \<and> length (concat A') = Suc (length (concat A))"
      using put_result_stores [OF _ _ _ _ put, of "[]" M] stA inj dist rep_table_bound [OF repA] by simp
    have n: "?n \<in> set (concat A')" "key_of es' ?n = key"
      using put key_of_new by (auto simp: put_result_def dest: arg_cong [of _ _ set_mset])
    have "rep_entry ?h (M(key \<mapsto> vt_zero V)) d key ?n"
      unfolding rep_entry_def
      by (intro exI [of _ A'] exI [of _ "[]"])
        (use put B sz len cnt idx1 res n rep_table_pos [OF repA] in \<open>simp add: shape_def put_result_def\<close>)
    with ins None none used idx show ?thesis
      by - (rule exI [of _ ?n], rule exI [of _ ?h], simp add: unfolded)
  qed
qed

lemma AddRaw_represents:
  assumes rep: "represents h M d" and idx: "ht_RehashingIdx h < 0"
  shows "\<exists>e h'. AddRaw V key h m = Ret (e, bucket_used h M key, h',
      if M key = None then IncreaseUsedMemory (AString key) m else m) \<and>
    rep_entry h' (if M key = None then M(key \<mapsto> vt_zero V) else M) d key e"
  using AddRaw_unchecked [OF assms] deferred_check_rep_entry by blast

end
