(* ===== verification/Dict_Sample.thy ===== *)
theory Dict_Sample
  imports Dict_Raw
begin

text \<open>
  Size and sampling: \<open>Len\<close> is the number of keys plus the deletions it never saw, and outside a
  rehash \<open>GetSomeKeys\<close> returns distinct keys of the map, as many as were asked for or all of them,
  whenever the random source draws every bucket again and again.
\<close>

section \<open>Size\<close>

lemma stores_dom:
  assumes st: "stores es S M" and bound: "\<And>a. a \<in> S \<Longrightarrow> a < length es"
  shows "dom M = key_of es ` S"
proof
  show "dom M \<subseteq> key_of es ` S"
  proof
    fix k assume "k \<in> dom M"
    then obtain v where "M k = Some v" by auto
    with st obtain a where a: "a \<in> S" "kv es ! a = (k, v)" by (auto simp: stores_def)
    with bound have "key_of es a = k" by (simp add: kv_nth)
    with a(1) show "k \<in> key_of es ` S" by auto
  qed
  have "M (key_of es a) = Some (ent_Value (es ! a))" if "a \<in> S" for a
    using st that kv_nth [OF bound [OF that]] by (auto simp: stores_def)
  then show "key_of es ` S \<subseteq> dom M" by auto
qed

lemma represents_card:
  assumes "represents h M d"
  shows "finite (dom M) \<and> ht_Len h = int (card (dom M)) + int d"
proof -
  from assms obtain A B where sh: "shape h A B" and st: "stores (ht_Entries h) (set (concat A @ concat B)) M"
    and cnt: "ht_Count h = int (length (concat A @ concat B)) + int d" by (auto simp: represents_def)
  have dom: "dom M = key_of (ht_Entries h) ` set (concat A @ concat B)"
    using stores_dom [OF st shape_bound [OF sh]] .
  then have "card (dom M) = length (concat A @ concat B)"
    using card_image [OF shape_inj [OF sh]] distinct_card [of "concat A @ concat B"] sh
    by (simp add: shape_def)
  with cnt dom show ?thesis by (simp add: ht_Len_def)
qed

lemma Delete_keeps_Len:
  assumes "represents h M d" and "ht_Delete V key h m = Ret (b, h', m')"
  shows "ht_Len h' = ht_Len h"
proof -
  from ht_Delete_represents [OF assms(1), of V key m] assms(2)
  have rep: "represents h' (M(key := None)) (d + (if M key = None then 0 else 1))" by auto
  show ?thesis
  proof (cases "M key")
    case None
    then have "M(key := None) = M" by auto
    with None represents_card [OF rep] represents_card [OF assms(1)] show ?thesis by simp
  next
    case (Some v)
    then have "card (dom M) = Suc (card (dom M - {key}))"
      using represents_card [OF assms(1)] by (metis card_Suc_Diff1 domI)
    with Some represents_card [OF rep] represents_card [OF assms(1)] show ?thesis by simp
  qed
qed

section \<open>Sampling\<close>

lemma collect_keys_chain:
  "chain es p as \<Longrightarrow> length keys \<le> n \<Longrightarrow>
     collect_keys es (int n) keys p = Ret (take n (keys @ map (key_of es) as))"
proof (induction as arbitrary: p keys)
  case Nil
  then show ?case by (simp add: collect_keys.simps)
next
  case (Cons a as)
  show ?case
  proof (cases "length keys < n")
    case True
    with Cons.prems Cons.IH [of "ent_Next (es ! a)" "keys @ [key_of es a]"] show ?thesis
      by (subst collect_keys.simps) simp
  next
    case False
    with Cons.prems show ?thesis by (subst collect_keys.simps) simp
  qed
qed

text \<open>The keys in the buckets \<open>vs\<close>, in the order the buckets were drawn.\<close>

definition bucket_keys :: "'v entry list \<Rightarrow> nat list list \<Rightarrow> int list \<Rightarrow> string list" where
  "bucket_keys es A vs = map (key_of es) (concat (map (\<lambda>j. A ! nat j) vs))"

lemma bucket_keys_snoc: "bucket_keys es A (vs @ [j]) = bucket_keys es A vs @ map (key_of es) (A ! nat j)"
  by (simp add: bucket_keys_def)

definition fair_draws :: "(nat \<Rightarrow> int) \<Rightarrow> int \<Rightarrow> bool" where
  "fair_draws rnd sz \<longleftrightarrow>
     (\<forall>i. 0 \<le> rnd i \<and> rnd i < sz) \<and> (\<forall>j. 0 \<le> j \<and> j < sz \<longrightarrow> (\<forall>i. \<exists>i' \<ge> i. rnd i' = j))"

lemma fair_round_robin: "fair_draws (\<lambda>i. int (i mod n)) (int n)" if "0 < n"
  unfolding fair_draws_def
proof (intro conjI allI impI)
  fix i
  show "0 \<le> int (i mod n)" "int (i mod n) < int n" using that by simp_all
next
  fix j i assume j: "0 \<le> j \<and> j < int n"
  have "int ((i * n + nat j) mod n) = j" using j by (simp add: nat_less_iff)
  moreover have "i \<le> i * n + nat j" using that by (simp add: trans_le_add1)
  ultimately show "\<exists>i' \<ge> i. int (i' mod n) = j" by blast
qed

lemma sample_skip:
  assumes "i \<le> i'" and "\<And>k. i \<le> k \<Longrightarrow> k < i' \<Longrightarrow> rnd k \<in> set vs"
    and "int (length keys) < cnt" and "int (length vs) < ht_Size h"
  shows "sample_loop h rnd cnt i keys vs = sample_loop h rnd cnt i' keys vs"
  using assms
proof (induction "i' - i" arbitrary: i)
  case 0
  then show ?case by simp
next
  case (Suc n)
  then have "rnd i \<in> set vs" by auto
  with Suc.prems have "sample_loop h rnd cnt i keys vs = sample_loop h rnd cnt (Suc i) keys vs"
    by (subst sample_loop.simps) (simp add: Let_def)
  also have "\<dots> = sample_loop h rnd cnt i' keys vs"
    by (rule Suc.hyps(1)) (use Suc in auto)
  finally show ?case .
qed

text \<open>The next draw of a bucket that was not visited yet.\<close>

lemma fair_draws_next:
  assumes fair: "fair_draws rnd sz" and vs: "distinct vs" "set vs \<subseteq> {0..<sz}" and lt: "int (length vs) < sz"
  shows "\<exists>i' \<ge> i. rnd i' \<notin> set vs \<and> (\<forall>k. i \<le> k \<longrightarrow> k < i' \<longrightarrow> rnd k \<in> set vs)"
proof -
  have "card (set vs) < card {0..<sz}" using vs(1) lt by (simp add: distinct_card)
  then have "set vs \<noteq> {0..<sz}" by auto
  with vs(2) obtain j where "0 \<le> j" "j < sz" "j \<notin> set vs" by fastforce
  with fair obtain i' where "i \<le> i'" "rnd i' \<notin> set vs" unfolding fair_draws_def by metis
  then have ex: "i \<le> i' \<and> rnd i' \<notin> set vs" by simp
  let ?P = "\<lambda>k. i \<le> k \<and> rnd k \<notin> set vs"
  have "?P (LEAST k. ?P k)" using ex by (rule LeastI)
  moreover have "rnd k \<in> set vs" if "i \<le> k" "k < (LEAST k. ?P k)" for k
    using not_less_Least [OF that(2)] that(1) by simp
  ultimately show ?thesis by blast
qed

lemma sample_loop_returns:
  assumes rep: "rep_table (ht_Entries h) (ht_Table h) A" and sz: "ht_Size h = int (length (ht_Table h))"
    and fair: "fair_draws rnd (ht_Size h)"
    and vs: "distinct vs" "set vs \<subseteq> {0..<ht_Size h}"
    and keys: "keys = take n (bucket_keys (ht_Entries h) A vs)"
  shows "\<exists>ws. sample_loop h rnd (int n) i keys vs = Ret (take n (bucket_keys (ht_Entries h) A ws)) \<and>
    distinct ws \<and> set ws \<subseteq> {0..<ht_Size h} \<and>
    (n \<le> length (bucket_keys (ht_Entries h) A ws) \<or> set ws = {0..<ht_Size h})"
  using vs keys
proof (induction "nat (ht_Size h) - length vs" arbitrary: i vs keys rule: less_induct)
  case less
  show ?case
  proof (cases "length keys < n \<and> int (length vs) < ht_Size h")
    case False
    then have stop: "sample_loop h rnd (int n) i keys vs = Ret keys"
      by (subst sample_loop.simps) auto
    have "n \<le> length (bucket_keys (ht_Entries h) A vs) \<or> set vs = {0..<ht_Size h}"
    proof (cases "length keys < n")
      case True
      with False sz have "int (length vs) = ht_Size h"
        using less.prems(1,2) card_mono [of "{0..<ht_Size h}" "set vs"] by (simp add: distinct_card)
      then have "card (set vs) = card {0..<ht_Size h}" using less.prems(1) by (simp add: distinct_card)
      with less.prems(2) have "set vs = {0..<ht_Size h}" by (simp add: card_subset_eq)
      then show ?thesis by simp
    qed (use less.prems(3) in auto)
    with stop less.prems show ?thesis by auto
  next
    case True
    let ?es = "ht_Entries h"
    obtain i' where i': "i \<le> i'" "rnd i' \<notin> set vs" "\<forall>k. i \<le> k \<longrightarrow> k < i' \<longrightarrow> rnd k \<in> set vs"
      using fair_draws_next [OF fair less.prems(1,2)] True by blast
    let ?j = "rnd i'"
    let ?keys = "take n (bucket_keys ?es A (vs @ [?j]))"
    have j: "0 \<le> ?j" "?j < ht_Size h" using fair by (simp_all add: fair_draws_def)
    have keys: "keys = bucket_keys ?es A vs" using less.prems(3) True by (simp add: min_def split: if_splits)
    have "collect_keys ?es (int n) keys (ht_Table h ! nat ?j) = Ret ?keys"
      using collect_keys_chain [OF rep_table_chain [OF rep], of "nat ?j" keys n] j sz True keys
      by (simp add: bucket_keys_snoc nat_less_iff)
    then have "sample_loop h rnd (int n) i' keys vs = sample_loop h rnd (int n) (Suc i') ?keys (vs @ [?j])"
      using True i'(2) j sz by (subst sample_loop.simps) (simp add: Let_def slice_get_def)
    then have step: "sample_loop h rnd (int n) i keys vs =
        sample_loop h rnd (int n) (Suc i') ?keys (vs @ [?j])"
      using sample_skip [OF i'(1), of rnd vs keys "int n" h] i'(3) True by simp
    show ?thesis
      unfolding step
      by (rule less.hyps [OF _ _ _ refl]) (use True i'(2) j less.prems(1,2) in auto)
  qed
qed

lemma concat_permuted:
  assumes "distinct ws" and "set ws = {0..<int (length A)}"
  shows "mset (concat (map (\<lambda>j. A ! nat j) ws)) = mset (concat A)"
proof -
  let ?f = "\<lambda>j. mset (A ! nat j)"
  have concat: "mset (concat xss) = sum_list (map mset xss)" for xss :: "'a list list"
    by (induction xss) auto
  have "sum_list (map ?f ws) = sum ?f {0..<int (length A)}"
    using sum_list_distinct_conv_sum_set [OF assms(1), of ?f] assms(2) by simp
  also have "\<dots> = sum (\<lambda>i. mset (A ! i)) {0..<length A}"
    by (rule sum.reindex_bij_witness [of _ int nat]) auto
  also have "\<dots> = mset (concat A)"
    unfolding concat by (simp add: sum_list_sum_nth)
  finally show ?thesis by (simp add: concat comp_def)
qed

text \<open>
  Outside a rehash: distinct keys of the table, as many as asked for, or all of them.
\<close>

lemma GetSomeKeys_samples:
  assumes rep: "represents h M d" and idx: "ht_RehashingIdx h < 0" and fair: "fair_draws rnd (ht_Size h)"
    and cnt: "0 \<le> cnt"
  shows "\<exists>keys. GetSomeKeys rnd cnt h = Ret keys \<and> distinct keys \<and> set keys \<subseteq> dom M \<and>
    int (length keys) = min cnt (int (card (dom M)))"
proof (cases "ht_Empty h")
  case True
  with represents_card [OF rep] have "card (dom M) = 0"
    unfolding ht_Empty_def ht_Len_def by linarith
  with True cnt show ?thesis by (simp add: GetSomeKeys_def)
next
  case False
  let ?es = "ht_Entries h"
  from rep obtain A B where sh: "shape h A B" and st: "stores ?es (set (concat A @ concat B)) M"
    by (auto simp: represents_def)
  from sh idx have B: "B = []" and repA: "rep_table ?es (ht_Table h) A"
    and sz: "ht_Size h = int (length (ht_Table h))" and dist: "distinct (concat A)"
    and inj: "inj_on (key_of ?es) (set (concat A))" by (auto simp: shape_def)
  have dom: "dom M = key_of ?es ` set (concat A)"
    using stores_dom [OF st shape_bound [OF sh]] B by simp
  have card: "card (dom M) = length (concat A)"
    unfolding dom using card_image [OF inj] distinct_card [OF dist] by simp
  let ?n = "nat (if cnt > ht_Len h then ht_Len h else cnt)"
  have len: "int (card (dom M)) \<le> ht_Len h" using represents_card [OF rep] by simp
  obtain ws where run: "sample_loop h rnd (int ?n) 0 [] [] = Ret (take ?n (bucket_keys ?es A ws))"
    and ws: "distinct ws" "set ws \<subseteq> {0..<ht_Size h}"
    and enough: "?n \<le> length (bucket_keys ?es A ws) \<or> set ws = {0..<ht_Size h}"
    using sample_loop_returns [OF repA sz fair, of "[]" "[]" ?n 0] by (auto simp: bucket_keys_def)
  obtain us where us: "distinct us" "set us = {0..<ht_Size h} - set ws"
    using finite_distinct_list [of "{0..<ht_Size h} - set ws"] by auto
  have "distinct (ws @ us)" "set (ws @ us) = {0..<int (length A)}"
    using ws us sz rep_table_length [OF repA] by auto
  then have ms: "mset (concat (map (\<lambda>j. A ! nat j) (ws @ us))) = mset (concat A)"
    by (rule concat_permuted)
  let ?as = "concat (map (\<lambda>j. A ! nat j) ws)"
  have das: "distinct ?as" and sas: "set ?as \<subseteq> set (concat A)"
    using dist mset_eq_imp_distinct_iff [OF ms] mset_eq_setD [OF ms] by auto
  have las: "length (concat A) = length ?as" if "set ws = {0..<ht_Size h}"
    using that us arg_cong [OF ms, of size] by simp
  have "distinct (bucket_keys ?es A ws)" "set (bucket_keys ?es A ws) \<subseteq> dom M"
    using das sas inj dom by (auto simp: bucket_keys_def distinct_map inj_on_subset)
  then have keys: "distinct (take ?n (bucket_keys ?es A ws))" "set (take ?n (bucket_keys ?es A ws)) \<subseteq> dom M"
    by (auto dest: in_set_takeD)
  have "length (bucket_keys ?es A ws) \<le> card (dom M)"
    unfolding card using arg_cong [OF ms, of size] by (simp add: bucket_keys_def)
  then have "int (length (take ?n (bucket_keys ?es A ws))) = min cnt (int (card (dom M)))"
    using enough las card len cnt by (auto simp: bucket_keys_def split: if_splits)
  moreover have "GetSomeKeys rnd cnt h = Ret (take ?n (bucket_keys ?es A ws))"
    using run False cnt len by (auto simp: GetSomeKeys_def Let_def split: if_splits)
  ultimately show ?thesis using keys by blast
qed

end
