(* ===== verification/Kv_Table.thy ===== *)
theory Kv_Table
  imports Prelude
begin

text \<open>
  The contract between a key-value table and its users: a lookup reads a finite map, storing a key
  that is not there adds it, deleting a key removes it and tells whether it was there. \<open>kv_metered\<close>
  adds the memory counter: storing charges a cost that deleting gives back. The users' lemmas are
  proved here once, and hold for the hash table by interpretation.
\<close>

section \<open>Bulk operations over a table\<close>

primrec put_all ::
  "('k \<Rightarrow> 'v \<Rightarrow> 's \<Rightarrow> 's go) \<Rightarrow> ('k \<times> 'v) list \<Rightarrow> 's \<Rightarrow> 's go" where
  "put_all put [] s = Ret s"
| "put_all put (kv # kvs) s = gobind (put (fst kv) (snd kv) s) (put_all put kvs)"

primrec del_all :: "('k \<Rightarrow> 's \<Rightarrow> (bool \<times> 's) go) \<Rightarrow> 'k list \<Rightarrow> 's \<Rightarrow> 's go" where
  "del_all del [] s = Ret s"
| "del_all del (k # ks) s = gobind (del k s) (\<lambda>(_, s'). del_all del ks s')"

lemma map_add_fresh:
  assumes "k \<notin> fst ` set kvs"
  shows "M ++ map_of ((k, v) # kvs) = M(k \<mapsto> v) ++ map_of kvs"
proof -
  have "map_of kvs k = None" using assms by (simp add: map_of_eq_None_iff)
  then show ?thesis by (auto simp: map_add_def fun_eq_iff split: option.splits)
qed

lemma map_add_drop:
  assumes "k \<notin> fst ` set kvs" and "M k = None"
  shows "(M ++ map_of kvs)(k := None) = M ++ map_of kvs"
  using assms by (auto simp: fun_eq_iff map_add_def map_of_eq_None_iff split: option.splits)

section \<open>The contract\<close>

locale kv_table =
  fixes rep :: "'s \<Rightarrow> ('k \<rightharpoonup> 'v) \<Rightarrow> bool"
    and get :: "'k \<Rightarrow> 's \<Rightarrow> 'v option go"
    and put :: "'k \<Rightarrow> 'v \<Rightarrow> 's \<Rightarrow> 's go"
    and del :: "'k \<Rightarrow> 's \<Rightarrow> (bool \<times> 's) go"
  assumes get_rep: "rep s M \<Longrightarrow> get k s = Ret (M k)"
    and put_fresh: "rep s M \<Longrightarrow> M k = None \<Longrightarrow> \<exists>s'. put k v s = Ret s' \<and> rep s' (M(k \<mapsto> v))"
    and del_rep: "rep s M \<Longrightarrow> \<exists>s'. del k s = Ret (M k \<noteq> None, s') \<and> rep s' (M(k := None))"
begin

lemma put_then_get:
  assumes "rep s M" and "M k = None"
  shows "\<exists>s'. put k v s = Ret s' \<and> get k s' = Ret (Some v) \<and> (\<forall>k'. k' \<noteq> k \<longrightarrow> get k' s' = get k' s)"
proof -
  from put_fresh [OF assms] obtain s' where "put k v s = Ret s'" and rep': "rep s' (M(k \<mapsto> v))" by blast
  then show ?thesis using get_rep [OF rep'] get_rep [OF assms(1)] by simp
qed

lemma del_then_get:
  assumes "rep s M"
  shows "\<exists>b s'. del k s = Ret (b, s') \<and> (b \<longleftrightarrow> get k s \<noteq> Ret None) \<and> get k s' = Ret None \<and>
    (\<forall>k'. k' \<noteq> k \<longrightarrow> get k' s' = get k' s)"
proof -
  from del_rep [OF assms] obtain s' where "del k s = Ret (M k \<noteq> None, s')" and rep': "rep s' (M(k := None))"
    by blast
  then show ?thesis using get_rep [OF rep'] get_rep [OF assms] by simp
qed

lemma put_all_rep:
  assumes "rep s M" and "distinct (map fst kvs)" and "\<forall>k \<in> fst ` set kvs. M k = None"
  shows "\<exists>s'. put_all put kvs s = Ret s' \<and> rep s' (M ++ map_of kvs)"
  using assms
proof (induction kvs arbitrary: s M)
  case Nil
  then show ?case by simp
next
  case (Cons kv kvs)
  obtain k v where kv: "kv = (k, v)" by (cases kv)
  with Cons.prems have k: "k \<notin> fst ` set kvs" "M k = None" "distinct (map fst kvs)" by auto
  from put_fresh [OF Cons.prems(1) k(2)] obtain s1 where
    s1: "put k v s = Ret s1" "rep s1 (M(k \<mapsto> v))" by blast
  have "\<forall>k' \<in> fst ` set kvs. (M(k \<mapsto> v)) k' = None" using Cons.prems(3) k(1) by auto
  from Cons.IH [OF s1(2) k(3) this] obtain s' where
    s': "put_all put kvs s1 = Ret s'" "rep s' (M(k \<mapsto> v) ++ map_of kvs)" by blast
  have "put_all put (kv # kvs) s = Ret s'" using s1(1) s'(1) kv by simp
  with s'(2) show ?case unfolding kv map_add_fresh [OF k(1)] by blast
qed

lemma del_all_rep:
  assumes "rep s M"
  shows "\<exists>s'. del_all del ks s = Ret s' \<and> rep s' (M |` (- set ks))"
  using assms
proof (induction ks arbitrary: s M)
  case Nil
  then show ?case by (simp add: restrict_map_def)
next
  case (Cons k ks)
  from del_rep [OF Cons.prems] obtain s1 where
    s1: "del k s = Ret (M k \<noteq> None, s1)" "rep s1 (M(k := None))" by blast
  from Cons.IH [OF s1(2)] obtain s' where
    s': "del_all del ks s1 = Ret s'" "rep s' ((M(k := None)) |` (- set ks))" by blast
  have "(M(k := None)) |` (- set ks) = M |` (- set (k # ks))"
    by (auto simp: restrict_map_def fun_eq_iff)
  with s1 s' show ?case by auto
qed

end

section \<open>The contract with a memory counter\<close>

locale kv_metered = kv_table rep get put del
  for rep :: "'s \<Rightarrow> ('k \<rightharpoonup> 'v) \<Rightarrow> bool"
    and get :: "'k \<Rightarrow> 's \<Rightarrow> 'v option go"
    and put :: "'k \<Rightarrow> 'v \<Rightarrow> 's \<Rightarrow> 's go"
    and del :: "'k \<Rightarrow> 's \<Rightarrow> (bool \<times> 's) go" +
  fixes used :: "'s \<Rightarrow> int64" and cost :: "'k \<Rightarrow> 'v \<Rightarrow> int64"
  assumes put_used: "rep s M \<Longrightarrow> M k = None \<Longrightarrow> put k v s = Ret s' \<Longrightarrow> used s' = used s + cost k v"
    and del_used: "rep s M \<Longrightarrow> del k s = Ret (b, s') \<Longrightarrow>
      used s' = used s - (case M k of None \<Rightarrow> 0 | Some v \<Rightarrow> cost k v)"
begin

lemma put_all_used:
  assumes "rep s M" and "distinct (map fst kvs)" and "\<forall>k \<in> fst ` set kvs. M k = None"
  shows "\<exists>s'. put_all put kvs s = Ret s' \<and> rep s' (M ++ map_of kvs) \<and>
    used s' = used s + sum_list (map (\<lambda>(k, v). cost k v) kvs)"
  using assms
proof (induction kvs arbitrary: s M)
  case Nil
  then show ?case by simp
next
  case (Cons kv kvs)
  obtain k v where kv: "kv = (k, v)" by (cases kv)
  with Cons.prems have k: "k \<notin> fst ` set kvs" "M k = None" "distinct (map fst kvs)" by auto
  from put_fresh [OF Cons.prems(1) k(2)] obtain s1 where
    s1: "put k v s = Ret s1" "rep s1 (M(k \<mapsto> v))" by blast
  have used: "used s1 = used s + cost k v" by (rule put_used [OF Cons.prems(1) k(2) s1(1)])
  have "\<forall>k' \<in> fst ` set kvs. (M(k \<mapsto> v)) k' = None" using Cons.prems(3) k(1) by auto
  from Cons.IH [OF s1(2) k(3) this] obtain s' where
    s': "put_all put kvs s1 = Ret s'" "rep s' (M(k \<mapsto> v) ++ map_of kvs)"
    "used s' = used s1 + sum_list (map (\<lambda>(k, v). cost k v) kvs)" by blast
  have "put_all put (kv # kvs) s = Ret s'" using s1(1) s'(1) kv by simp
  moreover have "used s' = used s + sum_list (map (\<lambda>(k, v). cost k v) (kv # kvs))"
    using used s'(3) kv by (simp add: add.assoc)
  ultimately show ?case using s'(2) unfolding kv map_add_fresh [OF k(1)] by blast
qed

text \<open>Storing fresh keys and deleting the same keys again gives all their memory back.\<close>

lemma del_all_used:
  assumes "rep s (M ++ map_of kvs)" and "distinct (map fst kvs)" and "\<forall>k \<in> fst ` set kvs. M k = None"
  shows "\<exists>s'. del_all del (map fst kvs) s = Ret s' \<and> rep s' M \<and>
    used s' = used s - sum_list (map (\<lambda>(k, v). cost k v) kvs)"
  using assms
proof (induction kvs arbitrary: s)
  case Nil
  then show ?case by simp
next
  case (Cons kv kvs)
  obtain k v where kv: "kv = (k, v)" by (cases kv)
  with Cons.prems have k: "k \<notin> fst ` set kvs" "M k = None" "distinct (map fst kvs)" by auto
  let ?N = "M ++ map_of (kv # kvs)"
  have N: "?N k = Some v" "?N(k := None) = M ++ map_of kvs"
    using map_add_drop [of k kvs M, OF k(1,2)] kv by simp_all
  from del_rep [OF Cons.prems(1), of k] obtain b s1 where
    s1: "del k s = Ret (b, s1)" "rep s1 (M ++ map_of kvs)" unfolding N(2) by blast
  have used: "used s1 = used s - cost k v"
    using del_used [OF Cons.prems(1) s1(1)] unfolding N(1) by simp
  have "\<exists>s'. del_all del (map fst kvs) s1 = Ret s' \<and> rep s' M \<and>
    used s' = used s1 - sum_list (map (\<lambda>(k, v). cost k v) kvs)"
    using Cons.IH [OF s1(2) k(3)] Cons.prems(3) by simp
  with s1(1) used kv show ?case by auto
qed

lemma put_all_del_all:
  assumes "rep s M" and "distinct (map fst kvs)" and "\<forall>k \<in> fst ` set kvs. M k = None"
  shows "\<exists>s1 s2. put_all put kvs s = Ret s1 \<and> del_all del (map fst kvs) s1 = Ret s2 \<and>
    rep s2 M \<and> used s2 = used s"
proof -
  from put_all_used [OF assms] obtain s1 where
    s1: "put_all put kvs s = Ret s1" "rep s1 (M ++ map_of kvs)"
    "used s1 = used s + sum_list (map (\<lambda>(k, v). cost k v) kvs)" by blast
  from del_all_used [OF s1(2) assms(2,3)] obtain s2 where
    "del_all del (map fst kvs) s1 = Ret s2" "rep s2 M"
    "used s2 = used s1 - sum_list (map (\<lambda>(k, v). cost k v) kvs)" by blast
  with s1 show ?thesis by simp
qed

end

end
