(* ===== verification/GoSet.thy ===== *)
theory GoSet
  imports Dict_Sample Kv_Table
begin

text \<open>
  The hash table as a provider of the table contract, and \<open>src/db/set.go\<close>, a set of keys kept in a
  hash table whose values carry nothing.
\<close>

section \<open>The hash table keeps the contract\<close>

text \<open>A table together with the memory counter it charges.\<close>

type_synonym 'v metered_table = "'v hashtable \<times> int64"

definition mt_rep :: "'v metered_table \<Rightarrow> (string \<rightharpoonup> 'v) \<Rightarrow> bool" where
  "mt_rep s M \<longleftrightarrow> (\<exists>d. represents (fst s) M d)"

definition mt_get :: "string \<Rightarrow> 'v metered_table \<Rightarrow> 'v option go" where
  "mt_get k s = Get k (fst s)"

definition mt_put :: "'v vtype \<Rightarrow> string \<Rightarrow> 'v \<Rightarrow> 'v metered_table \<Rightarrow> 'v metered_table go" where
  "mt_put V k v s = ht_Set V k v (fst s) (snd s)"

definition mt_del :: "'v vtype \<Rightarrow> string \<Rightarrow> 'v metered_table \<Rightarrow> (bool \<times> 'v metered_table) go" where
  "mt_del V k s = gobind (ht_Delete V k (fst s) (snd s)) (\<lambda>(b, h, m). Ret (b, (h, m)))"

definition entry_cost :: "'v vtype \<Rightarrow> string \<Rightarrow> 'v \<Rightarrow> int64" where
  "entry_cost V k v = estimateMemoryUsage (AString k) + estimateMemoryUsage (vt_any V v)"

lemma ht_IncreaseUsedMemory_cost: "ht_IncreaseUsedMemory V k v m = m + entry_cost V k v"
  by (simp add: ht_IncreaseUsedMemory_def zmalloc_defs entry_cost_def)

lemma ht_DecreaseUsedMemory_cost: "ht_DecreaseUsedMemory V k v m = m - entry_cost V k v"
  by (simp add: ht_DecreaseUsedMemory_def zmalloc_defs entry_cost_def)

lemma mt_put_fresh:
  assumes "mt_rep s M" and "M k = None"
  shows "\<exists>s'. mt_put V k v s = Ret s' \<and> mt_rep s' (M(k \<mapsto> v)) \<and> snd s' = snd s + entry_cost V k v"
  using assms ht_Set_represents [of "fst s" M _ k V v "snd s"]
  by (fastforce simp: mt_rep_def mt_put_def ht_IncreaseUsedMemory_cost)

lemma mt_del_rep:
  assumes "mt_rep s M"
  shows "\<exists>s'. mt_del V k s = Ret (M k \<noteq> None, s') \<and> mt_rep s' (M(k := None)) \<and>
    snd s' = snd s - (case M k of None \<Rightarrow> 0 | Some v \<Rightarrow> entry_cost V k v)"
proof -
  from assms obtain d where "represents (fst s) M d" by (auto simp: mt_rep_def)
  from ht_Delete_represents [OF this, of V k "snd s"] show ?thesis
    by (auto simp: mt_del_def mt_rep_def release_def ht_DecreaseUsedMemory_cost split: option.splits)
qed

interpretation ht: kv_metered mt_rep mt_get "mt_put V" "mt_del V" snd "entry_cost V" for V
proof
  fix s :: "'a metered_table" and M k v s' b
  assume rep: "mt_rep s M"
  then show "mt_get k s = Ret (M k)"
    by (auto simp: mt_rep_def mt_get_def Get_represents)
  show "\<exists>s'. mt_del V k s = Ret (M k \<noteq> None, s') \<and> mt_rep s' (M(k := None))"
    using mt_del_rep [OF rep, of V k] by blast
  show "snd s' = snd s - (case M k of None \<Rightarrow> 0 | Some v \<Rightarrow> entry_cost V k v)"
    if "mt_del V k s = Ret (b, s')"
    using mt_del_rep [OF rep, of V k] that by auto
  assume none: "M k = None"
  show "\<exists>s'. mt_put V k v s = Ret s' \<and> mt_rep s' (M(k \<mapsto> v))"
    using mt_put_fresh [OF rep none] by blast
  show "snd s' = snd s + entry_cost V k v" if "mt_put V k v s = Ret s'"
    using mt_put_fresh [OF rep none, of V v] that by auto
qed

section \<open>Sets\<close>

text \<open>\<open>sentinel{}\<close> is the only value of its type; its estimate is 0.\<close>

definition sentinel :: "unit vtype" where
  "sentinel = \<lparr>vt_zero = (), vt_any = (\<lambda>_. AOther)\<rparr>"

record goset =
  set_data :: "unit hashtable"

definition NewSet :: "int \<Rightarrow> goset go" where
  "NewSet initSize = gobind (NewHashTable initSize) (\<lambda>h. Ret \<lparr>set_data = h\<rparr>)"

definition set_Add :: "string \<Rightarrow> goset \<Rightarrow> int64 \<Rightarrow> (goset \<times> int64) go" where
  "set_Add key s m = gobind (ht_Set sentinel key () (set_data s) m) (\<lambda>(h, m'). Ret (s\<lparr>set_data := h\<rparr>, m'))"

definition set_Contains :: "string \<Rightarrow> goset \<Rightarrow> bool go" where
  "set_Contains key s = gobind (Get key (set_data s)) (\<lambda>r. Ret (r \<noteq> None))"

definition set_Remove :: "string \<Rightarrow> goset \<Rightarrow> int64 \<Rightarrow> (goset \<times> int64) go" where
  "set_Remove key s m =
     gobind (ht_Delete sentinel key (set_data s) m) (\<lambda>(_, h, m'). Ret (s\<lparr>set_data := h\<rparr>, m'))"

definition set_rep :: "goset \<Rightarrow> string set \<Rightarrow> bool" where
  "set_rep s X \<longleftrightarrow> (\<exists>M. mt_rep (set_data s, 0) M \<and> X = dom M)"

lemma mt_rep_mem: "mt_rep (h, m) M \<longleftrightarrow> mt_rep (h, 0) M"
  by (simp add: mt_rep_def)

lemma set_Contains_rep: "set_rep s X \<Longrightarrow> set_Contains k s = Ret (k \<in> X)"
  using ht.get_rep [of "(set_data s, 0)"] by (auto simp: set_rep_def set_Contains_def mt_get_def)

lemma set_Remove_rep:
  assumes "set_rep s X"
  shows "\<exists>s' m'. set_Remove k s m = Ret (s', m') \<and> set_rep s' (X - {k}) \<and>
    (k \<notin> X \<longrightarrow> m' = m)"
proof -
  from assms obtain M d where M: "represents (set_data s) M d" "X = dom M"
    by (auto simp: set_rep_def mt_rep_def)
  from ht_Delete_represents [OF M(1), of sentinel k m] obtain h' d' where
    h': "ht_Delete sentinel k (set_data s) m = Ret (M k \<noteq> None, h', release sentinel k (M k) m)"
    "represents h' (M(k := None)) d'" by blast
  from h'(2) have "set_rep (s\<lparr>set_data := h'\<rparr>) (X - {k})"
    unfolding set_rep_def mt_rep_def using M(2) by (intro exI [of _ "M(k := None)"]) auto
  with h'(1) M(2) show ?thesis by (cases "M k") (auto simp: set_Remove_def release_def)
qed

lemma set_Add_rep:
  assumes "set_rep s X" and "k \<notin> X \<or> rehash_ends (set_data s)"
  shows "\<exists>s'. set_Add k s m = Ret (s', ht_IncreaseUsedMemory sentinel k () m) \<and> set_rep s' (insert k X)"
proof -
  from assms(1) obtain M d where M: "represents (set_data s) M d" "X = dom M"
    by (auto simp: set_rep_def mt_rep_def)
  with assms(2) have "M k = None \<or> rehash_ends (set_data s)" by auto
  from ht_Set_represents [OF M(1) this, of sentinel "()" m] obtain h' where
    "ht_Set sentinel k () (set_data s) m = Ret (h', ht_IncreaseUsedMemory sentinel k () m)"
    "represents h' (M(k \<mapsto> ())) d" by blast
  with M(2) show ?thesis by (auto simp: set_Add_def set_rep_def mt_rep_def intro!: exI)
qed

end
