(* ===== verification/Dict_Props.thy ===== *)
theory Dict_Props
  imports GoSet
begin

text \<open>
  The properties of the hash table and of the sets built on it, each with an instance on a concrete
  table, and the runs that show where the code departs from what it means to do.
\<close>

section \<open>Concrete tables\<close>

text \<open>Tables of strings, for the instances below.\<close>

definition string_values :: "string vtype" where
  "string_values = \<lparr>vt_zero = [], vt_any = AString\<rparr>"

text \<open>A table of two buckets that starts to rehash at its second key.\<close>

definition sample_pairs :: "(string \<times> string) list" where
  "sample_pairs = [(''a'', ''1''), (''b'', ''2'')]"

definition sample_table :: "string metered_table go" where
  "sample_table = gobind (NewHashTable 2) (\<lambda>h. put_all (mt_put string_values) sample_pairs (h, 0))"

lemma NewHashTable_mt_rep:
  assumes "0 < n"
  shows "\<exists>h. NewHashTable n = Ret h \<and> mt_rep (h, m) Map.empty"
  using NewHashTable_represents [OF assms] unfolding mt_rep_def fst_conv by blast

lemma sample_table_rep:
  "\<exists>h m d. sample_table = Ret (h, m) \<and> represents h (map_of sample_pairs) d \<and>
     ht_RehashingIdx h = 0 \<and> ht_Size h = 2"
proof -
  obtain h0 where h0: "NewHashTable 2 = Ret h0" "mt_rep (h0, 0) (Map.empty :: string \<rightharpoonup> string)"
    using NewHashTable_mt_rep [of 2 0] by auto
  have "\<exists>s. put_all (mt_put string_values) sample_pairs (h0, 0) = Ret s \<and>
      mt_rep s (Map.empty ++ map_of sample_pairs)"
    by (rule ht.put_all_rep [OF h0(2)]) (simp_all add: sample_pairs_def)
  then obtain s where s: "sample_table = Ret s" "mt_rep s (map_of sample_pairs)"
    using h0(1) by (auto simp: sample_table_def)
  have "gobind sample_table (\<lambda>s. Ret (ht_RehashingIdx (fst s), ht_Size (fst s))) = Ret (0, 2)"
    by code_simp
  then have "ht_RehashingIdx (fst s) = 0" "ht_Size (fst s) = 2" unfolding s(1) by simp_all
  with s show ?thesis unfolding mt_rep_def by (metis prod.collapse)
qed

section \<open>Lookup and update\<close>

text \<open>
  C2: \<open>Set\<close> stores the value: the table then represents the map updated at the key and every later
  lookup says so. It holds in every state of the table for a new key, and for a key that is already
  there only when no rehash goes on or its next step completes it; in the middle of a rehash the update of such a key
  can be lost (see \<open>Set_mid_rehash_loses_update\<close>).
\<close>

lemma Set_updates_map:
  assumes "represents h M d" and "M key = None \<or> rehash_ends h"
  shows "\<exists>h'. ht_Set V key val h m = Ret (h', ht_IncreaseUsedMemory V key val m) \<and>
    represents h' (M(key \<mapsto> val)) d \<and> Get key h' = Ret (Some val) \<and>
    (\<forall>k. k \<noteq> key \<longrightarrow> Get k h' = Get k h)"
proof -
  from ht_Set_represents [OF assms] obtain h' where
    "ht_Set V key val h m = Ret (h', ht_IncreaseUsedMemory V key val m)" "represents h' (M(key \<mapsto> val)) d"
    by blast
  with Get_represents [OF this(2)] Get_represents [OF assms(1)] show ?thesis by simp
qed

lemma Set_updates_map_witness:
  "\<exists>h h'. sample_table = Ret h \<and> ht_Set string_values ''c'' ''3'' (fst h) 0 = Ret h' \<and>
     Get ''c'' (fst h') = Ret (Some ''3'')"
proof -
  obtain h m d where h: "sample_table = Ret (h, m)" "represents h (map_of sample_pairs) d"
    using sample_table_rep by blast
  have "map_of sample_pairs ''c'' = None" by (simp add: sample_pairs_def)
  then show ?thesis
    using h Set_updates_map [OF h(2), of "''c''" string_values "''3''" 0] by force
qed

text \<open>
  C4: \<open>Get\<close> returns what the represented map holds, in every state of the table.
\<close>

lemma Get_reads_map:
  assumes "represents h M d"
  shows "Get key h = Ret (M key)"
  using assms by (rule Get_represents)

lemma Get_reads_map_witness:
  "\<exists>h. sample_table = Ret h \<and> Get ''a'' (fst h) = Ret (Some ''1'') \<and> Get ''z'' (fst h) = Ret None"
proof -
  obtain h m d where h: "sample_table = Ret (h, m)" "represents h (map_of sample_pairs) d"
    using sample_table_rep by blast
  have "map_of sample_pairs ''a'' = Some ''1''" "map_of sample_pairs ''z'' = None"
    by (simp_all add: sample_pairs_def)
  with h show ?thesis
    using Get_reads_map [OF h(2), of "''a''"] Get_reads_map [OF h(2), of "''z''"]
    by (intro exI [of _ "(h, m)"]) simp
qed

text \<open>
  C3: \<open>Delete\<close> removes the key in every state of the table (mid-rehash it looks into both bucket
  arrays), tells whether it was there, releases exactly the memory of the removed entry, and leaves
  \<open>Count\<close> as it was: one more deletion that \<open>Len\<close> does not see.
\<close>

lemma Delete_removes_key:
  assumes "represents h M d"
  shows "\<exists>h'. ht_Delete V key h m = Ret (M key \<noteq> None, h', release V key (M key) m) \<and>
    represents h' (M(key := None)) (d + (if M key = None then 0 else 1)) \<and> ht_Len h' = ht_Len h"
proof -
  from ht_Delete_represents [OF assms] obtain h' where
    "ht_Delete V key h m = Ret (M key \<noteq> None, h', release V key (M key) m)"
    "represents h' (M(key := None)) (d + (if M key = None then 0 else 1))" by blast
  with Delete_keeps_Len [OF assms this(1)] show ?thesis by blast
qed

lemma Delete_removes_key_witness:
  "\<exists>h h' m'. sample_table = Ret h \<and> ht_Delete string_values ''a'' (fst h) 0 = Ret (True, h', m') \<and>
     ht_Len h' = ht_Len (fst h)"
proof -
  obtain h m d where h: "sample_table = Ret (h, m)" "represents h (map_of sample_pairs) d"
    using sample_table_rep by blast
  have "map_of sample_pairs ''a'' = Some ''1''" by (simp add: sample_pairs_def)
  then show ?thesis
    using h Delete_removes_key [OF h(2), of string_values "''a''" 0] by force
qed

text \<open>
  \<open>Len\<close> is the number of keys plus the number of deletions since the table was made.
\<close>

lemma Len_counts_keys:
  assumes "represents h M d"
  shows "finite (dom M) \<and> ht_Len h = int (card (dom M)) + int d"
  using assms by (rule represents_card)

lemma Len_counts_keys_witness:
  "\<exists>h. NewHashTable 16 = Ret (h :: string hashtable) \<and> ht_Len h = 0"
proof -
  obtain h where "NewHashTable 16 = Ret h" and rep: "represents h (Map.empty :: string \<rightharpoonup> string) 0"
    using NewHashTable_represents [of 16] by auto
  with Len_counts_keys [OF rep] show ?thesis by simp
qed

section \<open>Rehashing\<close>

lemma rehashStep_progress_lib:
  assumes "represents h M d" and "0 \<le> ht_RehashingIdx h"
  shows "\<exists>h'. rehashStep h = Ret h' \<and> represents h' M d \<and>
    (if rehash_ends h then ht_RehashingIdx h' = -1 \<and> ht_Size h' = ht_RehashingSize h
     else ht_RehashingIdx h' = ht_RehashingIdx h + int rehashingBuckets \<and> ht_Size h' = ht_Size h)"
proof -
  from rehash_first [OF assms(1)] assms(2) obtain h' where
    run: "rehashStep h = Ret h'" and rep: "represents h' M d" by auto
  from assms(1) obtain A B where sh: "shape h A B" by (auto simp: represents_def)
  from rehash_loop_shape [OF sh assms(2), of rehashingBuckets] obtain h1 where
    loop: "rehash_loop rehashingBuckets h = Ret h1"
    and "ht_Size h1 = ht_Size h" "ht_RehashingSize h1 = ht_RehashingSize h"
    and "ht_RehashingIdx h1 = min (ht_RehashingIdx h + int rehashingBuckets) (ht_Size h)" by blast
  moreover have "h' = rehash_finish h1" using run loop by (simp add: rehashStep_def)
  ultimately show ?thesis
    using run rep assms(2) by (auto simp: rehash_finish_def rehash_ends_def min_def)
qed

text \<open>
  a rehash step keeps the map and makes progress: it moves ten buckets to the new array, or it
  moves the last ones and makes the new array the table.
\<close>

lemma rehashStep_progress:
  assumes "represents h M d" and "0 \<le> ht_RehashingIdx h"
  shows "\<exists>h'. rehashStep h = Ret h' \<and> represents h' M d \<and>
    (if rehash_ends h then ht_RehashingIdx h' = -1 \<and> ht_Size h' = ht_RehashingSize h
     else ht_RehashingIdx h' = ht_RehashingIdx h + int rehashingBuckets \<and> ht_Size h' = ht_Size h)"
  using assms by (rule rehashStep_progress_lib)

lemma rehashStep_progress_witness:
  "\<exists>h h'. sample_table = Ret h \<and> rehashStep (fst h) = Ret h' \<and> ht_RehashingIdx h' = -1"
proof -
  obtain h m d where h: "sample_table = Ret (h, m)" "represents h (map_of sample_pairs) d"
    "ht_RehashingIdx h = 0" "ht_Size h = 2"
    using sample_table_rep by blast
  then show ?thesis
    using rehashStep_progress [OF h(2)] by (force simp: rehash_ends_def rehashingBuckets_def)
qed

text \<open>
  C27: a rehash in progress is completed by at most one step per ten buckets of the old array.
\<close>

primrec rehash_steps :: "nat \<Rightarrow> 'v hashtable \<Rightarrow> 'v hashtable go" where
  "rehash_steps 0 h = Ret h"
| "rehash_steps (Suc n) h =
     (if ht_RehashingIdx h \<ge> 0 then gobind (rehashStep h) (rehash_steps n) else Ret h)"

lemma rehash_completes:
  assumes "represents h M d" and "0 \<le> ht_RehashingIdx h"
    and "ht_Size h \<le> ht_RehashingIdx h + int rehashingBuckets * int n"
  shows "\<exists>h'. rehash_steps n h = Ret h' \<and> represents h' M d \<and> ht_RehashingIdx h' = -1"
  using assms
proof (induction n arbitrary: h)
  case 0
  then show ?case by (auto simp: represents_def)
next
  case (Suc n)
  from rehashStep_progress_lib [OF Suc.prems(1,2)] obtain h1 where
    h1: "rehashStep h = Ret h1" "represents h1 M d"
    and idx: "if rehash_ends h then ht_RehashingIdx h1 = -1 \<and> ht_Size h1 = ht_RehashingSize h
     else ht_RehashingIdx h1 = ht_RehashingIdx h + int rehashingBuckets \<and> ht_Size h1 = ht_Size h"
    by (elim exE conjE)
  show ?case
  proof (cases "rehash_ends h")
    case True
    with h1 idx Suc.prems(2) have "rehash_steps (Suc n) h = Ret h1" by (cases n) simp_all
    with True h1 idx show ?thesis by simp
  next
    case False
    then have "\<exists>h'. rehash_steps n h1 = Ret h' \<and> represents h' M d \<and> ht_RehashingIdx h' = -1"
      using Suc.IH [OF h1(2)] idx Suc.prems by (simp add: algebra_simps)
    with h1(1) Suc.prems(2) show ?thesis by simp
  qed
qed

lemma rehash_completes_witness:
  "\<exists>h h'. sample_table = Ret h \<and> rehash_steps 1 (fst h) = Ret h' \<and> Get ''a'' h' = Ret (Some ''1'')"
proof -
  obtain h m d where h: "sample_table = Ret (h, m)" "represents h (map_of sample_pairs) d"
    "ht_RehashingIdx h = 0" "ht_Size h = 2"
    using sample_table_rep by blast
  obtain h' where h': "rehash_steps 1 h = Ret h'" "represents h' (map_of sample_pairs) d"
    using rehash_completes [OF h(2), of 1] h(3,4) by (auto simp: rehashingBuckets_def)
  have "map_of sample_pairs ''a'' = Some ''1''" by (simp add: sample_pairs_def)
  with h(1) h'(1) Get_represents [OF h'(2), of "''a''"] show ?thesis
    by (intro exI [of _ "(h, m)"] exI [of _ h']) simp
qed

section \<open>Whole runs\<close>

text \<open>
  C28: from an empty table of any positive size, storing any list of pairs with distinct keys, across
  all the rehashes on the way, gives a table that holds exactly these pairs and has charged exactly
  their cost; deleting the keys again empties it and gives all the memory back.
\<close>

lemma table_run:
  assumes "0 < n" and "distinct (map fst kvs)"
  shows "\<exists>h s1 s2. NewHashTable n = Ret h \<and> put_all (mt_put V) kvs (h, m) = Ret s1 \<and>
    (\<forall>k. mt_get k s1 = Ret (map_of kvs k)) \<and>
    snd s1 = m + sum_list (map (\<lambda>(k, v). entry_cost V k v) kvs) \<and>
    del_all (mt_del V) (map fst kvs) s1 = Ret s2 \<and> (\<forall>k. mt_get k s2 = Ret None) \<and> snd s2 = m"
proof -
  obtain h where h: "NewHashTable n = Ret h" and rep: "mt_rep (h, m) (Map.empty :: string \<rightharpoonup> 'a)"
    using NewHashTable_mt_rep [OF assms(1)] by blast
  have fresh: "\<forall>k \<in> fst ` set kvs. (Map.empty :: string \<rightharpoonup> 'a) k = None" by simp
  from ht.put_all_used [OF rep assms(2) fresh, of V] obtain s1 where
    s1: "put_all (mt_put V) kvs (h, m) = Ret s1" "mt_rep s1 (Map.empty ++ map_of kvs)"
    "snd s1 = snd (h, m) + sum_list (map (\<lambda>(k, v). entry_cost V k v) kvs)" by blast
  from ht.del_all_used [OF s1(2) assms(2) fresh, of V] obtain s2 where
    s2: "del_all (mt_del V) (map fst kvs) s1 = Ret s2" "mt_rep s2 (Map.empty :: string \<rightharpoonup> 'a)"
    "snd s2 = snd s1 - sum_list (map (\<lambda>(k, v). entry_cost V k v) kvs)" by blast
  have "\<forall>k. mt_get k s1 = Ret (map_of kvs k)" "\<forall>k. mt_get k s2 = Ret None"
    using ht.get_rep [OF s1(2)] ht.get_rep [OF s2(2)] by simp_all
  with s1 s2 h show ?thesis by - (rule exI [of _ h], rule exI [of _ s1], rule exI [of _ s2], simp)
qed

lemma table_run_witness:
  "\<exists>h s1 s2. NewHashTable 2 = Ret h \<and> put_all (mt_put string_values) sample_pairs (h, 5) = Ret s1 \<and>
     mt_get ''b'' s1 = Ret (Some ''2'') \<and>
     del_all (mt_del string_values) (map fst sample_pairs) s1 = Ret s2 \<and> snd s2 = 5"
proof -
  have "map_of sample_pairs ''b'' = Some ''2''" by (simp add: sample_pairs_def)
  then show ?thesis
    using table_run [of 2 sample_pairs string_values 5] by (force simp: sample_pairs_def)
qed

section \<open>Sampling\<close>

text \<open>
  C30: outside a rehash and for a count that is not negative, \<open>GetSomeKeys\<close> with a random source that goes on drawing every bucket
  returns, and what it returns are distinct keys of the table: as many as were asked for, or all of them.
\<close>

lemma GetSomeKeys_sound:
  assumes "represents h M d" and "ht_RehashingIdx h < 0" and "fair_draws rnd (ht_Size h)" and "0 \<le> cnt"
  shows "\<exists>keys. GetSomeKeys rnd cnt h = Ret keys \<and> distinct keys \<and> set keys \<subseteq> dom M \<and>
    int (length keys) = min cnt (int (card (dom M)))"
  using assms by (rule GetSomeKeys_samples)

lemma GetSomeKeys_sound_witness:
  "\<exists>s keys. gobind (NewHashTable 16) (\<lambda>h. put_all (mt_put string_values) sample_pairs (h, 0)) = Ret s \<and>
     GetSomeKeys (\<lambda>i. int (i mod 16)) 5 (fst s) = Ret keys \<and> set keys = {''a'', ''b''}"
proof -
  obtain h where h: "NewHashTable 16 = Ret h" and rep: "mt_rep (h, 0) (Map.empty :: string \<rightharpoonup> string)"
    using NewHashTable_mt_rep [of 16 0] by auto
  have "\<exists>s. put_all (mt_put string_values) sample_pairs (h, 0) = Ret s \<and>
      mt_rep s (Map.empty ++ map_of sample_pairs)"
    by (rule ht.put_all_rep [OF rep]) (simp_all add: sample_pairs_def)
  then obtain s where s: "gobind (NewHashTable 16) (\<lambda>h. put_all (mt_put string_values) sample_pairs (h, 0)) = Ret s"
    "mt_rep s (map_of sample_pairs)" using h by auto
  then obtain d where d: "represents (fst s) (map_of sample_pairs) d" by (auto simp: mt_rep_def)
  have "gobind (gobind (NewHashTable 16) (\<lambda>h. put_all (mt_put string_values) sample_pairs (h, 0)))
      (\<lambda>s. Ret (ht_RehashingIdx (fst s), ht_Size (fst s))) = Ret (-1, 16)"
    by code_simp
  then have sz: "ht_RehashingIdx (fst s) = -1" "ht_Size (fst s) = 16" unfolding s(1) by simp_all
  have dom: "dom (map_of sample_pairs) = {''a'', ''b''}" by (auto simp: sample_pairs_def)
  obtain keys where keys: "GetSomeKeys (\<lambda>i. int (i mod 16)) 5 (fst s) = Ret keys" "distinct keys"
    "set keys \<subseteq> {''a'', ''b''}" "length keys = 2"
    using GetSomeKeys_sound [OF d, of "\<lambda>i. int (i mod 16)" 5] fair_round_robin [of 16] sz dom by auto
  then have "set keys = {''a'', ''b''}"
    by (intro card_subset_eq) (simp_all add: distinct_card)
  with s(1) keys(1) show ?thesis by blast
qed

section \<open>Raw insertion\<close>

text \<open>
  outside a rehash, \<open>AddRaw\<close> makes the key present (with the zero value when it was new) and
  \<open>SetVal\<close> on the entry it returned stores the value; but the key is reported as already there as
  soon as any key is in its bucket.
\<close>

lemma AddRaw_then_SetVal:
  assumes "represents h M d" and "ht_RehashingIdx h < 0"
  shows "\<exists>e h'. AddRaw V key h m = Ret (e, bucket_used h M key, h',
      if M key = None then IncreaseUsedMemory (AString key) m else m) \<and>
    GetVal V (Some e) h' = (case M key of None \<Rightarrow> vt_zero V | Some v \<Rightarrow> v) \<and>
    represents (fst (SetVal V (Some e) val h' m')) (M(key \<mapsto> val)) d"
proof -
  from AddRaw_represents [OF assms] obtain e h' where
    run: "AddRaw V key h m = Ret (e, bucket_used h M key, h',
      if M key = None then IncreaseUsedMemory (AString key) m else m)"
    and rep: "rep_entry h' (if M key = None then M(key \<mapsto> vt_zero V) else M) d key e" by blast
  have "represents (fst (SetVal V (Some e) val h' m'))
      ((if M key = None then M(key \<mapsto> vt_zero V) else M)(key \<mapsto> val)) d"
    by (rule rep_entry_represents [OF SetVal_rep_entry [OF rep]])
  then have "represents (fst (SetVal V (Some e) val h' m')) (M(key \<mapsto> val)) d"
    by (simp split: if_splits)
  moreover have "GetVal V (Some e) h' = (case M key of None \<Rightarrow> vt_zero V | Some v \<Rightarrow> v)"
    using GetVal_rep_entry [OF rep, of V] by (auto split: if_splits option.splits)
  ultimately show ?thesis using run by blast
qed

lemma AddRaw_then_SetVal_witness:
  "\<exists>h e b h' m'. NewHashTable 16 = Ret h \<and> AddRaw string_values ''a'' h 0 = Ret (e, b, h', m') \<and>
     GetVal string_values (Some e) h' = []"
proof -
  obtain h where h: "NewHashTable 16 = Ret h" "represents h (Map.empty :: string \<rightharpoonup> string) 0"
    "ht_RehashingIdx h = -1" using NewHashTable_represents [of 16] by auto
  from AddRaw_then_SetVal [OF h(2), where V = string_values and key = "''a''"
    and m = 0 and val = "[]" and m' = 0] h(3) obtain e b h' m' where
    "AddRaw string_values ''a'' h 0 = Ret (e, b, h', m')" "GetVal string_values (Some e) h' = vt_zero string_values"
    unfolding option.case by auto
  with h(1) show ?thesis
    by - (rule exI [of _ h], rule exI [of _ e], rule exI [of _ b], rule exI [of _ h'],
      rule exI [of _ m'], simp add: string_values_def)
qed

primrec add_raw_all ::
  "'v vtype \<Rightarrow> string list \<Rightarrow> 'v metered_table \<Rightarrow> 'v metered_table go" where
  "add_raw_all V [] s = Ret s"
| "add_raw_all V (k # ks) s =
     gobind (AddRaw V k (fst s) (snd s)) (\<lambda>(_, _, h, m). add_raw_all V ks (h, m))"

text \<open>A chain that runs into an entry that is its own successor never ends a failing search.\<close>

lemma chain_find_returns:
  assumes "chain_find es key p = Some y"
  shows "ent_Next (es ! a) = Some a \<longrightarrow> key_of es a \<noteq> key \<longrightarrow> p \<noteq> Some a"
proof (rule chain_find.raw_induct [where
      P = "\<lambda>es key p y. ent_Next (es ! a) = Some a \<longrightarrow> key_of es a \<noteq> key \<longrightarrow> p \<noteq> Some a", OF _ assms])
  fix f :: "'a entry list \<Rightarrow> string \<Rightarrow> nat option \<Rightarrow> (panic + nat option) option" and es key p y
  assume "\<And>es key p y. f es key p = Some y \<Longrightarrow>
      ent_Next (es ! a) = Some a \<longrightarrow> key_of es a \<noteq> key \<longrightarrow> p \<noteq> Some a"
    and "(case p of None \<Rightarrow> Ret None
      | Some a \<Rightarrow> if key_of es a = key then Ret (Some a) else f es key (ent_Next (es ! a))) = Some y"
  then show "ent_Next (es ! a) = Some a \<longrightarrow> key_of es a \<noteq> key \<longrightarrow> p \<noteq> Some a"
    by (auto split: option.splits if_splits)
qed

lemma chain_find_self_loop:
  assumes "ent_Next (es ! a) = Some a" and "key_of es a \<noteq> key"
  shows "chain_find es key (Some a) = Diverges"
proof (cases "chain_find es key (Some a)")
  case (Some y)
  from chain_find_returns [OF this, of a] assms show ?thesis by blast
qed

text \<open>
  raw insertion in the middle of a rehash links the new entry into both bucket arrays, and the
  migration of the old one makes the entry its own successor: after fourteen raw insertions of
  distinct keys into a table of the size of a database, a lookup of an absent key never returns
  (and \<open>Len\<close> is 15).
\<close>

lemma AddRaw_mid_rehash_loops:
  "\<exists>s. gobind (NewHashTable 16) (\<lambda>h. add_raw_all string_values
       (map (\<lambda>c. [c]) ''abcdefghijklop'') (h, 0)) = Ret s \<and>
     ht_Len (fst s) = 15 \<and> Get ''O'' (fst s) = Diverges"
proof -
  let ?run = "gobind (NewHashTable 16) (\<lambda>h. add_raw_all string_values
       (map (\<lambda>c. [c]) ''abcdefghijklop'') (h, 0))"
  have run: "gobind ?run (\<lambda>s. Ret (ht_RehashingIdx (fst s), ht_Size (fst s), ht_Len (fst s),
      length (ht_Table (fst s)), ht_Table (fst s) ! 30, ht_Entries (fst s) ! 12)) =
    Ret (-1, 32, 15, 32, Some 12, \<lparr>ent_Key = ''o'', ent_Value = [], ent_Next = Some 12\<rparr>)"
    by code_simp
  then obtain s where s: "?run = Ret s" by (auto simp: gobind_Ret_iff)
  have st: "ht_RehashingIdx (fst s) = -1" "ht_Size (fst s) = 32" "ht_Len (fst s) = 15"
    "length (ht_Table (fst s)) = 32" "ht_Table (fst s) ! 30 = Some 12"
    "ht_Entries (fst s) ! 12 = \<lparr>ent_Key = ''o'', ent_Value = [], ent_Next = Some 12\<rparr>"
    using run unfolding s by simp_all
  have hash: "Hash ''O'' 32 = Ret 30" by code_simp
  have "chain_find (ht_Entries (fst s)) ''O'' (Some 12) = Diverges"
    by (rule chain_find_self_loop) (simp_all add: st)
  with st hash have "Get ''O'' (fst s) = Diverges"
    by (simp add: Get_def GetEntry_def slice_get_def)
  with s st show ?thesis by blast
qed

section \<open>A lost update\<close>

text \<open>
  \<open>Set\<close> on a key that the rehash in progress has not moved yet adds a second entry to the new
  array; the next step moves the old entry in front of it, and the old value is back.
\<close>

lemma Set_mid_rehash_loses_update:
  "gobind (NewHashTable 16) (\<lambda>h.
   gobind (put_all (mt_put string_values) (map (\<lambda>c. ([c], ''old'')) ''abcdefghijkl'') (h, 0)) (\<lambda>s1.
   gobind (mt_put string_values ''a'' ''new'' s1) (\<lambda>s2.
   gobind (mt_get ''a'' s2) (\<lambda>r2.
   gobind (mt_put string_values ''z'' ''other'' s2) (\<lambda>s3.
   gobind (mt_get ''a'' s3) (\<lambda>r3.
     Ret (r2, r3))))))) = Ret (Some ''new'', Some ''old'')"
  by code_simp

section \<open>Sets\<close>

text \<open>
  a set tells exactly the keys that were added and not removed since: \<open>Add\<close> of a new key and
  \<open>Remove\<close> in every state of its table, and both leave the other keys alone.
\<close>

lemma set_Add_Remove:
  assumes "set_rep s X" and "k \<notin> X"
  shows "\<exists>s1 m1 s2 m2. set_Add k s m = Ret (s1, m1) \<and> set_rep s1 (insert k X) \<and>
    (\<forall>x. set_Contains x s1 = Ret (x \<in> insert k X)) \<and>
    set_Remove k s1 m1 = Ret (s2, m2) \<and> set_rep s2 X \<and> (\<forall>x. set_Contains x s2 = Ret (x \<in> X))"
proof -
  let ?m = "ht_IncreaseUsedMemory sentinel k () m"
  from set_Add_rep [OF assms(1), of k m] assms(2) obtain s1 where
    s1: "set_Add k s m = Ret (s1, ?m)" "set_rep s1 (insert k X)" by blast
  from set_Remove_rep [OF s1(2), of k ?m] obtain s2 m2 where
    s2: "set_Remove k s1 ?m = Ret (s2, m2)" "set_rep s2 (insert k X - {k})" by blast
  from assms(2) s2(2) have rep2: "set_rep s2 X" by simp
  from s1 s2(1) rep2 set_Contains_rep [OF s1(2)] set_Contains_rep [OF rep2] show ?thesis
    by (metis (mono_tags, lifting))
qed

lemma NewSet_rep: "\<exists>s. NewSet 16 = Ret s \<and> set_rep s {}"
proof -
  obtain h where "NewHashTable 16 = Ret h" "mt_rep (h, 0) (Map.empty :: string \<rightharpoonup> unit)"
    using NewHashTable_mt_rep [of 16 0] by auto
  then show ?thesis by (auto simp: NewSet_def set_rep_def intro: exI [of _ Map.empty])
qed

lemma set_Add_Remove_witness:
  "\<exists>s s1 m1 s2 m2. NewSet 16 = Ret s \<and> set_Add ''k'' s 0 = Ret (s1, m1) \<and>
     set_Contains ''k'' s1 = Ret True \<and> set_Remove ''k'' s1 m1 = Ret (s2, m2) \<and>
     set_Contains ''k'' s2 = Ret False"
proof -
  from NewSet_rep obtain s where s: "NewSet 16 = Ret s" "set_rep s {}" by blast
  from set_Add_Remove [OF s(2), of "''k''" 0] obtain s1 m1 s2 m2 where
    "set_Add ''k'' s 0 = Ret (s1, m1)" "\<forall>x. set_Contains x s1 = Ret (x \<in> {''k''})"
    "set_Remove ''k'' s1 m1 = Ret (s2, m2)" "\<forall>x. set_Contains x s2 = Ret (x \<in> {})" by auto
  with s(1) show ?thesis
    by - (rule exI [of _ s], rule exI [of _ s1], rule exI [of _ m1], rule exI [of _ s2],
      rule exI [of _ m2], simp)
qed

end
