(* ===== verification/RedisDb.thy ===== *)
theory RedisDb
  imports GoSet
begin

text \<open>
  \<open>src/db/types.go\<close> and \<open>src/db/db.go\<close>: objects, the keyspace of a database with its expire times, and
  the LRU clock of \<open>src/db/lru.go\<close> and \<open>src/db/evict.go\<close> that the keyspace stamps on its objects. Objects
  are shared by pointer between the keyspace and its callers, so they live in a store: a pointer to
  an object is an index into \<open>st_objs\<close>, and nil is \<open>None\<close>.
\<close>

section \<open>Objects\<close>

datatype ObjectType = StringType | ListType | SetType | ZSetType | HashType | StreamType

datatype EncodingType =
    EncodingRaw | EncodingInt | EncodingHT | EncodingZipMap | EncodingLinkedList | EncodingZipList
  | EncodingIntSet | EncodingSkipList | EncodingEmbStr | EncodingQuickList | EncodingStream
  | EncodingListPack

record redisObj =
  obj_Type :: ObjectType
  obj_Encoding :: EncodingType
  obj_LRU :: int64
  obj_Value :: goany

type_synonym objptr = "nat option"

definition NewRedisObj :: "ObjectType \<Rightarrow> EncodingType \<Rightarrow> goany \<Rightarrow> int64 \<Rightarrow> redisObj" where
  "NewRedisObj tp enc v lru = \<lparr>obj_Type = tp, obj_Encoding = enc, obj_LRU = lru, obj_Value = v\<rparr>"

definition GetObjType :: "redisObj \<Rightarrow> ObjectType" where
  "GetObjType ro = obj_Type ro"

definition EncodingObject :: "redisObj \<Rightarrow> bool" where
  "EncodingObject ro \<longleftrightarrow> obj_Encoding ro = EncodingRaw \<or> obj_Encoding ro = EncodingEmbStr"

section \<open>The database and its store\<close>

record redisDb =
  db_dict :: "objptr hashtable"
  db_expire :: "uint64 hashtable"
  db_id :: uint64
  db_avgTTL :: uint64
  db_StatKeySpaceHits :: uint64
  db_StatKeySpaceMisses :: uint64

record store =
  st_db :: redisDb
  st_objs :: "redisObj list"
  st_mem :: int64

text \<open>What the tables need of their value types: pointers and \<open>uint64\<close> are estimated as 0 bytes.\<close>

definition objptr_type :: "objptr vtype" where
  "objptr_type = \<lparr>vt_zero = None, vt_any = (\<lambda>_. AOther)\<rparr>"

definition uint64_type :: "uint64 vtype" where
  "uint64_type = \<lparr>vt_zero = 0, vt_any = AUint64\<rparr>"

definition INITIAL_DB_SIZE :: int where
  "INITIAL_DB_SIZE = 16"

definition New :: "uint64 \<Rightarrow> redisDb go" where
  "New ident = gobind (NewHashTable INITIAL_DB_SIZE) (\<lambda>d. gobind (NewHashTable INITIAL_DB_SIZE) (\<lambda>e.
     Ret \<lparr>db_dict = d, db_expire = e, db_id = ident, db_avgTTL = 0, db_StatKeySpaceHits = 0,
          db_StatKeySpaceMisses = 0\<rparr>))"

text \<open>Reading and writing through an object pointer.\<close>

definition deref :: "redisObj list \<Rightarrow> objptr \<Rightarrow> redisObj go" where
  "deref objs p =
     (case p of None \<Rightarrow> Panics NilDeref
      | Some a \<Rightarrow> if a < length objs then Ret (objs ! a) else Panics NilDeref)"

definition set_LRU :: "objptr \<Rightarrow> int64 \<Rightarrow> store \<Rightarrow> store go" where
  "set_LRU p lru st =
     gobind (deref (st_objs st) p)
       (\<lambda>o1. Ret (st\<lparr>st_objs := (st_objs st)[the p := o1\<lparr>obj_LRU := lru\<rparr>]\<rparr>))"

section \<open>The LRU clock\<close>

definition LRU_BITS :: nat where
  "LRU_BITS = 24"

definition LRU_CLOCK_RESOLUTION :: int64 where
  "LRU_CLOCK_RESOLUTION = 1000"

definition LRU_CLOCK_MAX :: int64 where
  "LRU_CLOCK_MAX = push_bit LRU_BITS 1 - 1"

text \<open>\<open>now\<close> is what \<open>mstime()\<close> returns: the time in milliseconds, not negative.\<close>

definition getLRUClock :: "int64 \<Rightarrow> int64" where
  "getLRUClock now = (now div LRU_CLOCK_RESOLUTION) AND LRU_CLOCK_MAX"

definition lruClock :: "int64 \<Rightarrow> int \<Rightarrow> int64 \<Rightarrow> int64 go" where
  "lruClock now hz srvClock =
     (if hz = 0 then Panics DivideByZero
      else if sgn hz * (1000 div \<bar>hz\<bar>) \<le> sint LRU_CLOCK_RESOLUTION then Ret srvClock
      else Ret (getLRUClock now))"

definition initObjectLRUOrLFU :: "int64 \<Rightarrow> objptr \<Rightarrow> store \<Rightarrow> store go" where
  "initObjectLRUOrLFU now p st = gobind (lruClock now 100 100) (\<lambda>c. set_LRU p c st)"

section \<open>Flags\<close>

definition LookupNone :: "8 word" where "LookupNone = 1"
definition LookupNoTouch :: "8 word" where "LookupNoTouch = 2"
definition LookupNoNotify :: "8 word" where "LookupNoNotify = 4"
definition LookupNoStats :: "8 word" where "LookupNoStats = 8"
definition LookupWrite :: "8 word" where "LookupWrite = 16"
definition LookupNoExpire :: "8 word" where "LookupNoExpire = 32"

definition LookupNoEffects :: "8 word" where
  "LookupNoEffects = LookupNoNotify OR LookupNoStats OR LookupNoTouch OR LookupNoExpire"

definition SetKeyKeepTTL :: "8 word" where "SetKeyKeepTTL = 1"
definition SetKeyNoSignal :: "8 word" where "SetKeyNoSignal = 2"
definition SetKeyAlreadyExists :: "8 word" where "SetKeyAlreadyExists = 4"
definition SetKeyDoesNotExist :: "8 word" where "SetKeyDoesNotExist = 8"
definition SetKeyAddOrUpdated :: "8 word" where "SetKeyAddOrUpdated = 16"

section \<open>Lookup\<close>

definition count_hit :: "store \<Rightarrow> store" where
  "count_hit st = st\<lparr>st_db := (st_db st)\<lparr>db_StatKeySpaceHits := db_StatKeySpaceHits (st_db st) + 1\<rparr>\<rparr>"

definition count_miss :: "store \<Rightarrow> store" where
  "count_miss st = st\<lparr>st_db := (st_db st)\<lparr>db_StatKeySpaceMisses := db_StatKeySpaceMisses (st_db st) + 1\<rparr>\<rparr>"

definition lookupKey :: "int64 \<Rightarrow> string \<Rightarrow> 8 word \<Rightarrow> store \<Rightarrow> ((objptr \<times> bool) \<times> store) go" where
  "lookupKey now key flags st =
     gobind (Get key (db_dict (st_db st))) (\<lambda>r.
       case r of
         Some val \<Rightarrow>
           gobind (if flags AND LookupNoTouch = 0
                   then gobind (lruClock now 100 100) (\<lambda>c. set_LRU val c st)
                   else Ret st) (\<lambda>st1.
             Ret ((val, True),
                  if flags AND (LookupNoStats OR LookupWrite) = 0 then count_hit st1 else st1))
       | None \<Rightarrow>
           Ret ((None, False),
                if flags AND (LookupNoStats OR LookupWrite) = 0 then count_miss st else st))"

definition lookupKeyWriteWithFlags :: "int64 \<Rightarrow> string \<Rightarrow> 8 word \<Rightarrow> store \<Rightarrow> ((objptr \<times> bool) \<times> store) go" where
  "lookupKeyWriteWithFlags now key flags st = lookupKey now key (flags OR LookupWrite) st"

definition LookupKeyWrite :: "int64 \<Rightarrow> string \<Rightarrow> store \<Rightarrow> ((objptr \<times> bool) \<times> store) go" where
  "LookupKeyWrite now key st = lookupKeyWriteWithFlags now key LookupNone st"

definition lookupKeyReadWithFlags :: "int64 \<Rightarrow> string \<Rightarrow> 8 word \<Rightarrow> store \<Rightarrow> ((objptr \<times> bool) \<times> store) go" where
  "lookupKeyReadWithFlags now key flags st = lookupKey now key flags st"

definition LookupKeyRead :: "int64 \<Rightarrow> string \<Rightarrow> store \<Rightarrow> ((objptr \<times> bool) \<times> store) go" where
  "LookupKeyRead now key st = lookupKeyReadWithFlags now key LookupNone st"

section \<open>Writing a key\<close>

definition dict_SetVal :: "nat option \<Rightarrow> objptr \<Rightarrow> store \<Rightarrow> store" where
  "dict_SetVal e val st =
     (let (h, m) = SetVal objptr_type e val (db_dict (st_db st)) (st_mem st)
      in st\<lparr>st_db := (st_db st)\<lparr>db_dict := h\<rparr>, st_mem := m\<rparr>)"

definition setValue :: "string \<Rightarrow> objptr \<Rightarrow> nat option \<Rightarrow> store \<Rightarrow> store go" where
  "setValue key val entry st =
     gobind (case entry of
               None \<Rightarrow> GetEntry key (db_dict (st_db st))
             | Some e \<Rightarrow> Ret (Some e)) (\<lambda>entry'.
     let old = GetVal objptr_type entry' (db_dict (st_db st)) in
     gobind (deref (st_objs st) old) (\<lambda>o1.
     gobind (set_LRU val (obj_LRU o1) st) (\<lambda>st1.
       Ret (dict_SetVal entry' val st1))))"

definition addInternal :: "int64 \<Rightarrow> string \<Rightarrow> objptr \<Rightarrow> bool \<Rightarrow> store \<Rightarrow> store go" where
  "addInternal now key val updateIfExist st =
     gobind (AddRaw objptr_type key (db_dict (st_db st)) (st_mem st)) (\<lambda>(de, exist, h, m).
       let st1 = st\<lparr>st_db := (st_db st)\<lparr>db_dict := h\<rparr>, st_mem := m\<rparr> in
       if exist \<and> updateIfExist then setValue key val (Some de) st1
       else gobind (initObjectLRUOrLFU now val st1) (\<lambda>st2. Ret (dict_SetVal (Some de) val st2)))"

definition add :: "int64 \<Rightarrow> string \<Rightarrow> objptr \<Rightarrow> store \<Rightarrow> store go" where
  "add now key val st = addInternal now key val False st"

section \<open>Expire times\<close>

text \<open>\<open>int64(when)\<close> keeps the 64 bits.\<close>

definition GetExpire :: "string \<Rightarrow> store \<Rightarrow> int64 go" where
  "GetExpire key st =
     (if ht_Empty (db_expire (st_db st)) then Ret (- 1)
      else gobind (Get key (db_expire (st_db st))) (\<lambda>r.
             case r of None \<Rightarrow> Ret (- 1) | Some when \<Rightarrow> Ret when))"

definition SetExpire :: "string \<Rightarrow> uint64 \<Rightarrow> store \<Rightarrow> store go" where
  "SetExpire key expire st =
     gobind (Get key (db_dict (st_db st))) (\<lambda>r.
       if r = None then Ret st
       else gobind (ht_Set uint64_type key expire (db_expire (st_db st)) (st_mem st)) (\<lambda>(h, m).
              Ret (st\<lparr>st_db := (st_db st)\<lparr>db_expire := h\<rparr>, st_mem := m\<rparr>)))"

definition expire_Delete :: "string \<Rightarrow> store \<Rightarrow> store go" where
  "expire_Delete key st =
     gobind (ht_Delete uint64_type key (db_expire (st_db st)) (st_mem st)) (\<lambda>(_, h, m).
       Ret (st\<lparr>st_db := (st_db st)\<lparr>db_expire := h\<rparr>, st_mem := m\<rparr>))"

definition RmExpire :: "string \<Rightarrow> store \<Rightarrow> store go" where
  "RmExpire key st =
     gobind (Get key (db_dict (st_db st))) (\<lambda>r. if r = None then Ret st else expire_Delete key st)"

definition GenericDelete :: "string \<Rightarrow> store \<Rightarrow> (bool \<times> store) go" where
  "GenericDelete key st =
     gobind (ht_Delete objptr_type key (db_dict (st_db st)) (st_mem st)) (\<lambda>(exist, h, m).
       let st1 = st\<lparr>st_db := (st_db st)\<lparr>db_dict := h\<rparr>, st_mem := m\<rparr> in
       if \<not> exist then Ret (False, st1)
       else gobind (expire_Delete key st1) (\<lambda>st2. Ret (True, st2)))"

section \<open>SetKey\<close>

text \<open>The first switch: 1 for a key that is there, 0 for a new one, -1 for either.\<close>

definition key_found :: "int64 \<Rightarrow> string \<Rightarrow> 8 word \<Rightarrow> store \<Rightarrow> (int \<times> store) go" where
  "key_found now key flags st =
     (if flags AND SetKeyAlreadyExists \<noteq> 0 then Ret (1, st)
      else if flags AND SetKeyAddOrUpdated \<noteq> 0 then Ret (-1, st)
      else if flags AND SetKeyDoesNotExist = 0 then
        gobind (LookupKeyWrite now key st) (\<lambda>((_, exist), st1). Ret (if exist then 1 else 0, st1))
      else Ret (0, st))"

definition SetKey :: "int64 \<Rightarrow> string \<Rightarrow> objptr \<Rightarrow> 8 word \<Rightarrow> store \<Rightarrow> store go" where
  "SetKey now key val flags st =
     gobind (key_found now key flags st) (\<lambda>(keyFound, st1).
     gobind (if keyFound = 0 then add now key val st1
             else if keyFound = -1 then addInternal now key val True st1
             else setValue key val None st1) (\<lambda>st2.
       if flags AND SetKeyKeepTTL = 0 then RmExpire key st2 else Ret st2))"

end
