(* ===== verification/RedisDb_Refine.thy ===== *)
theory RedisDb_Refine
  imports RedisDb
begin

text \<open>
  The keyspace implements two finite maps: \<open>db_rep st D E\<close> says that the dictionary of the database
  stores the object pointers \<open>D\<close>, all of them valid, and that its expire table stores the times \<open>E\<close>.
  Each operation of \<open>RedisDb\<close> is a step on \<open>D\<close> and \<open>E\<close>.
\<close>

section \<open>Objects and pointers\<close>

definition valid_ptr :: "redisObj list \<Rightarrow> objptr \<Rightarrow> bool" where
  "valid_ptr objs p \<longleftrightarrow> (\<exists>a. p = Some a \<and> a < length objs)"

text \<open>What an object says, its access time aside.\<close>

definition content :: "redisObj \<Rightarrow> ObjectType \<times> EncodingType \<times> goany" where
  "content o1 = (obj_Type o1, obj_Encoding o1, obj_Value o1)"

definition contents :: "redisObj list \<Rightarrow> (ObjectType \<times> EncodingType \<times> goany) list" where
  "contents objs = map content objs"

lemma contents_length: "contents objs = contents objs' \<Longrightarrow> length objs = length objs'"
  by (metis contents_def length_map)

lemma valid_ptr_contents:
  assumes "contents objs = contents objs'"
  shows "valid_ptr objs p \<longleftrightarrow> valid_ptr objs' p"
  using contents_length [OF assms] by (simp add: valid_ptr_def)

lemma contents_set_LRU [simp]: "contents (objs[a := (objs ! a)\<lparr>obj_LRU := l\<rparr>]) = contents objs"
proof (cases "a < length objs")
  case True
  then have "contents objs ! a = content ((objs ! a)\<lparr>obj_LRU := l\<rparr>)" by (simp add: contents_def content_def)
  then show ?thesis by (metis contents_def list_update_id map_update)
qed (simp add: list_update_beyond)

lemma deref_valid: "valid_ptr objs p \<Longrightarrow> deref objs p = Ret (objs ! the p)"
  by (auto simp: valid_ptr_def deref_def)

definition touched :: "objptr \<Rightarrow> int64 \<Rightarrow> store \<Rightarrow> store" where
  "touched p l st = st\<lparr>st_objs := (st_objs st)[the p := (st_objs st ! the p)\<lparr>obj_LRU := l\<rparr>]\<rparr>"

lemma set_LRU_valid: "valid_ptr (st_objs st) p \<Longrightarrow> set_LRU p l st = Ret (touched p l st)"
  by (simp add: set_LRU_def deref_valid touched_def)

lemma touched_simps [simp]:
  "st_db (touched p l st) = st_db st"
  "st_mem (touched p l st) = st_mem st"
  "contents (st_objs (touched p l st)) = contents (st_objs st)"
  "length (st_objs (touched p l st)) = length (st_objs st)"
  by (simp_all add: touched_def)

lemma valid_touched [simp]: "valid_ptr (st_objs (touched p l st)) q \<longleftrightarrow> valid_ptr (st_objs st) q"
  by (simp add: valid_ptr_def)

text \<open>With the frequency the keyspace passes, the clock is the precomputed value.\<close>

lemma lruClock_100 [simp]: "lruClock now 100 100 = Ret 100"
proof -
  have "sint LRU_CLOCK_RESOLUTION = 1000" by (simp add: LRU_CLOCK_RESOLUTION_def)
  then show ?thesis by (simp add: lruClock_def)
qed

section \<open>The abstraction\<close>

definition db_rep :: "store \<Rightarrow> (string \<rightharpoonup> objptr) \<Rightarrow> (string \<rightharpoonup> uint64) \<Rightarrow> bool" where
  "db_rep st D E \<longleftrightarrow>
     (\<exists>d. represents (db_dict (st_db st)) D d) \<and> (\<exists>d. represents (db_expire (st_db st)) E d) \<and>
     (\<forall>k p. D k = Some p \<longrightarrow> valid_ptr (st_objs st) p)"

lemma db_rep_change:
  assumes "db_rep st D E" and "db_dict (st_db st') = db_dict (st_db st)"
    and "db_expire (st_db st') = db_expire (st_db st)" and "contents (st_objs st') = contents (st_objs st)"
  shows "db_rep st' D E"
  using assms valid_ptr_contents [OF assms(4)] by (simp add: db_rep_def)

lemma db_rep_Get: "db_rep st D E \<Longrightarrow> Get key (db_dict (st_db st)) = Ret (D key)"
  by (auto simp: db_rep_def Get_represents)

lemma db_rep_Get_expire: "db_rep st D E \<Longrightarrow> Get key (db_expire (st_db st)) = Ret (E key)"
  by (auto simp: db_rep_def Get_represents)

lemma New_rep:
  "\<exists>db. New ident = Ret db \<and> db_rep \<lparr>st_db = db, st_objs = objs, st_mem = m\<rparr> Map.empty Map.empty \<and>
     ht_RehashingIdx (db_dict db) = -1 \<and> ht_RehashingIdx (db_expire db) = -1"
proof -
  obtain d where d: "NewHashTable INITIAL_DB_SIZE = Ret d" "represents d (Map.empty :: string \<rightharpoonup> objptr) 0"
    "ht_RehashingIdx d = -1" using NewHashTable_represents [of INITIAL_DB_SIZE] by (auto simp: INITIAL_DB_SIZE_def)
  obtain e where e: "NewHashTable INITIAL_DB_SIZE = Ret e" "represents e (Map.empty :: string \<rightharpoonup> uint64) 0"
    "ht_RehashingIdx e = -1" using NewHashTable_represents [of INITIAL_DB_SIZE] by (auto simp: INITIAL_DB_SIZE_def)
  have "(\<exists>n. represents d (Map.empty :: string \<rightharpoonup> objptr) n) \<and> (\<exists>n. represents e (Map.empty :: string \<rightharpoonup> uint64) n)"
    using d(2) e(2) by blast
  then show ?thesis using d(1,3) e(1,3) by (simp add: New_def db_rep_def)
qed

section \<open>Lookup\<close>

definition counts_stats :: "8 word \<Rightarrow> bool" where
  "counts_stats flags \<longleftrightarrow> flags AND (LookupNoStats OR LookupWrite) = 0"

lemma lookupKey_rep:
  assumes rep: "db_rep st D E"
  shows "\<exists>st'. lookupKey now key flags st =
      Ret (case D key of None \<Rightarrow> (None, False) | Some p \<Rightarrow> (p, True), st') \<and>
    db_rep st' D E \<and> contents (st_objs st') = contents (st_objs st) \<and> st_mem st' = st_mem st \<and>
    db_dict (st_db st') = db_dict (st_db st) \<and> db_expire (st_db st') = db_expire (st_db st) \<and>
    db_StatKeySpaceHits (st_db st') =
      db_StatKeySpaceHits (st_db st) + (if counts_stats flags \<and> D key \<noteq> None then 1 else 0) \<and>
    db_StatKeySpaceMisses (st_db st') =
      db_StatKeySpaceMisses (st_db st) + (if counts_stats flags \<and> D key = None then 1 else 0)"
proof (cases "D key")
  case None
  let ?st = "if counts_stats flags then count_miss st else st"
  have "lookupKey now key flags st = Ret ((None, False), ?st)"
    using None by (simp add: lookupKey_def db_rep_Get [OF rep] counts_stats_def)
  moreover have "db_rep ?st D E" by (rule db_rep_change [OF rep]) (simp_all add: count_miss_def)
  ultimately show ?thesis using None by (simp add: count_miss_def)
next
  case (Some p)
  have val: "valid_ptr (st_objs st) p" using rep Some by (auto simp: db_rep_def)
  let ?st1 = "if flags AND LookupNoTouch = 0 then touched p 100 st else st"
  let ?st = "if counts_stats flags then count_hit ?st1 else ?st1"
  have "lookupKey now key flags st = Ret ((p, True), ?st)"
    using Some by (simp add: lookupKey_def db_rep_Get [OF rep] counts_stats_def set_LRU_valid [OF val])
  moreover have "db_rep ?st D E" by (rule db_rep_change [OF rep]) (simp_all add: count_hit_def)
  ultimately show ?thesis using Some by (simp add: count_hit_def)
qed

section \<open>Writing a key\<close>

lemma dict_SetVal_rep:
  assumes ent: "rep_entry (db_dict (st_db st)) D d key e" and exp: "represents (db_expire (st_db st)) E d'"
    and val: "valid_ptr (st_objs st) val"
    and others: "\<And>k p. k \<noteq> key \<Longrightarrow> D k = Some p \<Longrightarrow> valid_ptr (st_objs st) p"
  shows "db_rep (dict_SetVal (Some e) val st) (D(key \<mapsto> val)) E"
proof -
  have "represents (db_dict (st_db (dict_SetVal (Some e) val st))) (D(key \<mapsto> val)) d"
    using rep_entry_represents [OF SetVal_rep_entry [OF ent, of objptr_type val "st_mem st"]]
    by (simp add: dict_SetVal_def case_prod_beta)
  then show ?thesis
    using exp val others unfolding db_rep_def
    by (auto simp: dict_SetVal_def case_prod_beta)
qed

lemma dict_SetVal_simps [simp]:
  "st_objs (dict_SetVal e val st) = st_objs st"
  "db_expire (st_db (dict_SetVal e val st)) = db_expire (st_db st)"
  by (simp_all add: dict_SetVal_def split: prod.split)

lemma setValue_rep:
  assumes rep: "db_rep st D E" and here: "D key = Some p" and val: "valid_ptr (st_objs st) val"
  shows "\<exists>st'. setValue key val None st = Ret st' \<and> db_rep st' (D(key \<mapsto> val)) E \<and>
    contents (st_objs st') = contents (st_objs st) \<and>
    obj_LRU (st_objs st' ! the val) = obj_LRU (st_objs st ! the p) \<and>
    db_expire (st_db st') = db_expire (st_db st)"
proof -
  from rep obtain d d' where rd: "represents (db_dict (st_db st)) D d"
    and re: "represents (db_expire (st_db st)) E d'" by (auto simp: db_rep_def)
  obtain e where e: "GetEntry key (db_dict (st_db st)) = Ret (Some e)"
    and ent: "rep_entry (db_dict (st_db st)) D d key e"
    using GetEntry_rep_entry [OF rd, of key] here by (auto split: option.splits)
  have old: "GetVal objptr_type (Some e) (db_dict (st_db st)) = p"
    using GetVal_rep_entry [OF ent, of objptr_type] here by simp
  have vp: "valid_ptr (st_objs st) p" using rep here by (auto simp: db_rep_def)
  let ?st = "touched val (obj_LRU (st_objs st ! the p)) st"
  have run: "setValue key val None st = Ret (dict_SetVal (Some e) val ?st)"
    by (simp add: setValue_def e old deref_valid [OF vp] set_LRU_valid [OF val])
  have "db_rep (dict_SetVal (Some e) val ?st) (D(key \<mapsto> val)) E"
    by (rule dict_SetVal_rep [where d = d and d' = d']) (use ent re val rep in \<open>auto simp: db_rep_def\<close>)
  with run val show ?thesis by (auto simp: touched_def valid_ptr_def)
qed

lemma add_rep:
  assumes rep: "db_rep st D E" and idx: "ht_RehashingIdx (db_dict (st_db st)) < 0"
    and val: "valid_ptr (st_objs st) val"
  shows "\<exists>st'. add now key val st = Ret st' \<and> db_rep st' (D(key \<mapsto> val)) E \<and>
    contents (st_objs st') = contents (st_objs st) \<and> obj_LRU (st_objs st' ! the val) = 100 \<and>
    db_expire (st_db st') = db_expire (st_db st)"
proof -
  from rep obtain d d' where rd: "represents (db_dict (st_db st)) D d"
    and re: "represents (db_expire (st_db st)) E d'" by (auto simp: db_rep_def)
  let ?D = "if D key = None then D(key \<mapsto> vt_zero objptr_type) else D"
  obtain e h m where raw: "AddRaw objptr_type key (db_dict (st_db st)) (st_mem st) =
      Ret (e, bucket_used (db_dict (st_db st)) D key, h, m)" and ent: "rep_entry h ?D d key e"
    using AddRaw_represents [OF rd idx, of objptr_type key "st_mem st"] by auto
  let ?st1 = "st\<lparr>st_db := (st_db st)\<lparr>db_dict := h\<rparr>, st_mem := m\<rparr>"
  let ?st2 = "touched val 100 ?st1"
  have v1: "valid_ptr (st_objs ?st1) val" using val by simp
  have run: "add now key val st = Ret (dict_SetVal (Some e) val ?st2)"
    by (simp add: add_def addInternal_def raw initObjectLRUOrLFU_def set_LRU_valid [OF v1])
  have "db_rep (dict_SetVal (Some e) val ?st2) (?D(key \<mapsto> val)) E"
    by (rule dict_SetVal_rep [where d = d and d' = d'])
      (use ent re val rep in \<open>auto simp: db_rep_def split: if_splits\<close>)
  moreover have "?D(key \<mapsto> val) = D(key \<mapsto> val)" by auto
  ultimately show ?thesis using run val by (auto simp: touched_def valid_ptr_def)
qed

section \<open>Expire times\<close>

lemma GetExpire_rep:
  assumes rep: "db_rep st D E"
  shows "GetExpire key st = Ret (case E key of None \<Rightarrow> - 1 | Some when \<Rightarrow> when)"
proof (cases "ht_Empty (db_expire (st_db st))")
  case True
  from rep obtain d where re: "represents (db_expire (st_db st)) E d" by (auto simp: db_rep_def)
  have fin: "finite (dom E)" and len: "int (card (dom E)) + int d = 0"
    using True represents_card [OF re] unfolding ht_Empty_def ht_Len_def by auto
  from len have "card (dom E) = 0" by linarith
  with fin have "dom E = {}" by (metis card_0_eq)
  then have "E key = None" by auto
  with True show ?thesis by (simp add: GetExpire_def)
next
  case False
  then show ?thesis
    by (auto simp: GetExpire_def db_rep_Get_expire [OF rep] split: option.splits)
qed

lemma SetExpire_rep:
  assumes rep: "db_rep st D E" and ok: "E key = None \<or> rehash_ends (db_expire (st_db st))"
  shows "\<exists>st'. SetExpire key w st = Ret st' \<and> st_objs st' = st_objs st \<and>
    db_dict (st_db st') = db_dict (st_db st) \<and>
    db_rep st' D (if D key = None then E else E(key \<mapsto> w))"
proof (cases "D key")
  case None
  then show ?thesis using rep by (simp add: SetExpire_def db_rep_Get [OF rep])
next
  case (Some p)
  from rep obtain d where re: "represents (db_expire (st_db st)) E d" by (auto simp: db_rep_def)
  from ht_Set_represents [OF re ok, of uint64_type w "st_mem st"] obtain h m where
    set: "ht_Set uint64_type key w (db_expire (st_db st)) (st_mem st) = Ret (h, m)"
    and rh: "represents h (E(key \<mapsto> w)) d" by blast
  let ?st = "st\<lparr>st_db := (st_db st)\<lparr>db_expire := h\<rparr>, st_mem := m\<rparr>"
  have "SetExpire key w st = Ret ?st" using Some set by (simp add: SetExpire_def db_rep_Get [OF rep])
  moreover have "db_rep ?st D (E(key \<mapsto> w))" using rep rh by (auto simp: db_rep_def)
  ultimately show ?thesis using Some by simp
qed

lemma expire_Delete_rep:
  assumes rep: "db_rep st D E"
  shows "\<exists>st'. expire_Delete key st = Ret st' \<and> st_objs st' = st_objs st \<and>
    db_dict (st_db st') = db_dict (st_db st) \<and> st_mem st' = release uint64_type key (E key) (st_mem st) \<and>
    db_rep st' D (E(key := None))"
proof -
  from rep obtain d where re: "represents (db_expire (st_db st)) E d" by (auto simp: db_rep_def)
  from ht_Delete_represents [OF re, of uint64_type key "st_mem st"] obtain h d' where
    del: "ht_Delete uint64_type key (db_expire (st_db st)) (st_mem st) =
      Ret (E key \<noteq> None, h, release uint64_type key (E key) (st_mem st))"
    and rh: "represents h (E(key := None)) d'" by blast
  let ?st = "st\<lparr>st_db := (st_db st)\<lparr>db_expire := h\<rparr>, st_mem := release uint64_type key (E key) (st_mem st)\<rparr>"
  have "expire_Delete key st = Ret ?st" using del by (simp add: expire_Delete_def)
  moreover have "db_rep ?st D (E(key := None))" using rep rh by (auto simp: db_rep_def)
  ultimately show ?thesis by simp
qed

lemma RmExpire_rep:
  assumes rep: "db_rep st D E"
  shows "\<exists>st'. RmExpire key st = Ret st' \<and> st_objs st' = st_objs st \<and>
    db_dict (st_db st') = db_dict (st_db st) \<and>
    db_rep st' D (if D key = None then E else E(key := None))"
  using expire_Delete_rep [OF rep, of key] rep by (auto simp: RmExpire_def db_rep_Get [OF rep])

text \<open>The memory both tables had charged for the key is released.\<close>

lemma GenericDelete_rep:
  assumes rep: "db_rep st D E"
  shows "\<exists>st'. GenericDelete key st = Ret (D key \<noteq> None, st') \<and> st_objs st' = st_objs st \<and>
    db_rep st' (D(key := None)) (if D key = None then E else E(key := None)) \<and>
    st_mem st' = (if D key = None then st_mem st
      else release uint64_type key (E key) (release objptr_type key (D key) (st_mem st))) \<and>
    ht_Len (db_dict (st_db st')) = ht_Len (db_dict (st_db st))"
proof -
  from rep obtain d where rd: "represents (db_dict (st_db st)) D d" by (auto simp: db_rep_def)
  from ht_Delete_represents [OF rd, of objptr_type key "st_mem st"] obtain h where
    del: "ht_Delete objptr_type key (db_dict (st_db st)) (st_mem st) =
      Ret (D key \<noteq> None, h, release objptr_type key (D key) (st_mem st))"
    and rh: "represents h (D(key := None)) (d + (if D key = None then 0 else 1))" by blast
  have len: "ht_Len h = ht_Len (db_dict (st_db st))" using Delete_keeps_Len [OF rd del] .
  let ?st1 = "st\<lparr>st_db := (st_db st)\<lparr>db_dict := h\<rparr>, st_mem := release objptr_type key (D key) (st_mem st)\<rparr>"
  have rep1: "db_rep ?st1 (D(key := None)) E" using rep rh by (auto simp: db_rep_def)
  show ?thesis
  proof (cases "D key")
    case None
    then have "GenericDelete key st = Ret (False, ?st1)" using del by (simp add: GenericDelete_def)
    with None rep1 len show ?thesis by (simp add: release_def)
  next
    case (Some p)
    from expire_Delete_rep [OF rep1, of key] obtain st2 where
      st2: "expire_Delete key ?st1 = Ret st2" "st_objs st2 = st_objs st"
      "db_dict (st_db st2) = h" "st_mem st2 = release uint64_type key (E key) (st_mem ?st1)"
      "db_rep st2 (D(key := None)) (E(key := None))" by auto
    then have "GenericDelete key st = Ret (True, st2)" using Some del by (simp add: GenericDelete_def)
    with Some st2 len show ?thesis by simp
  qed
qed

section \<open>SetKey\<close>

text \<open>The flags make \<open>SetKey\<close> take the key for an existing one.\<close>

definition taken_as_existing :: "8 word \<Rightarrow> bool \<Rightarrow> bool" where
  "taken_as_existing flags here \<longleftrightarrow>
     flags AND SetKeyAlreadyExists \<noteq> 0 \<or> (flags AND SetKeyDoesNotExist = 0 \<and> here)"

lemma key_found_rep:
  assumes rep: "db_rep st D E" and upd: "flags AND SetKeyAddOrUpdated = 0"
  shows "\<exists>st'. key_found now key flags st =
      Ret (if taken_as_existing flags (D key \<noteq> None) then 1 else 0, st') \<and> db_rep st' D E \<and>
    contents (st_objs st') = contents (st_objs st) \<and> db_dict (st_db st') = db_dict (st_db st)"
proof (cases "flags AND SetKeyAlreadyExists = 0 \<and> flags AND SetKeyDoesNotExist = 0")
  case True
  from lookupKey_rep [OF rep, of now key "LookupNone OR LookupWrite"] obtain st' where
    st': "LookupKeyWrite now key st =
      Ret (case D key of None \<Rightarrow> (None, False) | Some p \<Rightarrow> (p, True), st')" "db_rep st' D E"
    "contents (st_objs st') = contents (st_objs st)" "db_dict (st_db st') = db_dict (st_db st)"
    by (auto simp: LookupKeyWrite_def lookupKeyWriteWithFlags_def)
  with True upd show ?thesis
    by (auto simp: key_found_def taken_as_existing_def split: option.splits)
next
  case False
  with rep upd show ?thesis by (auto simp: key_found_def taken_as_existing_def)
qed

lemma SetKey_rep:
  assumes rep: "db_rep st D E" and val: "valid_ptr (st_objs st) val"
    and upd: "flags AND SetKeyAddOrUpdated = 0"
    and exist: "flags AND SetKeyAlreadyExists \<noteq> 0 \<Longrightarrow> D key \<noteq> None"
    and idle: "\<not> taken_as_existing flags (D key \<noteq> None) \<Longrightarrow> ht_RehashingIdx (db_dict (st_db st)) < 0"
  shows "\<exists>st'. SetKey now key val flags st = Ret st' \<and> contents (st_objs st') = contents (st_objs st) \<and>
    db_rep st' (D(key \<mapsto> val)) (if flags AND SetKeyKeepTTL = 0 then E(key := None) else E)"
proof -
  let ?found = "taken_as_existing flags (D key \<noteq> None)"
  obtain st1 where st1: "key_found now key flags st = Ret (if ?found then 1 else 0, st1)"
    "db_rep st1 D E" "contents (st_objs st1) = contents (st_objs st)"
    "db_dict (st_db st1) = db_dict (st_db st)"
    using key_found_rep [OF rep upd] by blast
  have val1: "valid_ptr (st_objs st1) val" using val valid_ptr_contents [OF st1(3)] by simp
  obtain st2 where st2: "(if ?found then setValue key val None st1 else add now key val st1) = Ret st2"
    "db_rep st2 (D(key \<mapsto> val)) E" "contents (st_objs st2) = contents (st_objs st1)"
  proof (cases ?found)
    case True
    then obtain p where "D key = Some p" using exist by (auto simp: taken_as_existing_def)
    with setValue_rep [OF st1(2) _ val1] True that show ?thesis by auto
  next
    case False
    with idle st1(4) have "ht_RehashingIdx (db_dict (st_db st1)) < 0" by simp
    with add_rep [OF st1(2) _ val1] False that show ?thesis by auto
  qed
  have run: "SetKey now key val flags st =
      (if flags AND SetKeyKeepTTL = 0 then RmExpire key st2 else Ret st2)"
    using st1(1) st2(1) by (auto simp: SetKey_def split: if_splits)
  show ?thesis
  proof (cases "flags AND SetKeyKeepTTL = 0")
    case True
    from RmExpire_rep [OF st2(2), of key] obtain st3 where
      "RmExpire key st2 = Ret st3" "st_objs st3 = st_objs st2"
      "db_rep st3 (D(key \<mapsto> val)) (E(key := None))" by auto
    with run True st2(3) st1(3) show ?thesis by simp
  next
    case False
    with run st2 st1(3) show ?thesis by simp
  qed
qed

end
