(* ===== verification/Lru.thy ===== *)
theory Lru
  imports RedisDb_Refine
begin

text \<open>
  \<open>src/db/lru.go\<close> and \<open>src/db/evict.go\<close>: the pool of eviction candidates, how samples enter it, and the
  eviction loop. The pool is the array \<open>lru_ep\<close> of \<open>EVPOOL_SIZE\<close> entries; an entry with the empty
  key is a free slot.
\<close>

section \<open>State\<close>

definition MAXMEMORY_FLAG_LRU :: nat where
  "MAXMEMORY_FLAG_LRU = 1"

definition MAXMEMORY_FLAG_LFU :: nat where
  "MAXMEMORY_FLAG_LFU = 2"

definition EVPOOL_SIZE :: nat where
  "EVPOOL_SIZE = 4"

definition MEMORY_SAMPLES :: int where
  "MEMORY_SAMPLES = 5"

datatype EvictStatus = EvictFail | EvictRunning | EvictOk

text \<open>\<open>MemoryStatus\<close> without its \<open>Level\<close>, a floating point quotient that nothing reads.\<close>

record memoryStatus =
  ms_Total :: int64
  ms_Logical :: int64
  ms_ToFree :: int64

record evictionPoolEntry =
  ev_Key :: string
  ev_Idle :: int64

record lru =
  lru_ep :: "evictionPoolEntry list"
  lru_hz :: int
  lru_lruClock :: int64

definition NewLRU :: "int \<Rightarrow> int64 \<Rightarrow> lru" where
  "NewLRU hz clock =
     \<lparr>lru_ep = replicate EVPOOL_SIZE \<lparr>ev_Key = [], ev_Idle = 0\<rparr>, lru_hz = hz, lru_lruClock = clock\<rparr>"

section \<open>Idle times\<close>

text \<open>The clock is read, with its division by \<open>hz\<close>, before the object is.\<close>

definition estimateObjectIdleTime :: "int64 \<Rightarrow> redisObj list \<Rightarrow> int \<Rightarrow> int64 \<Rightarrow> objptr \<Rightarrow> int64 go" where
  "estimateObjectIdleTime now objs hz srvClock p =
     gobind (lruClock now hz srvClock) (\<lambda>c.
     gobind (deref objs p) (\<lambda>o1.
       if obj_LRU o1 \<le>s c then Ret ((c - obj_LRU o1) * LRU_CLOCK_RESOLUTION)
       else Ret ((c + (LRU_CLOCK_MAX - obj_LRU o1)) * LRU_CLOCK_RESOLUTION)))"

section \<open>Filling the pool\<close>

text \<open>The scan for the first free slot or the first entry that is not less idle.\<close>

fun pool_scan :: "evictionPoolEntry list \<Rightarrow> int64 \<Rightarrow> nat" where
  "pool_scan [] idle = 0"
| "pool_scan (e # es) idle =
     (if ev_Key e \<noteq> [] \<and> ev_Idle e <s idle then Suc (pool_scan es idle) else 0)"

text \<open>
  One key enters the pool (the body of the loop of \<open>EvictionPoolPopulate\<close>). \<open>copy\<close> moves as many
  elements as both slices have, as if through a temporary copy.
\<close>

definition pool_insert :: "evictionPoolEntry list \<Rightarrow> string \<Rightarrow> int64 \<Rightarrow> evictionPoolEntry list" where
  "pool_insert ep key idle =
     (let k = pool_scan ep idle;
          new = \<lparr>ev_Key = key, ev_Idle = idle\<rparr> in
      if k = 0 \<and> ev_Key (ep ! (EVPOOL_SIZE - 1)) \<noteq> [] then ep
      else if k < EVPOOL_SIZE \<and> ev_Key (ep ! k) = [] then ep[k := new]
      else if ev_Key (ep ! (EVPOOL_SIZE - 1)) = [] then
        (take (k + 1) ep @ take (length ep - (k + 1)) (drop k ep))[k := new]
      else
        let k' = k - 1 in
        (take k' (drop 1 ep) @ drop k' ep)[k' := new])"

primrec pool_insert_all ::
  "int64 \<Rightarrow> redisObj list \<Rightarrow> objptr hashtable \<Rightarrow> string list \<Rightarrow> lru \<Rightarrow> lru go" where
  "pool_insert_all now objs keyDict [] l = Ret l"
| "pool_insert_all now objs keyDict (key # keys) l =
     gobind (Get key keyDict) (\<lambda>r.
     gobind (estimateObjectIdleTime now objs (lru_hz l) (lru_lruClock l) (case r of None \<Rightarrow> None | Some p \<Rightarrow> p)) (\<lambda>idle.
       pool_insert_all now objs keyDict keys (l\<lparr>lru_ep := pool_insert (lru_ep l) key idle\<rparr>)))"

definition EvictionPoolPopulate ::
  "int64 \<Rightarrow> (nat \<Rightarrow> int) \<Rightarrow> redisObj list \<Rightarrow> objptr hashtable \<Rightarrow> objptr hashtable \<Rightarrow> lru \<Rightarrow> lru go" where
  "EvictionPoolPopulate now rnd objs sampleDict keyDict l =
     gobind (GetSomeKeys rnd MEMORY_SAMPLES sampleDict) (\<lambda>keys. pool_insert_all now objs keyDict keys l)"

section \<open>Eviction\<close>

definition getMaxmemoryState :: "int64 \<Rightarrow> memoryStatus \<times> bool" where
  "getMaxmemoryState used =
     (if getUsedMemory used \<le> MAX_MEMORY
      then (\<lparr>ms_Total = used, ms_Logical = 0, ms_ToFree = 0\<rparr>, True)
      else (\<lparr>ms_Total = used, ms_Logical = 0, ms_ToFree = used - word_of_int MAX_MEMORY\<rparr>, False))"

text \<open>One pass over the pool, from the most idle entry down: the first key that has an expire time.\<close>

primrec pool_pick :: "evictionPoolEntry list \<Rightarrow> uint64 hashtable \<Rightarrow> string go" where
  "pool_pick [] expire = Ret []"
| "pool_pick (e # es) expire =
     (if ev_Key e = [] then pool_pick es expire
      else gobind (Get (ev_Key e) expire) (\<lambda>r.
             if r \<noteq> None then Ret (ev_Key e) else pool_pick es expire))"

text \<open>\<open>for bestkey == ""\<close>: nothing changes between its passes.\<close>

partial_function (option) best_loop ::
  "lru \<Rightarrow> store \<Rightarrow> string \<Rightarrow> (panic + string) option" where
  "best_loop l st bestkey =
     (if bestkey = [] then
        if ht_Len (db_dict (st_db st)) = 0 then Ret bestkey
        else gobind (pool_pick (rev (lru_ep l)) (db_expire (st_db st))) (\<lambda>k. best_loop l st k)
      else Ret bestkey)"

partial_function (option) evict_loop ::
  "lru \<Rightarrow> int64 \<Rightarrow> int64 \<Rightarrow> store \<Rightarrow> (panic + store) option" where
  "evict_loop l toFree memFreed st =
     (if memFreed <s toFree then
        gobind (best_loop l st []) (\<lambda>bestkey.
          if bestkey \<noteq> [] then
            gobind (GenericDelete bestkey st) (\<lambda>(_, st').
              evict_loop l toFree (memFreed + (st_mem st - st_mem st')) st')
          else evict_loop l toFree memFreed st)
      else Ret st)"

definition PerformEvictions :: "lru \<Rightarrow> store \<Rightarrow> (EvictStatus \<times> store) go" where
  "PerformEvictions l st =
     (let (status, done1) = getMaxmemoryState (st_mem st) in
      if done1 then Ret (EvictOk, st)
      else gobind (evict_loop l (ms_ToFree status) 0 st) (\<lambda>st'. Ret (EvictOk, st')))"

declare best_loop.simps [code] evict_loop.simps [code]

section \<open>The pool keeps the most idle candidates\<close>

text \<open>
  The pool as an abstract list: the filled slots come first, by ascending idle time, and the free
  slots after them.
\<close>

definition pool_rep :: "evictionPoolEntry list \<Rightarrow> evictionPoolEntry list \<Rightarrow> bool" where
  "pool_rep ep xs \<longleftrightarrow>
     length ep = EVPOOL_SIZE \<and> sorted (map (\<lambda>e. sint (ev_Idle e)) xs) \<and> (\<forall>e \<in> set xs. ev_Key e \<noteq> []) \<and>
     (\<exists>fs. ep = xs @ fs \<and> (\<forall>e \<in> set fs. ev_Key e = []))"

text \<open>The specification: insert before the entries that are at least as idle; drop the least idle of five.\<close>

definition pool_add :: "evictionPoolEntry \<Rightarrow> evictionPoolEntry list \<Rightarrow> evictionPoolEntry list" where
  "pool_add e xs =
     (let ys = takeWhile (\<lambda>x. ev_Idle x <s ev_Idle e) xs @ e # dropWhile (\<lambda>x. ev_Idle x <s ev_Idle e) xs
      in if length ys > EVPOOL_SIZE then tl ys else ys)"

lemma pool_scan_filled:
  assumes "\<forall>e \<in> set xs. ev_Key e \<noteq> []" and "\<forall>e \<in> set fs. ev_Key e = []"
  shows "pool_scan (xs @ fs) idle = length (takeWhile (\<lambda>x. ev_Idle x <s idle) xs)"
  using assms(1)
proof (induction xs)
  case Nil
  from assms(2) show ?case by (cases fs) auto
qed auto

lemma drop_to_last: "drop (length t) (x # t @ d) = last (x # t) # d"
  by (induction t arbitrary: x) auto

lemma sorted_pool_add:
  assumes "sorted (map (\<lambda>e. sint (ev_Idle e)) xs)"
  shows "sorted (map (\<lambda>e. sint (ev_Idle e)) (pool_add e xs))"
proof -
  let ?P = "\<lambda>x. ev_Idle x <s ev_Idle e"
  let ?f = "\<lambda>e. sint (ev_Idle e)"
  have s: "sorted (map ?f (takeWhile ?P xs @ e # dropWhile ?P xs))"
    using assms
  proof (induction xs)
    case (Cons x xs)
    show ?case
    proof (cases "?P x")
      case True
      have "\<forall>y \<in> set xs. ?f x \<le> ?f y" using Cons.prems by simp
      then have "\<forall>y \<in> set (takeWhile ?P xs) \<union> set (dropWhile ?P xs). ?f x \<le> ?f y"
        by (auto dest: set_takeWhileD set_dropWhileD)
      with Cons True show ?thesis by (auto simp: word_sless_alt)
    next
      case False
      with Cons.prems show ?thesis by (auto simp: word_sless_alt)
    qed
  qed simp
  then have "sorted (tl (map ?f (takeWhile ?P xs @ e # dropWhile ?P xs)))"
    by (rule sorted_tl)
  with s show ?thesis unfolding pool_add_def Let_def by (simp only: map_tl split: if_split) blast
qed

lemma length_pool_add_aux: "length (takeWhile P xs) + length (dropWhile P xs) = length xs"
  by (metis length_append takeWhile_dropWhile_id)

lemma set_pool_add: "set (pool_add e xs) \<subseteq> insert e (set xs)"
  by (auto simp: pool_add_def Let_def dest!: list.set_sel(2) [rotated] set_takeWhileD set_dropWhileD
      split: if_splits)

text \<open>A full pool drops its least idle entry, unless the new one is less idle than all; a pool with room makes place.\<close>

lemma pool_insert_full:
  assumes len: "length ep = 4" and filled: "\<forall>e \<in> set ep. ev_Key e \<noteq> []"
  shows "pool_insert ep key idle = pool_add \<lparr>ev_Key = key, ev_Idle = idle\<rparr> ep \<and> length (pool_insert ep key idle) = 4"
proof -
  let ?P = "\<lambda>x. ev_Idle x <s idle" and ?e = "\<lparr>ev_Key = key, ev_Idle = idle\<rparr>"
  let ?t = "takeWhile ?P ep" and ?d = "dropWhile ?P ep"
  have k: "pool_scan ep idle = length ?t" using pool_scan_filled [of ep "[]"] filled by simp
  have ep: "ep = ?t @ ?d" by simp
  have lt: "length ?t + length ?d = 4" by (metis length_append ep len)
  have last: "ev_Key (ep ! 3) \<noteq> []" using filled len by simp
  show ?thesis
  proof (cases "?t")
    case Nil
    then have "?d = ep" using ep by simp
    then show ?thesis
      using k last len Nil by (simp add: pool_insert_def pool_add_def EVPOOL_SIZE_def)
  next
    case (Cons x t)
    have nk: "ep ! (length ?t) = ev \<Longrightarrow> length ?t < 4 \<Longrightarrow> ev_Key ev \<noteq> []" for ev
      using filled len by auto
    obtain d where d: "?d = d" by simp
    have ep': "ep = x # t @ d" using ep Cons d by simp
    have "pool_insert ep key idle = (take (length t) (drop 1 ep) @ drop (length t) ep)[length t := ?e]"
      using k last nk Cons lt by (auto simp: pool_insert_def EVPOOL_SIZE_def Let_def)
    also have "\<dots> = t @ ?e # d"
      unfolding ep' drop_to_last by simp
    finally have "pool_insert ep key idle = t @ ?e # d" .
    then show ?thesis
      using Cons len d lt by (simp add: pool_add_def EVPOOL_SIZE_def)
  qed
qed

lemma pool_insert_room:
  assumes ep: "ep = xs @ fs" and len: "length xs + length fs = 4" and "fs \<noteq> []"
    and filled: "\<forall>e \<in> set xs. ev_Key e \<noteq> []" and free: "\<forall>e \<in> set fs. ev_Key e = []"
  shows "\<exists>gs. pool_insert ep key idle = pool_add \<lparr>ev_Key = key, ev_Idle = idle\<rparr> xs @ gs \<and> set gs \<subseteq> set fs \<and>
    length (pool_insert ep key idle) = 4"
proof -
  let ?P = "\<lambda>x. ev_Idle x <s idle" and ?e = "\<lparr>ev_Key = key, ev_Idle = idle\<rparr>"
  let ?t = "takeWhile ?P xs" and ?d = "dropWhile ?P xs"
  have k: "pool_scan ep idle = length ?t" using pool_scan_filled [OF filled free] ep by simp
  have xs: "xs = ?t @ ?d" by simp
  have lt: "length ?t + length ?d = length xs" by (metis length_append xs)
  have last: "ev_Key (ep ! 3) = []"
    using assms(3) len ep free by (cases fs rule: rev_cases) (auto simp: nth_append)
  show ?thesis
  proof (cases ?d)
    case Nil
    have "?t = xs" by (metis Nil append.right_neutral takeWhile_dropWhile_id)
    have k0: "pool_scan ep idle = length xs" by (rule trans [OF k]) (rule arg_cong [OF \<open>?t = xs\<close>])
    obtain g gs where fs: "fs = g # gs" using assms(3) by (cases fs) auto
    moreover have "ev_Key g = []" using free fs by simp
    ultimately have "pool_insert ep key idle = ep[length xs := ?e]"
      using last len unfolding pool_insert_def EVPOOL_SIZE_def Let_def k0 by (simp add: ep nth_append)
    then have "pool_insert ep key idle = xs @ ?e # gs" by (simp add: ep fs list_update_append)
    moreover have "pool_add ?e xs = xs @ [?e]"
      using len fs unfolding pool_add_def Let_def EVPOOL_SIZE_def evictionPoolEntry.select_convs
        \<open>?t = xs\<close> Nil by simp
    ultimately show ?thesis using fs len by (intro exI [of _ gs]) auto
  next
    case (Cons x d)
    obtain gs g where fs: "fs = gs @ [g]" using assms(3) by (cases fs rule: rev_cases) auto
    have ep': "ep = ?t @ x # d @ gs @ [g]" using ep xs Cons fs by (metis append_Cons append_assoc)
    have x: "ev_Key x \<noteq> []" using filled Cons by (metis xs in_set_conv_decomp)
    have n: "length ?t + length d + length gs = 2" using lt Cons len fs by simp
    have "pool_insert ep key idle = ?t @ ?e # x # d @ gs"
      using k last ep' x n
      by (simp add: pool_insert_def EVPOOL_SIZE_def Let_def nth_append list_update_append)
    then show ?thesis
      using Cons n fs by (intro exI [of _ gs]) (auto simp: pool_add_def EVPOOL_SIZE_def Let_def)
  qed
qed

lemma pool_insert_rep:
  assumes rep: "pool_rep ep xs" and key: "key \<noteq> []"
  shows "pool_rep (pool_insert ep key idle) (pool_add \<lparr>ev_Key = key, ev_Idle = idle\<rparr> xs)"
proof -
  let ?e = "\<lparr>ev_Key = key, ev_Idle = idle\<rparr>"
  from rep obtain fs where ep: "ep = xs @ fs" and len: "length xs + length fs = 4"
    and filled: "\<forall>e \<in> set xs. ev_Key e \<noteq> []" and free: "\<forall>e \<in> set fs. ev_Key e = []"
    and sorted: "sorted (map (\<lambda>e. sint (ev_Idle e)) xs)"
    by (auto simp: pool_rep_def EVPOOL_SIZE_def)
  have "\<exists>gs. pool_insert ep key idle = pool_add ?e xs @ gs \<and> set gs \<subseteq> set fs \<and> length (pool_insert ep key idle) = 4"
  proof (cases "fs = []")
    case True
    then show ?thesis using pool_insert_full [of xs key idle] ep len filled by (intro exI [of _ "[]"]) auto
  next
    case False
    show ?thesis by (rule pool_insert_room [OF ep len False filled free])
  qed
  moreover note set_pool_add [of ?e xs]
  ultimately show ?thesis
    unfolding pool_rep_def using sorted_pool_add [OF sorted] key filled free
    by (auto simp: EVPOOL_SIZE_def subset_iff)
qed

section \<open>Populating\<close>

lemma pool_insert_all_rep:
  assumes dict: "represents keyDict D d" and keys: "set keys \<subseteq> dom D" "[] \<notin> set keys"
    and valid: "\<And>k p. D k = Some p \<Longrightarrow> valid_ptr objs p" and hz: "lru_hz l \<noteq> 0"
    and rep: "pool_rep (lru_ep l) xs"
  shows "\<exists>l' ys. pool_insert_all now objs keyDict keys l = Ret l' \<and> pool_rep (lru_ep l') ys \<and>
    ev_Key ` set ys \<subseteq> ev_Key ` set xs \<union> set keys \<and>
    length ys = min EVPOOL_SIZE (length xs + length keys) \<and>
    lru_hz l' = lru_hz l \<and> lru_lruClock l' = lru_lruClock l"
  using keys hz rep
proof (induction keys arbitrary: l xs)
  case Nil
  moreover have "length xs \<le> EVPOOL_SIZE" using Nil.prems(4) by (auto simp: pool_rep_def)
  ultimately show ?case by auto
next
  case (Cons key keys)
  from Cons.prems(1) obtain p where p: "D key = Some p" by auto
  have "\<exists>c. lruClock now (lru_hz l) (lru_lruClock l) = Ret c"
    using Cons.prems(3) by (simp add: lruClock_def)
  then obtain c where c: "lruClock now (lru_hz l) (lru_lruClock l) = Ret c" by blast
  have "\<exists>i. estimateObjectIdleTime now objs (lru_hz l) (lru_lruClock l) p = Ret i"
    by (simp add: estimateObjectIdleTime_def c deref_valid [OF valid [OF p]])
  then obtain idle where
    idle: "estimateObjectIdleTime now objs (lru_hz l) (lru_lruClock l) p = Ret idle" by blast
  let ?e = "\<lparr>ev_Key = key, ev_Idle = idle\<rparr>"
  let ?l = "l\<lparr>lru_ep := pool_insert (lru_ep l) key idle\<rparr>"
  have step: "pool_insert_all now objs keyDict (key # keys) l = pool_insert_all now objs keyDict keys ?l"
    using Get_represents [OF dict, of key] p idle by simp
  have "pool_rep (lru_ep ?l) (pool_add ?e xs)"
    using pool_insert_rep [OF Cons.prems(4)] Cons.prems(2) by auto
  from Cons.IH [of ?l, OF _ _ _ this] Cons.prems obtain l' ys where
    IH: "pool_insert_all now objs keyDict keys ?l = Ret l'" "pool_rep (lru_ep l') ys"
    "ev_Key ` set ys \<subseteq> ev_Key ` set (pool_add ?e xs) \<union> set keys"
    "length ys = min EVPOOL_SIZE (length (pool_add ?e xs) + length keys)"
    "lru_hz l' = lru_hz l" "lru_lruClock l' = lru_lruClock l" by auto
  have "length xs \<le> EVPOOL_SIZE" using Cons.prems(4) by (auto simp: pool_rep_def)
  then have "length (pool_add ?e xs) = min EVPOOL_SIZE (Suc (length xs))"
    using length_pool_add_aux [of "\<lambda>x. ev_Idle x <s ev_Idle ?e" xs] by (auto simp: pool_add_def Let_def)
  with IH(4) have "length ys = min EVPOOL_SIZE (length xs + length (key # keys))" by auto
  moreover have "ev_Key ` set ys \<subseteq> ev_Key ` set xs \<union> set (key # keys)"
    using IH(3) image_mono [OF set_pool_add [of ?e xs], of ev_Key] by auto
  ultimately show ?case
    using IH(1,2,5,6) unfolding step by - (rule exI [of _ l'], rule exI [of _ ys], simp)
qed

section \<open>Eviction picks the most idle key with an expire time\<close>

definition evictable :: "(string \<rightharpoonup> uint64) \<Rightarrow> evictionPoolEntry \<Rightarrow> bool" where
  "evictable E e \<longleftrightarrow> ev_Key e \<noteq> [] \<and> ev_Key e \<in> dom E"

lemma pool_pick_rep:
  assumes "\<And>k. Get k expire = Ret (E k)"
  shows "pool_pick es expire = Ret (case find (evictable E) es of None \<Rightarrow> [] | Some e \<Rightarrow> ev_Key e)"
  by (induction es) (auto simp: assms evictable_def)

lemma best_loop_picks:
  assumes rep: "db_rep st D E" and len: "ht_Len (db_dict (st_db st)) \<noteq> 0"
    and find: "find (evictable E) (rev (lru_ep l)) = Some e"
  shows "best_loop l st [] = Ret (ev_Key e)"
proof -
  have key: "ev_Key e \<noteq> []" using find_Some_iff2 [OF find] by (simp add: evictable_def)
  have "pool_pick (rev (lru_ep l)) (db_expire (st_db st)) = Ret (ev_Key e)"
    using pool_pick_rep [OF db_rep_Get_expire [OF rep]] find by simp
  then show ?thesis
    using len key by (subst best_loop.simps) (simp add: best_loop.simps)
qed

text \<open>What the deletion of a key with an expire time gives back.\<close>

definition evict_gain :: "string \<Rightarrow> int" where
  "evict_gain k = 32 + 2 * int (length k)"

lemma evict_gain_release:
  assumes "D k = Some p" and "E k = Some w"
  shows "m - release uint64_type k (E k) (release objptr_type k (D k) m) = word_of_int (evict_gain k)"
  using assms
  by (simp add: release_def ht_DecreaseUsedMemory_cost entry_cost_def objptr_type_def uint64_type_def
      estimateMemoryUsage_def evict_gain_def)

end
