(* ===== verification/Lru_Evict.thy ===== *)
theory Lru_Evict
  imports Lru
begin

text \<open>
  The eviction loop: it never returns when no key of the pool has an expire time, and it frees enough
  memory, evicting the most idle candidates first and no more of them than needed, when the candidates
  of the pool are worth enough.
\<close>

section \<open>Words as integers\<close>

lemma sint_small: "- (2 ^ 63) \<le> i \<Longrightarrow> i < 2 ^ 63 \<Longrightarrow> sint (word_of_int i :: int64) = i"
  using signed_take_bit_int_eq_self [of 63 i] by (simp add: signed_of_int)

lemma sless_small:
  assumes "0 \<le> f" and "f < 2 ^ 63" and "0 \<le> t" and "t < 2 ^ 63"
  shows "(word_of_int f :: int64) <s word_of_int t \<longleftrightarrow> f < t"
  using assms by (simp add: word_sless_alt sint_small)

section \<open>No candidate: no return\<close>

lemma best_loop_returns:
  assumes "best_loop l st bk = Some y"
  shows "bk = [] \<longrightarrow> ht_Len (db_dict (st_db st)) \<noteq> 0 \<longrightarrow>
    pool_pick (rev (lru_ep l)) (db_expire (st_db st)) = Ret [] \<longrightarrow> False"
proof (rule best_loop.raw_induct [where
      P = "\<lambda>l st bk y. bk = [] \<longrightarrow> ht_Len (db_dict (st_db st)) \<noteq> 0 \<longrightarrow>
        pool_pick (rev (lru_ep l)) (db_expire (st_db st)) = Ret [] \<longrightarrow> False", OF _ assms])
  fix f :: "lru \<Rightarrow> store \<Rightarrow> string \<Rightarrow> (panic + string) option" and l st bk y
  assume IH: "\<And>l st bk y. f l st bk = Some y \<Longrightarrow> bk = [] \<longrightarrow> ht_Len (db_dict (st_db st)) \<noteq> 0 \<longrightarrow>
        pool_pick (rev (lru_ep l)) (db_expire (st_db st)) = Ret [] \<longrightarrow> False"
    and body: "(if bk = [] then
        if ht_Len (db_dict (st_db st)) = 0 then Ret bk
        else gobind (pool_pick (rev (lru_ep l)) (db_expire (st_db st))) (\<lambda>k. f l st k)
      else Ret bk) = Some y"
  show "bk = [] \<longrightarrow> ht_Len (db_dict (st_db st)) \<noteq> 0 \<longrightarrow>
        pool_pick (rev (lru_ep l)) (db_expire (st_db st)) = Ret [] \<longrightarrow> False"
  proof (intro impI)
    assume a: "bk = []" "ht_Len (db_dict (st_db st)) \<noteq> 0"
      "pool_pick (rev (lru_ep l)) (db_expire (st_db st)) = Ret []"
    with body have "f l st [] = Some y" by simp
    from IH [OF this] a show False by blast
  qed
qed

lemma evict_loop_returns:
  assumes "evict_loop l t f st = Some y"
  shows "f <s t \<longrightarrow> best_loop l st [] = Diverges \<or> best_loop l st [] = Ret [] \<longrightarrow> False"
proof (rule evict_loop.raw_induct [where
      P = "\<lambda>l t f st y. f <s t \<longrightarrow> best_loop l st [] = Diverges \<or> best_loop l st [] = Ret [] \<longrightarrow> False",
      OF _ assms])
  fix g :: "lru \<Rightarrow> int64 \<Rightarrow> int64 \<Rightarrow> store \<Rightarrow> (panic + store) option" and l t f st y
  assume IH: "\<And>l t f st y. g l t f st = Some y \<Longrightarrow>
      f <s t \<longrightarrow> best_loop l st [] = Diverges \<or> best_loop l st [] = Ret [] \<longrightarrow> False"
    and body: "(if f <s t then
        gobind (best_loop l st []) (\<lambda>bestkey.
          if bestkey \<noteq> [] then
            gobind (GenericDelete bestkey st) (\<lambda>(_, st'). g l t (f + (st_mem st - st_mem st')) st')
          else g l t f st)
      else Ret st) = Some y"
  show "f <s t \<longrightarrow> best_loop l st [] = Diverges \<or> best_loop l st [] = Ret [] \<longrightarrow> False"
  proof (intro impI)
    assume a: "f <s t" "best_loop l st [] = Diverges \<or> best_loop l st [] = Ret []"
    with body have "g l t f st = Some y" by auto
    from IH [OF this] a show False by blast
  qed
qed

lemma evict_loop_stuck:
  assumes rep: "db_rep st D E" and none: "\<forall>e \<in> set (lru_ep l). \<not> evictable E e" and lt: "f <s t"
  shows "evict_loop l t f st = Diverges"
proof -
  have find: "find (evictable E) (rev (lru_ep l)) = None" using none by (auto simp: find_None_iff)
  have pick: "pool_pick (rev (lru_ep l)) (db_expire (st_db st)) = Ret []"
    using pool_pick_rep [OF db_rep_Get_expire [OF rep], of "rev (lru_ep l)"] find by simp
  have "best_loop l st [] = Diverges \<or> best_loop l st [] = Ret []"
  proof (cases "ht_Len (db_dict (st_db st)) = 0")
    case True
    then show ?thesis by (subst best_loop.simps) (simp add: best_loop.simps)
  next
    case False
    with pick show ?thesis
      by (cases "best_loop l st []") (auto dest: best_loop_returns)
  qed
  with lt show ?thesis by (cases "evict_loop l t f st") (auto dest: evict_loop_returns)
qed

section \<open>Enough candidates: enough is freed\<close>

definition candidates :: "lru \<Rightarrow> (string \<rightharpoonup> uint64) \<Rightarrow> string list" where
  "candidates l E = map ev_Key (filter (evictable E) (rev (lru_ep l)))"

definition total_gain :: "string list \<Rightarrow> int" where
  "total_gain ks = sum_list (map evict_gain ks)"

lemma evict_gain_pos: "0 < evict_gain k"
  by (simp add: evict_gain_def)

lemma total_gain_nonneg: "0 \<le> total_gain ks"
  unfolding total_gain_def by (rule sum_list_nonneg) (auto simp: evict_gain_def)

lemma candidates_rest:
  assumes "candidates l E = k # ks" and "distinct (candidates l E)"
  shows "candidates l (E(k := None)) = ks"
proof -
  have "filter (evictable (E(k := None))) es = filter (\<lambda>e. ev_Key e \<noteq> k) (filter (evictable E) es)" for es
    by (induction es) (auto simp: evictable_def)
  then have "candidates l (E(k := None)) = filter (\<lambda>x. x \<noteq> k) (candidates l E)"
    by (simp add: candidates_def filter_map comp_def)
  also have "\<dots> = ks" using assms by (auto simp: filter_id_conv)
  finally show ?thesis .
qed

lemma restrict_upd_None: "(M(k := None)) |` (- set ks) = M |` (- set (k # ks))"
  by (auto simp: restrict_map_def fun_eq_iff)

text \<open>The candidates come by descending idle time, so those at the front are at least as idle as the rest.\<close>

lemma candidates_by_idle:
  assumes rep: "pool_rep (lru_ep l) xs" and dist: "distinct (candidates l E)"
    and e: "e \<in> set (lru_ep l)" "evictable E e" "ev_Key e \<in> set (take n (candidates l E))"
    and e': "e' \<in> set (lru_ep l)" "evictable E e'" "ev_Key e' \<notin> set (take n (candidates l E))"
  shows "sint (ev_Idle e') \<le> sint (ev_Idle e)"
proof -
  let ?R = "\<lambda>x y. sint (ev_Idle y) \<le> sint (ev_Idle x)"
  define es where "es = filter (evictable E) (rev (lru_ep l))"
  have cand: "candidates l E = map ev_Key es" by (simp add: candidates_def es_def)
  from rep obtain fs where ep: "lru_ep l = xs @ fs" "\<forall>f \<in> set fs. ev_Key f = []" and "sorted (map (\<lambda>e. sint (ev_Idle e)) xs)"
    by (auto simp: pool_rep_def)
  moreover have "filter (evictable E) (rev fs) = []" using ep(2) by (auto simp: filter_empty_conv evictable_def)
  ultimately have "sorted_wrt ?R es"
    by (auto simp: es_def rev_filter sorted_map sorted_wrt_rev intro!: sorted_wrt_filter)
  then have "\<forall>x \<in> set (take n es). \<forall>y \<in> set (drop n es). ?R x y"
    using sorted_wrt_append [of ?R "take n es" "drop n es"] by simp
  moreover have in_es: "e \<in> set es" "e' \<in> set es" using e(1,2) e'(1,2) by (simp_all add: es_def)
  moreover have inj: "inj_on ev_Key (set es)" using dist by (simp add: cand distinct_map)
  obtain x where x: "x \<in> set (take n es)" "ev_Key x = ev_Key e" using e(3) by (auto simp: cand take_map)
  then have "x = e" using inj in_es(1) by (auto dest: in_set_takeD inj_onD)
  moreover have "e' \<notin> set (take n es)" using e'(3) by (auto simp: cand take_map)
  then have "e' \<in> set (drop n es)" using in_es(2) by (metis Un_iff append_take_drop_id set_append)
  ultimately show ?thesis using x(1) by blast
qed

text \<open>One round of the loop below the target: the most idle candidate goes, with the memory it is worth.\<close>

lemma evict_round:
  assumes rep: "db_rep st D E" and sub: "dom E \<subseteq> dom D" and cand: "candidates l E = k # ks" and lt: "freed <s target"
  shows "\<exists>st1. evict_loop l target freed st = evict_loop l target (freed + word_of_int (evict_gain k)) st1 \<and>
    db_rep st1 (D(k := None)) (E(k := None)) \<and> st_mem st - st_mem st1 = word_of_int (evict_gain k)"
proof -
  obtain e es where f: "filter (evictable E) (rev (lru_ep l)) = e # es" "ev_Key e = k"
    using cand by (auto simp: candidates_def)
  note find = find_filter_hd [OF f(1)]
  have "evictable E e" using find_Some_iff2 [OF find] by blast
  then obtain w where w: "E k = Some w" and k: "k \<noteq> []" using f(2) by (auto simp: evictable_def)
  then obtain p where p: "D k = Some p" using sub by auto
  from rep obtain d where rd: "represents (db_dict (st_db st)) D d" by (auto simp: db_rep_def)
  have "0 < card (dom D)" using represents_card [OF rd] p by (auto simp: card_gt_0_iff)
  then have "ht_Len (db_dict (st_db st)) \<noteq> 0" using represents_card [OF rd] by simp
  then have best: "best_loop l st [] = Ret k" using best_loop_picks [OF rep _ find] f(2) by simp
  from GenericDelete_rep [OF rep, of k] p obtain st1 where
    del: "GenericDelete k st = Ret (True, st1)" and rep1: "db_rep st1 (D(k := None)) (E(k := None))"
    and mem: "st_mem st1 = release uint64_type k (E k) (release objptr_type k (D k) (st_mem st))"
    by auto
  have gain: "st_mem st - st_mem st1 = word_of_int (evict_gain k)"
    unfolding mem by (rule evict_gain_release [of D k p E w, OF p w])
  then have "evict_loop l target freed st = evict_loop l target (freed + word_of_int (evict_gain k)) st1"
    using lt best k del by (subst evict_loop.simps) simp
  with rep1 gain show ?thesis by blast
qed

lemma evict_loop_frees:
  assumes "db_rep st D E" and "dom E \<subseteq> dom D" and "candidates l E = cs" and "distinct cs"
    and "0 \<le> f" and "0 \<le> t" and "f + total_gain cs < 2 ^ 63" and "t \<le> f + total_gain cs"
  shows "\<exists>n st'. evict_loop l (word_of_int t) (word_of_int f) st = Ret st' \<and> n \<le> length cs \<and>
    db_rep st' (D |` (- set (take n cs))) (E |` (- set (take n cs))) \<and>
    st_mem st' = st_mem st - word_of_int (total_gain (take n cs)) \<and>
    t \<le> f + total_gain (take n cs) \<and> (n = 0 \<or> f + total_gain (take (n - 1) cs) < t)"
  using assms
proof (induction cs arbitrary: st D E f)
  case Nil
  then have "f < 2 ^ 63" "t \<le> f" by (simp_all add: total_gain_def)
  then have "\<not> (word_of_int f :: int64) <s word_of_int t"
    using Nil.prems(5,6) sless_small [of f t] by simp
  then have "evict_loop l (word_of_int t) (word_of_int f) st = Ret st" by (subst evict_loop.simps) simp
  with Nil.prems \<open>t \<le> f\<close> show ?case by (simp add: total_gain_def restrict_map_def)
next
  case (Cons k ks)
  have bounds: "f < 2 ^ 63" "t < 2 ^ 63"
    using Cons.prems total_gain_nonneg [of "k # ks"] by linarith+
  show ?case
  proof (cases "f < t")
    case False
    then have "\<not> (word_of_int f :: int64) <s word_of_int t"
      using Cons.prems(5,6) bounds sless_small [of f t] by simp
    then have "evict_loop l (word_of_int t) (word_of_int f) st = Ret st" by (subst evict_loop.simps) simp
    with Cons.prems(1) False show ?thesis
      by (intro exI [of _ 0] exI [of _ st]) (simp add: total_gain_def restrict_map_def)
  next
    case True
    then have lt: "(word_of_int f :: int64) <s word_of_int t"
      using Cons.prems(5,6) bounds sless_small [of f t] by simp
    obtain st1 where step: "evict_loop l (word_of_int t) (word_of_int f) st =
        evict_loop l (word_of_int t) (word_of_int (f + evict_gain k)) st1"
      and rep1: "db_rep st1 (D(k := None)) (E(k := None))" and gain: "st_mem st - st_mem st1 = word_of_int (evict_gain k)"
      using evict_round [OF Cons.prems(1-3) lt] by auto
    have total: "total_gain (k # ks) = evict_gain k + total_gain ks" by (simp add: total_gain_def)
    have sub1: "dom (E(k := None)) \<subseteq> dom (D(k := None))" using Cons.prems(2) by auto
    have dist: "distinct (candidates l E)" "distinct ks" using Cons.prems(3,4) by simp_all
    note rest = candidates_rest [OF Cons.prems(3) dist(1)]
    have "\<exists>n st'. evict_loop l (word_of_int t) (word_of_int (f + evict_gain k)) st1 = Ret st' \<and> n \<le> length ks \<and>
      db_rep st' ((D(k := None)) |` (- set (take n ks))) ((E(k := None)) |` (- set (take n ks))) \<and>
      st_mem st' = st_mem st1 - word_of_int (total_gain (take n ks)) \<and>
      t \<le> f + evict_gain k + total_gain (take n ks) \<and>
      (n = 0 \<or> f + evict_gain k + total_gain (take (n - 1) ks) < t)"
      by (rule Cons.IH [OF rep1 sub1 rest dist(2)])
        (use Cons.prems(5-8) evict_gain_pos [of k] total in linarith)+
    then obtain n st' where n: "evict_loop l (word_of_int t) (word_of_int (f + evict_gain k)) st1 = Ret st'"
      "n \<le> length ks" "db_rep st' (D |` (- set (take (Suc n) (k # ks)))) (E |` (- set (take (Suc n) (k # ks))))"
      "st_mem st' = st_mem st1 - word_of_int (total_gain (take n ks))"
      "t \<le> f + evict_gain k + total_gain (take n ks)"
      "n = 0 \<or> f + evict_gain k + total_gain (take (n - 1) ks) < t"
      unfolding restrict_upd_None by auto
    have tot: "total_gain (take (Suc i) (k # ks)) = evict_gain k + total_gain (take i ks)" for i
      by (simp add: total_gain_def)
    have "st_mem st' = st_mem st - word_of_int (total_gain (take (Suc n) (k # ks)))"
      using gain n(4) unfolding tot by (simp add: algebra_simps)
    moreover have "f + total_gain (take n (k # ks)) < t"
    proof (cases n)
      case 0
      with True show ?thesis by (simp add: total_gain_def)
    next
      case (Suc i)
      with n(6) show ?thesis by (simp add: total_gain_def)
    qed
    ultimately show ?thesis
      using n step tot [of n]
      by (intro exI [of _ "Suc n"] exI [of _ st']) (simp add: add.assoc)
  qed
qed

lemma PerformEvictions_frees:
  assumes rep: "db_rep st D E" and sub: "dom E \<subseteq> dom D" and dist: "distinct (candidates l E)"
    and over: "MAX_MEMORY < getUsedMemory (st_mem st)"
    and enough: "getUsedMemory (st_mem st) - MAX_MEMORY \<le> total_gain (candidates l E)"
    and bound: "total_gain (candidates l E) < 2 ^ 63"
  shows "\<exists>n st'. PerformEvictions l st = Ret (EvictOk, st') \<and> n \<le> length (candidates l E) \<and>
    db_rep st' (D |` (- set (take n (candidates l E)))) (E |` (- set (take n (candidates l E)))) \<and>
    getUsedMemory (st_mem st') = getUsedMemory (st_mem st) - total_gain (take n (candidates l E)) \<and>
    getUsedMemory (st_mem st') \<le> MAX_MEMORY \<and>
    MAX_MEMORY < getUsedMemory (st_mem st) - total_gain (take (n - 1) (candidates l E))"
proof -
  let ?u = "getUsedMemory (st_mem st)"
  let ?cs = "candidates l E"
  have word: "word_of_int ?u = st_mem st" by (simp add: getUsedMemory_def)
  have range: "?u < 2 ^ 63" using sint_lt [of "st_mem st"] by (simp add: getUsedMemory_def)
  from evict_loop_frees [OF rep sub refl dist, of 0 "?u - MAX_MEMORY"] over enough bound obtain n st' where
    n: "evict_loop l (word_of_int (?u - MAX_MEMORY)) 0 st = Ret st'" "n \<le> length ?cs"
    "db_rep st' (D |` (- set (take n ?cs))) (E |` (- set (take n ?cs)))"
    "st_mem st' = st_mem st - word_of_int (total_gain (take n ?cs))"
    "?u - MAX_MEMORY \<le> total_gain (take n ?cs)"
    "n = 0 \<or> total_gain (take (n - 1) ?cs) < ?u - MAX_MEMORY" by auto
  have le: "total_gain (take n ?cs) \<le> total_gain ?cs"
    using total_gain_nonneg [of "drop n ?cs"] by (metis append_take_drop_id le_add_same_cancel1 map_append sum_list_append total_gain_def)
  have mem: "st_mem st' = word_of_int (?u - total_gain (take n ?cs))"
    using n(4) by (simp only: of_int_diff word)
  have "- (2 ^ 63) \<le> ?u - total_gain (take n ?cs)" "?u - total_gain (take n ?cs) < 2 ^ 63"
    using range le bound over total_gain_nonneg [of "take n ?cs"] by (simp_all add: MAX_MEMORY_def)
  then have used: "getUsedMemory (st_mem st') = ?u - total_gain (take n ?cs)"
    unfolding getUsedMemory_def mem by (rule sint_small)
  have free: "st_mem st - word_of_int MAX_MEMORY = word_of_int (?u - MAX_MEMORY)"
    by (simp only: of_int_diff word)
  have "PerformEvictions l st = Ret (EvictOk, st')"
    using over n(1) by (simp add: PerformEvictions_def getMaxmemoryState_def free)
  moreover have "MAX_MEMORY < ?u - total_gain (take (n - 1) ?cs)"
    using n(6) over by (cases n) (auto simp: total_gain_def)
  ultimately show ?thesis using n(2,3,5) used by auto
qed

end
