(* ===== verification/Db_Props.thy ===== *)
theory Db_Props
  imports Lru_Evict
begin

text \<open>
  The properties of the keyspace (\<open>RedisDb\<close>) and of the eviction of keys (\<open>Lru\<close>), each with an
  instance on a concrete database.
\<close>

section \<open>A concrete database\<close>

definition sample_objs :: "redisObj list" where
  "sample_objs = [NewRedisObj StringType EncodingRaw (AString ''v'') 0,
                  NewRedisObj StringType EncodingRaw (AString ''w'') 0]"

definition empty_store :: "int64 \<Rightarrow> store go" where
  "empty_store m = gobind (New 0) (\<lambda>db. Ret \<lparr>st_db = db, st_objs = sample_objs, st_mem = m\<rparr>)"

text \<open>One key with an expire time, and used memory just above the limit.\<close>

definition sample_store :: "store go" where
  "sample_store =
     gobind (empty_store (word_of_int MAX_MEMORY)) (\<lambda>st.
     gobind (SetKey 0 ''k'' (Some 0) SetKeyDoesNotExist st) (SetExpire ''k'' 7))"

lemma empty_store_rep:
  "\<exists>st. empty_store m = Ret st \<and> db_rep st Map.empty Map.empty \<and>
     ht_RehashingIdx (db_dict (st_db st)) = -1 \<and> ht_RehashingIdx (db_expire (st_db st)) = -1 \<and>
     st_objs st = sample_objs \<and> st_mem st = m"
  using New_rep [of 0 sample_objs m] by (auto simp: empty_store_def)

lemma sample_store_rep:
  "\<exists>st. sample_store = Ret st \<and> db_rep st [''k'' \<mapsto> Some 0] [''k'' \<mapsto> 7] \<and>
     ht_RehashingIdx (db_dict (st_db st)) = -1 \<and> ht_RehashingIdx (db_expire (st_db st)) = -1 \<and>
     length (st_objs st) = 2 \<and> getUsedMemory (st_mem st) = MAX_MEMORY + 34"
proof -
  obtain st0 where st0: "empty_store (word_of_int MAX_MEMORY) = Ret st0" "db_rep st0 Map.empty Map.empty"
    "ht_RehashingIdx (db_dict (st_db st0)) = -1" "st_objs st0 = sample_objs"
    using empty_store_rep by blast
  have "\<exists>st1. SetKey 0 ''k'' (Some 0) SetKeyDoesNotExist st0 = Ret st1 \<and>
      contents (st_objs st1) = contents (st_objs st0) \<and>
      db_rep st1 [''k'' \<mapsto> Some 0]
        (if SetKeyDoesNotExist AND SetKeyKeepTTL = 0 then Map.empty(''k'' := None) else Map.empty)"
    by (rule SetKey_rep [OF st0(2)])
      (use st0 in \<open>simp_all add: valid_ptr_def sample_objs_def SetKeyDoesNotExist_def
         SetKeyAlreadyExists_def SetKeyAddOrUpdated_def\<close>)
  moreover have "(if SetKeyDoesNotExist AND SetKeyKeepTTL = 0
      then (Map.empty :: string \<rightharpoonup> uint64)(''k'' := None) else Map.empty) = Map.empty" by auto
  ultimately obtain st1 where st1: "SetKey 0 ''k'' (Some 0) SetKeyDoesNotExist st0 = Ret st1"
    "contents (st_objs st1) = contents (st_objs st0)" "db_rep st1 [''k'' \<mapsto> Some 0] Map.empty"
    by (elim exE conjE) simp
  from SetExpire_rep [OF st1(3), of "''k''" 7] obtain st where
    st: "SetExpire ''k'' 7 st1 = Ret st" "db_rep st [''k'' \<mapsto> Some 0] [''k'' \<mapsto> 7]"
    "st_objs st = st_objs st1" by auto
  have run: "sample_store = Ret st" using st0(1) st1(1) st(1) by (simp add: sample_store_def)
  have "gobind sample_store (\<lambda>st. Ret (ht_RehashingIdx (db_dict (st_db st)),
      ht_RehashingIdx (db_expire (st_db st)), getUsedMemory (st_mem st))) = Ret (-1, -1, MAX_MEMORY + 34)"
    by code_simp
  then have "ht_RehashingIdx (db_dict (st_db st)) = -1" "ht_RehashingIdx (db_expire (st_db st)) = -1"
    "getUsedMemory (st_mem st) = MAX_MEMORY + 34" unfolding run by simp_all
  moreover have "length (st_objs st) = 2"
    using contents_length [OF st1(2)] st(3) st0(4) by (simp add: sample_objs_def)
  ultimately show ?thesis using run st(2) by blast
qed

section \<open>The keyspace\<close>

text \<open>
  a lookup returns the stored pointer and whether the key is there, never changes what the
  database holds or what the objects say, and counts exactly one hit or miss, except with
  \<open>LookupNoStats\<close> or \<open>LookupWrite\<close>. It does so whatever the expire times are: a key that is past its
  time is found like any other.
\<close>

lemma lookupKey_finds:
  assumes "db_rep st D E"
  shows "\<exists>st'. lookupKey now key flags st =
      Ret (case D key of None \<Rightarrow> (None, False) | Some p \<Rightarrow> (p, True), st') \<and>
    db_rep st' D E \<and> contents (st_objs st') = contents (st_objs st) \<and> st_mem st' = st_mem st \<and>
    db_StatKeySpaceHits (st_db st') =
      db_StatKeySpaceHits (st_db st) + (if counts_stats flags \<and> D key \<noteq> None then 1 else 0) \<and>
    db_StatKeySpaceMisses (st_db st') =
      db_StatKeySpaceMisses (st_db st) + (if counts_stats flags \<and> D key = None then 1 else 0)"
  using lookupKey_rep [OF assms] by blast

lemma lookupKey_finds_witness:
  "\<exists>st st'. sample_store = Ret st \<and> lookupKey 0 ''k'' LookupNone st = Ret ((Some 0, True), st')"
proof -
  obtain st where st: "sample_store = Ret st" "db_rep st [''k'' \<mapsto> Some 0] [''k'' \<mapsto> 7]"
    using sample_store_rep by blast
  from lookupKey_finds [OF st(2), of 0 "''k''" LookupNone] obtain st' where
    "lookupKey 0 ''k'' LookupNone st = Ret ((Some 0, True), st')" by auto
  with st(1) show ?thesis by blast
qed

text \<open>
  C10: \<open>SetKey\<close> with a valid object, without the flag \<open>SetKeyAddOrUpdated\<close> and with \<open>SetKeyAlreadyExists\<close> only for a key that is there,
  binds the key to the object and removes the expire time of the key unless
  \<open>SetKeyKeepTTL\<close> is given; all other keys and times and all objects stay. It holds for a key taken as existing
  in every state of the dictionary, and for a key that is added outside a rehash.
\<close>

lemma SetKey_binds:
  assumes "db_rep st D E" and "valid_ptr (st_objs st) val"
    and "flags AND SetKeyAddOrUpdated = 0"
    and "flags AND SetKeyAlreadyExists \<noteq> 0 \<Longrightarrow> D key \<noteq> None"
    and "\<not> taken_as_existing flags (D key \<noteq> None) \<Longrightarrow> ht_RehashingIdx (db_dict (st_db st)) < 0"
  shows "\<exists>st'. SetKey now key val flags st = Ret st' \<and> contents (st_objs st') = contents (st_objs st) \<and>
    db_rep st' (D(key \<mapsto> val)) (if flags AND SetKeyKeepTTL = 0 then E(key := None) else E)"
  using assms by (rule SetKey_rep)

lemma SetKey_binds_witness:
  "\<exists>st st'. sample_store = Ret st \<and> SetKey 0 ''k'' (Some 1) SetKeyAlreadyExists st = Ret st' \<and>
     GetExpire ''k'' st' = Ret (- 1)"
proof -
  obtain st where st: "sample_store = Ret st" "db_rep st [''k'' \<mapsto> Some 0] [''k'' \<mapsto> 7]"
    "length (st_objs st) = 2" using sample_store_rep by blast
  have "\<exists>st'. SetKey 0 ''k'' (Some 1) SetKeyAlreadyExists st = Ret st' \<and>
      contents (st_objs st') = contents (st_objs st) \<and>
      db_rep st' ([''k'' \<mapsto> Some 0](''k'' \<mapsto> Some 1))
        (if SetKeyAlreadyExists AND SetKeyKeepTTL = 0 then [''k'' \<mapsto> 7](''k'' := None) else [''k'' \<mapsto> 7])"
    by (rule SetKey_binds [OF st(2)])
      (use st(3) in \<open>simp_all add: valid_ptr_def SetKeyAlreadyExists_def SetKeyAddOrUpdated_def
         taken_as_existing_def\<close>)
  then obtain st' where st': "SetKey 0 ''k'' (Some 1) SetKeyAlreadyExists st = Ret st'"
    "db_rep st' ([''k'' \<mapsto> Some 0](''k'' \<mapsto> Some 1)) ([''k'' \<mapsto> 7](''k'' := None))"
    by (auto simp: SetKeyAlreadyExists_def SetKeyKeepTTL_def)
  with st(1) GetExpire_rep [OF st'(2), of "''k''"] show ?thesis by auto
qed

text \<open>
  after \<open>SetExpire\<close> on a key of the database \<open>GetExpire\<close> returns the time, for every other key
  what it returned before; on a key that is not there \<open>SetExpire\<close> does nothing.
\<close>

lemma SetExpire_GetExpire:
  assumes "db_rep st D E" and "E key = None \<or> rehash_ends (db_expire (st_db st))"
  shows "\<exists>st'. SetExpire key w st = Ret st' \<and> db_rep st' D (if D key = None then E else E(key \<mapsto> w)) \<and>
    GetExpire key st' = (if D key = None then GetExpire key st else Ret w) \<and>
    (\<forall>k. k \<noteq> key \<longrightarrow> GetExpire k st' = GetExpire k st)"
proof -
  from SetExpire_rep [OF assms, of w] obtain st' where
    st': "SetExpire key w st = Ret st'" "db_rep st' D (if D key = None then E else E(key \<mapsto> w))" by blast
  with GetExpire_rep [OF st'(2)] GetExpire_rep [OF assms(1)] show ?thesis by auto
qed

lemma SetExpire_GetExpire_witness:
  "\<exists>st st'. sample_store = Ret st \<and> SetExpire ''k'' 9 st = Ret st' \<and> GetExpire ''k'' st' = Ret 9"
proof -
  obtain st where st: "sample_store = Ret st" "db_rep st [''k'' \<mapsto> Some 0] [''k'' \<mapsto> 7]"
    "ht_RehashingIdx (db_expire (st_db st)) = -1" using sample_store_rep by blast
  then have "rehash_ends (db_expire (st_db st))" by (simp add: rehash_ends_def)
  with SetExpire_GetExpire [OF st(2), of "''k''" 9] st(1) show ?thesis by auto
qed

text \<open>
  C11: \<open>GenericDelete\<close> removes the key and its expire time, returns whether the key was there, and
  gives back the memory both tables had charged for it; the dictionary's \<open>Len\<close> does not change.
\<close>

lemma GenericDelete_removes:
  assumes "db_rep st D E"
  shows "\<exists>st'. GenericDelete key st = Ret (D key \<noteq> None, st') \<and>
    db_rep st' (D(key := None)) (if D key = None then E else E(key := None)) \<and>
    st_mem st' = (if D key = None then st_mem st
      else release uint64_type key (E key) (release objptr_type key (D key) (st_mem st))) \<and>
    ht_Len (db_dict (st_db st')) = ht_Len (db_dict (st_db st))"
  using GenericDelete_rep [OF assms] by blast

lemma GenericDelete_removes_witness:
  "\<exists>st st'. sample_store = Ret st \<and> GenericDelete ''k'' st = Ret (True, st') \<and>
     GetExpire ''k'' st' = Ret (- 1)"
proof -
  obtain st where st: "sample_store = Ret st" "db_rep st [''k'' \<mapsto> Some 0] [''k'' \<mapsto> 7]"
    using sample_store_rep by blast
  from GenericDelete_removes [OF st(2), of "''k''"] obtain st' where
    st': "GenericDelete ''k'' st = Ret (True, st')"
      "db_rep st' ([''k'' \<mapsto> Some 0](''k'' := None)) ([''k'' \<mapsto> 7](''k'' := None))" by auto
  with st(1) GetExpire_rep [OF st'(2), of "''k''"] show ?thesis by auto
qed

text \<open>
  \<open>SetKeyAddOrUpdated\<close> works for a new key only as long as its bucket is empty: as soon as
  another key is there, raw insertion says the key exists, and reading the access time of its (nil)
  old value panics.
\<close>

lemma SetKey_AddOrUpdated_new_key:
  assumes "db_rep st D E" and "valid_ptr (st_objs st) val" and "ht_RehashingIdx (db_dict (st_db st)) < 0"
    and "D key = None" and "flags AND SetKeyAddOrUpdated \<noteq> 0" and "flags AND SetKeyAlreadyExists = 0"
  shows "SetKey now key val flags st = Panics NilDeref \<longleftrightarrow> bucket_used (db_dict (st_db st)) D key"
proof -
  from assms(1) obtain d where rd: "represents (db_dict (st_db st)) D d" by (auto simp: db_rep_def)
  obtain e h m where raw: "AddRaw objptr_type key (db_dict (st_db st)) (st_mem st) =
      Ret (e, bucket_used (db_dict (st_db st)) D key, h, m)"
    and ent: "rep_entry h (D(key \<mapsto> vt_zero objptr_type)) d key e"
    using AddRaw_represents [OF rd assms(3), of objptr_type key "st_mem st"] assms(4) by auto
  have nil: "GetVal objptr_type (Some e) h = None"
    using GetVal_rep_entry [OF ent, of objptr_type] by (simp add: objptr_type_def)
  have run: "SetKey now key val flags st =
      gobind (addInternal now key val True st) (\<lambda>st2. if flags AND SetKeyKeepTTL = 0 then RmExpire key st2 else Ret st2)"
    using assms(5,6) by (simp add: SetKey_def key_found_def)
  show ?thesis
  proof (cases "bucket_used (db_dict (st_db st)) D key")
    case True
    then have "addInternal now key val True st = Panics NilDeref"
      using raw nil by (simp add: addInternal_def setValue_def deref_def)
    with run True show ?thesis by simp
  next
    case False
    then have "addInternal now key val True st = add now key val st"
      using raw by (simp add: addInternal_def add_def)
    moreover obtain st2 where st2: "add now key val st = Ret st2" "db_rep st2 (D(key \<mapsto> val)) E"
      using add_rep [OF assms(1,3,2)] by blast
    moreover obtain st3 where "RmExpire key st2 = Ret st3" using RmExpire_rep [OF st2(2)] by blast
    ultimately show ?thesis using run False by simp
  qed
qed

text \<open>Of sixteen buckets, \<open>f\<close> has another one than \<open>k\<close>, and \<open>K\<close> has the same.\<close>

lemma SetKey_AddOrUpdated_new_key_witness:
  "\<exists>st. sample_store = Ret st \<and> SetKey 0 ''f'' (Some 1) SetKeyAddOrUpdated st \<noteq> Panics NilDeref \<and>
     SetKey 0 ''K'' (Some 1) SetKeyAddOrUpdated st = Panics NilDeref"
proof -
  obtain st where st: "sample_store = Ret st" "db_rep st [''k'' \<mapsto> Some 0] [''k'' \<mapsto> 7]"
    "ht_RehashingIdx (db_dict (st_db st)) = -1" "length (st_objs st) = 2" using sample_store_rep by blast
  have "gobind sample_store (\<lambda>st. Ret (ht_Size (db_dict (st_db st)))) = Ret 16" by code_simp
  then have sz: "ht_Size (db_dict (st_db st)) = 16" unfolding st(1) by simp
  have "hidx ''k'' 16 \<noteq> hidx ''f'' 16 \<and> hidx ''k'' 16 = hidx ''K'' 16" by code_simp
  then have "\<not> bucket_used (db_dict (st_db st)) [''k'' \<mapsto> Some 0] ''f''"
    "bucket_used (db_dict (st_db st)) [''k'' \<mapsto> Some 0] ''K''"
    by (simp_all add: bucket_used_def sz)
  then have "SetKey 0 ''f'' (Some 1) SetKeyAddOrUpdated st \<noteq> Panics NilDeref"
    "SetKey 0 ''K'' (Some 1) SetKeyAddOrUpdated st = Panics NilDeref"
    using SetKey_AddOrUpdated_new_key [OF st(2), of "Some 1" _ SetKeyAddOrUpdated 0] st(3,4)
    by (simp_all add: valid_ptr_def SetKeyAddOrUpdated_def SetKeyAlreadyExists_def)
  with st(1) show ?thesis by blast
qed

section \<open>The pool of candidates\<close>

text \<open>
  C16: a key enters the pool in front of the first entry that is at least as idle; the pool stays
  sorted by idle time, filled from the front, and when there are five candidates for its four slots
  the least idle one is dropped, be it the new one or an old one. Among entries that are equally idle the new one comes
  first (the comment in the code says that they are put on the right).
\<close>

lemma pool_insert_keeps_most_idle:
  assumes "pool_rep ep xs" and "key \<noteq> []"
  shows "pool_rep (pool_insert ep key idle) (pool_add \<lparr>ev_Key = key, ev_Idle = idle\<rparr> xs)"
  using assms by (rule pool_insert_rep)

lemma NewLRU_rep: "pool_rep (lru_ep (NewLRU hz clock)) []"
  by (simp add: pool_rep_def NewLRU_def)

lemma pool_insert_keeps_most_idle_witness:
  "pool_rep (pool_insert (lru_ep (NewLRU 10 0)) ''k'' 5) [\<lparr>ev_Key = ''k'', ev_Idle = 5\<rparr>]"
  using pool_insert_keeps_most_idle [OF NewLRU_rep [of 10 0], of "''k''" 5]
  by (simp add: pool_add_def EVPOOL_SIZE_def)


text \<open>With \<open>hz\<close> 0 (the LRU the repository's tests make) the first sampled key makes it panic, whatever its object is.\<close>

lemma EvictionPoolPopulate_hz_zero:
  assumes "represents sampleDict S ds" and "ht_RehashingIdx sampleDict < 0" and "fair_draws rnd (ht_Size sampleDict)"
    and "S key \<noteq> None" and "represents keyDict D dk" and "lru_hz l = 0"
  shows "EvictionPoolPopulate now rnd objs sampleDict keyDict l = Panics DivideByZero"
proof -
  from GetSomeKeys_samples [OF assms(1-3), of MEMORY_SAMPLES] obtain keys where
    keys: "GetSomeKeys rnd MEMORY_SAMPLES sampleDict = Ret keys" "int (length keys) = min 5 (int (card (dom S)))"
    by (auto simp: MEMORY_SAMPLES_def)
  have "finite (dom S)" using represents_card [OF assms(1)] by simp
  then have "0 < card (dom S)" using assms(4) by (auto simp: card_gt_0_iff)
  then obtain k ks where "keys = k # ks" using keys(2) by (cases keys) auto
  then show ?thesis
    using keys(1) Get_represents [OF assms(5), of k] assms(6)
    by (simp add: EvictionPoolPopulate_def estimateObjectIdleTime_def lruClock_def)
qed

text \<open>A sample dictionary with one of the two keys of the key dictionary.\<close>

definition one_key :: "objptr hashtable go" where
  "one_key = gobind (NewHashTable 16) (\<lambda>h. gobind (ht_Set objptr_type ''k'' (Some 0) h 0) (\<lambda>(h', m). Ret h'))"

definition two_expiring :: "store go" where
  "two_expiring =
     gobind (empty_store (word_of_int (MAX_MEMORY - 40))) (\<lambda>st.
     gobind (SetKey 0 ''k'' (Some 0) SetKeyDoesNotExist st) (\<lambda>st.
     gobind (SetExpire ''k'' 7 st) (\<lambda>st.
     gobind (SetKey 0 ''j'' (Some 1) SetKeyDoesNotExist st) (SetExpire ''j'' 8))))"

lemma SetKey_new:
  assumes "db_rep st D E" and "D key = None" and "ht_RehashingIdx (db_dict (st_db st)) < 0" and "valid_ptr (st_objs st) val"
    and "E key = None"
  obtains st' where "SetKey now key val SetKeyDoesNotExist st = Ret st'" "db_rep st' (D(key \<mapsto> val)) E"
    "contents (st_objs st') = contents (st_objs st)"
proof -
  have E: "(if SetKeyDoesNotExist AND SetKeyKeepTTL = 0 then E(key := None) else E) = E"
    using assms(5) by (simp add: fun_upd_idem)
  have "\<exists>st'. SetKey now key val SetKeyDoesNotExist st = Ret st' \<and> contents (st_objs st') = contents (st_objs st) \<and>
      db_rep st' (D(key \<mapsto> val)) (if SetKeyDoesNotExist AND SetKeyKeepTTL = 0 then E(key := None) else E)"
    by (rule SetKey_rep [OF assms(1,4)]) (use assms(3) in \<open>simp_all add: SetKeyDoesNotExist_def SetKeyAlreadyExists_def SetKeyAddOrUpdated_def\<close>)
  with that show thesis unfolding E by blast
qed

lemma two_expiring_rep:
  "\<exists>st. two_expiring = Ret st \<and> db_rep st [''k'' \<mapsto> Some 0, ''j'' \<mapsto> Some 1] [''k'' \<mapsto> 7, ''j'' \<mapsto> 8] \<and>
     getUsedMemory (st_mem st) = MAX_MEMORY + 28"
proof -
  obtain st0 where st0: "empty_store (word_of_int (MAX_MEMORY - 40)) = Ret st0" "db_rep st0 Map.empty Map.empty"
    "ht_RehashingIdx (db_dict (st_db st0)) = -1" "st_objs st0 = sample_objs"
    using empty_store_rep by blast
  have ptr: "valid_ptr objs (Some 0)" "valid_ptr objs (Some 1)" if "contents objs = contents sample_objs" for objs
    using contents_length [OF that] by (simp_all add: valid_ptr_def sample_objs_def)
  obtain st1 where st1: "SetKey 0 ''k'' (Some 0) SetKeyDoesNotExist st0 = Ret st1" "db_rep st1 [''k'' \<mapsto> Some 0] Map.empty"
    "contents (st_objs st1) = contents (st_objs st0)"
    by (rule SetKey_new [OF st0(2), where key = "''k''" and val = "Some 0" and now = 0]) (use st0(3,4) ptr in simp_all)
  from SetExpire_rep [OF st1(2), of "''k''" 7] obtain st2 where
    st2: "SetExpire ''k'' 7 st1 = Ret st2" "db_rep st2 [''k'' \<mapsto> Some 0] [''k'' \<mapsto> 7]" "st_objs st2 = st_objs st1" by auto
  have "gobind (gobind (empty_store (word_of_int (MAX_MEMORY - 40))) (\<lambda>st.
      gobind (SetKey 0 ''k'' (Some 0) SetKeyDoesNotExist st) (SetExpire ''k'' 7))) (\<lambda>st. Ret (ht_RehashingIdx (db_dict (st_db st)))) = Ret (-1)"
    by code_simp
  then have idx: "ht_RehashingIdx (db_dict (st_db st2)) = -1" using st0(1) st1(1) st2(1) by simp
  obtain st3 where st3: "SetKey 0 ''j'' (Some 1) SetKeyDoesNotExist st2 = Ret st3"
    "db_rep st3 [''k'' \<mapsto> Some 0, ''j'' \<mapsto> Some 1] [''k'' \<mapsto> 7]"
    by (rule SetKey_new [OF st2(2), where key = "''j''" and val = "Some 1" and now = 0]) (use idx st0(4) st1(3) st2(3) ptr in simp_all)
  from SetExpire_rep [OF st3(2), of "''j''" 8] obtain st where
    st: "SetExpire ''j'' 8 st3 = Ret st" "db_rep st [''k'' \<mapsto> Some 0, ''j'' \<mapsto> Some 1] [''k'' \<mapsto> 7, ''j'' \<mapsto> 8]" by auto
  have run: "two_expiring = Ret st" using st0(1) st1(1) st2(1) st3(1) st(1) by (simp add: two_expiring_def)
  have "gobind two_expiring (\<lambda>st. Ret (getUsedMemory (st_mem st))) = Ret (MAX_MEMORY + 28)" by code_simp
  then have "getUsedMemory (st_mem st) = MAX_MEMORY + 28" unfolding run by simp
  with run st(2) show ?thesis by blast
qed


section \<open>Eviction\<close>

text \<open>
  C25: above the memory limit, with a pool sorted by idle time (what populating leaves) in which no candidate, that is no key with an expire
  time, occurs twice, and when the candidates are worth enough, \<open>PerformEvictions\<close> returns with the used memory at or below the limit; it
  has deleted some candidates, none of which is less idle than a candidate it kept, and stopped as soon as enough was freed. Every key with a
  time is a key of the dictionary here.
\<close>

lemma PerformEvictions_reaches_limit:
  assumes "db_rep st D E" and "dom E \<subseteq> dom D" and "pool_rep (lru_ep l) xs" and "distinct (candidates l E)"
    and "MAX_MEMORY < getUsedMemory (st_mem st)"
    and "getUsedMemory (st_mem st) - MAX_MEMORY \<le> total_gain (candidates l E)"
    and "total_gain (candidates l E) < 2 ^ 63"
  shows "\<exists>n st'. PerformEvictions l st = Ret (EvictOk, st') \<and> n \<le> length (candidates l E) \<and>
    db_rep st' (D |` (- set (take n (candidates l E)))) (E |` (- set (take n (candidates l E)))) \<and>
    (\<forall>e \<in> set (lru_ep l). \<forall>e' \<in> set (lru_ep l). evictable E e \<and> evictable E e' \<and>
       ev_Key e \<in> set (take n (candidates l E)) \<and> ev_Key e' \<notin> set (take n (candidates l E)) \<longrightarrow>
       sint (ev_Idle e') \<le> sint (ev_Idle e)) \<and>
    getUsedMemory (st_mem st') = getUsedMemory (st_mem st) - total_gain (take n (candidates l E)) \<and>
    getUsedMemory (st_mem st') \<le> MAX_MEMORY \<and>
    MAX_MEMORY < getUsedMemory (st_mem st) - total_gain (take (n - 1) (candidates l E))"
  using PerformEvictions_frees [OF assms(1,2,4-7)] candidates_by_idle [OF assms(3,4)] by blast

definition sample_lru :: lru where
  "sample_lru = (NewLRU 10 0)\<lparr>lru_ep := pool_insert (pool_insert (lru_ep (NewLRU 10 0)) ''j'' 9) ''k'' 5\<rparr>"

lemma sample_lru_ep:
  "lru_ep sample_lru = [\<lparr>ev_Key = ''k'', ev_Idle = 5\<rparr>, \<lparr>ev_Key = ''j'', ev_Idle = 9\<rparr>] @ replicate 2 \<lparr>ev_Key = [], ev_Idle = 0\<rparr>"
  by code_simp

lemma sample_lru_candidates: "candidates sample_lru [''k'' \<mapsto> (7 :: uint64), ''j'' \<mapsto> 8] = [''j'', ''k'']"
  by (simp add: candidates_def evictable_def sample_lru_ep numeral_2_eq_2)

lemma PerformEvictions_reaches_limit_witness:
  "\<exists>st st'. two_expiring = Ret st \<and> PerformEvictions sample_lru st = Ret (EvictOk, st') \<and>
     getUsedMemory (st_mem st') \<le> MAX_MEMORY \<and> db_rep st' [''k'' \<mapsto> Some 0] [''k'' \<mapsto> 7]"
proof -
  let ?D = "[''k'' \<mapsto> Some 0, ''j'' \<mapsto> (Some 1 :: objptr)]" and ?E = "[''k'' \<mapsto> (7 :: uint64), ''j'' \<mapsto> 8]"
  obtain st where st: "two_expiring = Ret st" "db_rep st ?D ?E" "getUsedMemory (st_mem st) = MAX_MEMORY + 28"
    using two_expiring_rep by blast
  have gain: "total_gain [''j'', ''k''] = 68" "total_gain [''j''] = 34" "total_gain [] = 0" by (simp_all add: total_gain_def evict_gain_def)
  have "pool_rep (lru_ep sample_lru) [\<lparr>ev_Key = ''k'', ev_Idle = 5\<rparr>, \<lparr>ev_Key = ''j'', ev_Idle = 9\<rparr>]"
    unfolding pool_rep_def sample_lru_ep by (auto simp: EVPOOL_SIZE_def)
  from PerformEvictions_reaches_limit [OF st(2) _ this, unfolded sample_lru_candidates gain st(3)] obtain n st' where
    run: "PerformEvictions sample_lru st = Ret (EvictOk, st')" "getUsedMemory (st_mem st') \<le> MAX_MEMORY"
    and n: "n \<le> 2" "MAX_MEMORY < MAX_MEMORY + 28 - total_gain (take (n - 1) [''j'', ''k''])"
      "getUsedMemory (st_mem st') = MAX_MEMORY + 28 - total_gain (take n [''j'', ''k''])"
    and rep: "db_rep st' (?D |` (- set (take n [''j'', ''k'']))) (?E |` (- set (take n [''j'', ''k''])))" by auto
  have "n \<noteq> 0" using n(3) run(2) gain by (cases n) auto
  moreover have "n \<noteq> 2" using n(2) gain by (cases "n = 2") auto
  ultimately have "n = 1" using n(1) by linarith
  moreover have "?D |` (- {''j''}) = [''k'' \<mapsto> Some 0]" "?E |` (- {''j''}) = [''k'' \<mapsto> 7]"
    by (auto simp: restrict_map_def fun_eq_iff)
  ultimately have "db_rep st' [''k'' \<mapsto> Some 0] [''k'' \<mapsto> 7]" using rep by simp
  with st(1) run show ?thesis by blast
qed

text \<open>
  C32: above the limit, when no key of the pool has an expire time, \<open>PerformEvictions\<close> never returns:
  it neither fails nor fills the pool again.
\<close>

lemma PerformEvictions_never_returns:
  assumes "db_rep st D E" and "MAX_MEMORY < getUsedMemory (st_mem st)"
    and "\<forall>e \<in> set (lru_ep l). \<not> evictable E e"
  shows "PerformEvictions l st = Diverges"
proof -
  have word: "st_mem st = word_of_int (getUsedMemory (st_mem st))" by (simp add: getUsedMemory_def)
  have free: "st_mem st - word_of_int MAX_MEMORY = word_of_int (getUsedMemory (st_mem st) - MAX_MEMORY)"
    by (subst word) (simp only: of_int_diff)
  have "(word_of_int 0 :: int64) <s word_of_int (getUsedMemory (st_mem st) - MAX_MEMORY)"
    using assms(2) sint_lt [of "st_mem st"]
    by (subst sless_small) (simp_all add: getUsedMemory_def MAX_MEMORY_def)
  then have "evict_loop l (st_mem st - word_of_int MAX_MEMORY) 0 st = Diverges"
    unfolding free using evict_loop_stuck [OF assms(1,3)] by simp
  with assms(2) show ?thesis by (simp add: PerformEvictions_def getMaxmemoryState_def)
qed

lemma PerformEvictions_never_returns_witness:
  "\<exists>st. sample_store = Ret st \<and> PerformEvictions (NewLRU 10 0) st = Diverges"
proof -
  obtain st where st: "sample_store = Ret st" "db_rep st [''k'' \<mapsto> Some 0] [''k'' \<mapsto> 7]"
    "getUsedMemory (st_mem st) = MAX_MEMORY + 34" using sample_store_rep by blast
  have "\<forall>e \<in> set (lru_ep (NewLRU 10 0)). \<not> evictable [''k'' \<mapsto> 7] e"
    by (simp add: NewLRU_def evictable_def)
  with PerformEvictions_never_returns [OF st(2), of "NewLRU 10 0"] st(1,3) show ?thesis by auto
qed

end
