(* ===== verification/DList.thy ===== *)
theory DList
  imports Prelude
begin

text \<open>
  \<open>src/db/dlist.go\<close>: the doubly linked list. The nodes of a list live in its store, a pointer is an
  index into it and \<open>None\<close> is nil; an operation that is given a nil node panics where the code
  dereferences it.
\<close>

section \<open>Data\<close>

record 'a listNode =
  ln_Prev :: "nat option"
  ln_Next :: "nat option"
  ln_Value :: 'a

record 'a dlist =
  l_Nodes :: "'a listNode list"
  l_Head :: "nat option"
  l_Tail :: "nat option"
  l_Length :: int

datatype direction = DIRECTION_HEAD | DIRECTION_TAIL

record listIter =
  it_Next :: "nat option"
  it_Direction :: direction

definition NewList :: "'a dlist" where
  "NewList = \<lparr>l_Nodes = [], l_Head = None, l_Tail = None, l_Length = 0\<rparr>"

definition new_node :: "'a \<Rightarrow> 'a listNode" where
  "new_node v = \<lparr>ln_Prev = None, ln_Next = None, ln_Value = v\<rparr>"

text \<open>Field assignment through a pointer.\<close>

definition set_Prev :: "nat \<Rightarrow> nat option \<Rightarrow> 'a listNode list \<Rightarrow> 'a listNode list" where
  "set_Prev a p ns = ns[a := (ns ! a)\<lparr>ln_Prev := p\<rparr>]"

definition set_Next :: "nat \<Rightarrow> nat option \<Rightarrow> 'a listNode list \<Rightarrow> 'a listNode list" where
  "set_Next a p ns = ns[a := (ns ! a)\<lparr>ln_Next := p\<rparr>]"

section \<open>Operations\<close>

text \<open>\<open>Empty\<close> walks over the nodes before it drops them.\<close>

partial_function (option) walk :: "'a listNode list \<Rightarrow> nat option \<Rightarrow> (panic + unit) option" where
  "walk ns p = (case p of None \<Rightarrow> Ret () | Some a \<Rightarrow> walk ns (ln_Next (ns ! a)))"

definition l_Empty :: "'a dlist \<Rightarrow> 'a dlist go" where
  "l_Empty l = gobind (walk (l_Nodes l) (l_Head l))
     (\<lambda>_. Ret (l\<lparr>l_Head := None, l_Tail := None, l_Length := 0\<rparr>))"

definition Release :: "'a dlist \<Rightarrow> 'a dlist go" where
  "Release l = l_Empty l"

definition AddNodeHead :: "'a \<Rightarrow> 'a dlist \<Rightarrow> 'a dlist" where
  "AddNodeHead v l =
     (let n = length (l_Nodes l); ns = l_Nodes l @ [new_node v] in
      case l_Head l of
        None \<Rightarrow> l\<lparr>l_Nodes := ns, l_Head := Some n, l_Tail := Some n, l_Length := l_Length l + 1\<rparr>
      | Some h \<Rightarrow> l\<lparr>l_Nodes := set_Prev h (Some n) (set_Next n (Some h) ns), l_Head := Some n,
                     l_Length := l_Length l + 1\<rparr>)"

definition AddNodeTail :: "'a \<Rightarrow> 'a dlist \<Rightarrow> 'a dlist" where
  "AddNodeTail v l =
     (let n = length (l_Nodes l); ns = l_Nodes l @ [new_node v] in
      case l_Tail l of
        None \<Rightarrow> l\<lparr>l_Nodes := ns, l_Head := Some n, l_Tail := Some n, l_Length := l_Length l + 1\<rparr>
      | Some t \<Rightarrow> l\<lparr>l_Nodes := set_Next t (Some n) (set_Prev n (Some t) ns), l_Tail := Some n,
                     l_Length := l_Length l + 1\<rparr>)"

text \<open>
  The insertion before a node that has a predecessor assigns \<open>node.Prev.Next\<close> in a tuple whose
  operands are evaluated first, when \<open>node.Prev\<close> is still nil.
\<close>

definition InsertNode :: "nat option \<Rightarrow> 'a \<Rightarrow> bool \<Rightarrow> 'a dlist \<Rightarrow> 'a dlist go" where
  "InsertNode oldNode v after l =
     (case oldNode of
        None \<Rightarrow> Panics NilDeref
      | Some a \<Rightarrow>
          let n = length (l_Nodes l); ns = l_Nodes l @ [new_node v] in
          if after then
            (case ln_Next (l_Nodes l ! a) of
               None \<Rightarrow> Ret (AddNodeTail v l)
             | Some b \<Rightarrow>
                 Ret (l\<lparr>l_Nodes := set_Prev b (Some n) (set_Next a (Some n)
                          (set_Next n (Some b) (set_Prev n (Some a) ns))),
                        l_Length := l_Length l + 1\<rparr>))
          else
            (case ln_Prev (l_Nodes l ! a) of
               None \<Rightarrow> Ret (AddNodeHead v l)
             | Some b \<Rightarrow>
                 (case ln_Prev (ns ! n) of
                    None \<Rightarrow> Panics NilDeref
                  | Some c \<Rightarrow>
                      Ret (l\<lparr>l_Nodes := set_Next c (Some n) (set_Prev a (Some n)
                               (set_Next n (Some a) (set_Prev n (Some b) ns))),
                             l_Length := l_Length l + 1\<rparr>))))"

definition RemoveNode :: "nat option \<Rightarrow> 'a dlist \<Rightarrow> 'a dlist go" where
  "RemoveNode node l =
     (case node of
        None \<Rightarrow> Panics NilDeref
      | Some a \<Rightarrow>
          let ns = l_Nodes l;
              l1 = (case ln_Prev (ns ! a) of
                      Some b \<Rightarrow> l\<lparr>l_Nodes := set_Next b (ln_Next (ns ! a)) ns\<rparr>
                    | None \<Rightarrow> l\<lparr>l_Head := ln_Next (ns ! a)\<rparr>);
              ns1 = l_Nodes l1;
              l2 = (case ln_Next (ns1 ! a) of
                      Some c \<Rightarrow> l1\<lparr>l_Nodes := set_Prev c (ln_Prev (ns1 ! a)) ns1\<rparr>
                    | None \<Rightarrow> l1\<lparr>l_Tail := ln_Prev (ns1 ! a)\<rparr>) in
          Ret (l2\<lparr>l_Nodes := set_Prev a None (set_Next a None (l_Nodes l2)), l_Length := l_Length l2 - 1\<rparr>))"

definition l_Len :: "'a dlist \<Rightarrow> int" where
  "l_Len l = l_Length l"

section \<open>Iterators\<close>

definition NewListIterator :: "direction \<Rightarrow> 'a dlist \<Rightarrow> listIter" where
  "NewListIterator d l =
     \<lparr>it_Next = (if d = DIRECTION_HEAD then l_Head l else l_Tail l), it_Direction = d\<rparr>"

definition NextNode :: "'a dlist \<Rightarrow> listIter \<Rightarrow> nat option \<times> listIter" where
  "NextNode l it =
     (case it_Next it of
        None \<Rightarrow> (None, it)
      | Some a \<Rightarrow>
          (Some a, it\<lparr>it_Next := (if it_Direction it = DIRECTION_HEAD then ln_Next (l_Nodes l ! a)
                                 else ln_Prev (l_Nodes l ! a))\<rparr>))"

definition Rewind :: "'a dlist \<Rightarrow> listIter \<Rightarrow> listIter" where
  "Rewind l it = it\<lparr>it_Next := (if it_Direction it = DIRECTION_HEAD then l_Head l else l_Tail l)\<rparr>"

text \<open>
  The loop every caller of an iterator runs, \<open>for n := it.NextNode(); n != nil; n = it.NextNode()\<close>,
  collecting the values.
\<close>

partial_function (option) iterate :: "'a dlist \<Rightarrow> listIter \<Rightarrow> (panic + 'a list) option" where
  "iterate l it =
     (case NextNode l it of
        (None, _) \<Rightarrow> Ret []
      | (Some a, it') \<Rightarrow> gobind (iterate l it') (\<lambda>vs. Ret (ln_Value (l_Nodes l ! a) # vs)))"

declare walk.simps [code] iterate.simps [code]

section \<open>Segments\<close>

text \<open>
  The nodes \<open>as\<close>, reached from the pointer \<open>p\<close>: the first one points back to \<open>prv\<close>, the last one
  forward to \<open>nxt\<close>, and \<open>lst\<close> is the last one (\<open>prv\<close> when there is none).
\<close>

fun lseg :: "'a listNode list \<Rightarrow> nat option \<Rightarrow> nat option \<Rightarrow> nat list \<Rightarrow> nat option \<Rightarrow> nat option \<Rightarrow> bool" where
  "lseg ns prv p [] nxt lst \<longleftrightarrow> p = nxt \<and> prv = lst"
| "lseg ns prv p (a # as) nxt lst \<longleftrightarrow>
     p = Some a \<and> a < length ns \<and> ln_Prev (ns ! a) = prv \<and> lseg ns (Some a) (ln_Next (ns ! a)) as nxt lst"

lemma lseg_append:
  "lseg ns prv p (xs @ ys) nxt lst \<longleftrightarrow> (\<exists>m l. lseg ns prv p xs m l \<and> lseg ns l m ys nxt lst)"
  by (induction xs arbitrary: prv p) auto

lemma lseg_bound: "lseg ns prv p as nxt lst \<Longrightarrow> a \<in> set as \<Longrightarrow> a < length ns"
  by (induction as arbitrary: prv p) auto

lemma lseg_last: "lseg ns prv p as nxt lst \<Longrightarrow> lst = (if as = [] then prv else Some (last as))"
  by (induction as arbitrary: prv p) auto

lemma lseg_first: "lseg ns prv p as nxt lst \<Longrightarrow> p = (if as = [] then nxt else Some (hd as))"
  by (cases as) auto

lemma lseg_frame:
  assumes "lseg ns prv p as nxt lst" and "\<And>a. a \<in> set as \<Longrightarrow> ns' ! a = ns ! a" and "length ns \<le> length ns'"
  shows "lseg ns' prv p as nxt lst"
  using assms by (induction as arbitrary: prv p) auto

lemma nth_set_other:
  "b \<in> S \<Longrightarrow> a \<notin> S \<Longrightarrow> set_Prev a q ns ! b = ns ! b"
  "b \<in> S \<Longrightarrow> a \<notin> S \<Longrightarrow> set_Next a q ns ! b = ns ! b"
  by (cases "a = b"; simp add: set_Prev_def set_Next_def)+

lemma length_set [simp]: "length (set_Prev a q ns) = length ns" "length (set_Next a q ns) = length ns"
  by (simp_all add: set_Prev_def set_Next_def)

lemma lseg_set_other:
  assumes "lseg ns prv p as nxt lst" and "a \<notin> set as"
  shows "lseg (set_Prev a q ns) prv p as nxt lst" and "lseg (set_Next a q ns) prv p as nxt lst"
  using assms by (auto intro!: lseg_frame [of ns] nth_set_other)

lemma lseg_set_Prev_hd:
  assumes "lseg ns prv p (a # as) nxt lst" and "a \<notin> set as"
  shows "lseg (set_Prev a q ns) q p (a # as) nxt lst"
proof -
  have "lseg (set_Prev a q ns) (Some a) (ln_Next (ns ! a)) as nxt lst"
    by (rule lseg_set_other) (use assms in auto)
  with assms show ?thesis by (simp add: set_Prev_def)
qed

lemma lseg_set_Next_last:
  assumes "lseg ns prv p (as @ [a]) nxt lst" and "a \<notin> set as"
  shows "lseg (set_Next a q ns) prv p (as @ [a]) q lst"
proof -
  from assms(1) obtain m l where seg: "lseg ns prv p as m l" "lseg ns l m [a] nxt lst"
    unfolding lseg_append by blast
  have "lseg (set_Next a q ns) prv p as m l"
    by (rule lseg_set_other(2) [OF seg(1) assms(2)])
  with seg(2) show ?thesis unfolding lseg_append by (auto simp: set_Next_def)
qed

lemma lseg_alloc: "lseg ns prv p as nxt lst \<Longrightarrow> lseg (ns @ [n]) prv p as nxt lst"
  by (rule lseg_frame) (auto simp: nth_append dest: lseg_bound)

section \<open>The list a store represents\<close>

definition dl_shape :: "'a dlist \<Rightarrow> nat list \<Rightarrow> bool" where
  "dl_shape l as \<longleftrightarrow>
     lseg (l_Nodes l) None (l_Head l) as None (l_Tail l) \<and> distinct as \<and> l_Length l = int (length as)"

definition dl_values :: "'a dlist \<Rightarrow> nat list \<Rightarrow> 'a list" where
  "dl_values l as = map (\<lambda>a. ln_Value (l_Nodes l ! a)) as"

definition dl_rep :: "'a dlist \<Rightarrow> 'a list \<Rightarrow> bool" where
  "dl_rep l vs \<longleftrightarrow> (\<exists>as. dl_shape l as \<and> vs = dl_values l as)"

lemma value_set [simp]:
  "ln_Value (set_Prev a q ns ! b) = ln_Value (ns ! b)" "ln_Value (set_Next a q ns ! b) = ln_Value (ns ! b)"
  by (cases "a < length ns"; cases "a = b"; simp add: set_Prev_def set_Next_def list_update_beyond)+

lemma NewList_shape: "dl_shape NewList []"
  by (simp add: dl_shape_def NewList_def)

lemma dl_shape_bound: "dl_shape l as \<Longrightarrow> a \<in> set as \<Longrightarrow> a < length (l_Nodes l)"
  by (auto simp: dl_shape_def dest: lseg_bound)

lemma dl_values_old:
  assumes "\<And>a. a \<in> set as \<Longrightarrow> ln_Value (l_Nodes l' ! a) = ln_Value (l_Nodes l ! a)"
  shows "dl_values l' as = dl_values l as"
  using assms by (simp add: dl_values_def)

lemma AddNodeHead_shape:
  assumes sh: "dl_shape l as"
  shows "dl_shape (AddNodeHead v l) (length (l_Nodes l) # as) \<and>
    dl_values (AddNodeHead v l) (length (l_Nodes l) # as) = v # dl_values l as"
proof -
  let ?n = "length (l_Nodes l)" and ?ns = "l_Nodes l @ [new_node v]"
  have fresh: "?n \<notin> set as" using dl_shape_bound [OF sh] by blast
  have seg: "lseg ?ns None (l_Head l) as None (l_Tail l)"
    using sh by (auto simp: dl_shape_def intro: lseg_alloc)
  show ?thesis
  proof (cases as)
    case Nil
    with sh show ?thesis
      by (auto simp: dl_shape_def AddNodeHead_def dl_values_def new_node_def Let_def)
  next
    case (Cons a bs)
    with sh have a: "l_Head l = Some a" "a \<notin> set bs" by (auto simp: dl_shape_def)
    have "lseg (set_Next ?n (Some a) ?ns) None (Some a) as None (l_Tail l)"
      using lseg_set_other(2) [OF seg fresh] a by simp
    then have seg': "lseg (set_Prev a (Some ?n) (set_Next ?n (Some a) ?ns)) (Some ?n) (Some a) as None (l_Tail l)"
      unfolding Cons by (rule lseg_set_Prev_hd) (rule a(2))
    have "a \<noteq> ?n" "a < ?n" using fresh Cons dl_shape_bound [OF sh, of a] by auto
    with a seg' sh fresh Cons show ?thesis
      by (auto simp: dl_shape_def AddNodeHead_def dl_values_def Let_def set_Prev_def set_Next_def new_node_def
          nth_append dl_shape_bound nth_list_update dest: lseg_bound)
  qed
qed

end
