(* ===== verification/DList_Props.thy ===== *)
theory DList_Props
  imports DList
begin

text \<open>
  The doubly linked list implements a sequence: what each operation does to the sequence of values,
  what the iterators yield, and where an insertion before a node panics.
\<close>

section \<open>The other operations on the shape\<close>

lemma AddNodeTail_shape:
  assumes sh: "dl_shape l as"
  shows "dl_shape (AddNodeTail v l) (as @ [length (l_Nodes l)]) \<and>
    dl_values (AddNodeTail v l) (as @ [length (l_Nodes l)]) = dl_values l as @ [v]"
proof -
  let ?n = "length (l_Nodes l)" and ?ns = "l_Nodes l @ [new_node v]"
  have fresh: "?n \<notin> set as" using dl_shape_bound [OF sh] by blast
  have seg: "lseg ?ns None (l_Head l) as None (l_Tail l)"
    using sh by (auto simp: dl_shape_def intro: lseg_alloc)
  have tail: "l_Tail l = (if as = [] then None else Some (last as))"
    using lseg_last [OF seg] .
  show ?thesis
  proof (cases as rule: rev_cases)
    case Nil
    with sh show ?thesis
      by (auto simp: dl_shape_def AddNodeTail_def dl_values_def new_node_def Let_def)
  next
    case (snoc bs t)
    then have t: "l_Tail l = Some t" "t \<notin> set bs" "t \<noteq> ?n" "t < ?n"
      using tail sh fresh dl_shape_bound [OF sh, of t] by (auto simp: dl_shape_def)
    let ?ns1 = "set_Prev ?n (Some t) ?ns"
    have "lseg ?ns1 None (l_Head l) (bs @ [t]) None (l_Tail l)"
      using lseg_set_other(1) [OF seg fresh] snoc by simp
    from lseg_set_Next_last [OF this t(2), of "Some ?n"]
    have seg': "lseg (set_Next t (Some ?n) ?ns1) None (l_Head l) as (Some ?n) (Some t)"
      using snoc t(1) by simp
    have "ln_Prev (set_Next t (Some ?n) ?ns1 ! ?n) = Some t" "ln_Next (set_Next t (Some ?n) ?ns1 ! ?n) = None"
      using t(3) by (simp_all add: set_Next_def set_Prev_def new_node_def)
    with seg' have "lseg (set_Next t (Some ?n) ?ns1) None (l_Head l) (as @ [?n]) None (Some ?n)"
      unfolding lseg_append by auto
    with t sh fresh show ?thesis
      by (auto simp: dl_shape_def AddNodeTail_def dl_values_def Let_def new_node_def nth_append
          dest: dl_shape_bound [OF sh])
  qed
qed

lemma InsertNode_after_shape:
  assumes sh: "dl_shape l (xs @ a # b # ys)"
  shows "\<exists>l'. InsertNode (Some a) v True l = Ret l' \<and> dl_shape l' (xs @ a # length (l_Nodes l) # b # ys) \<and>
    dl_values l' (xs @ a # length (l_Nodes l) # b # ys) =
      dl_values l (xs @ [a]) @ v # dl_values l (b # ys)"
proof -
  let ?n = "length (l_Nodes l)" and ?ns = "l_Nodes l @ [new_node v]"
  have bound: "x < ?n" if "x \<in> set (xs @ a # b # ys)" for x using dl_shape_bound [OF sh that] .
  then have fresh: "?n \<notin> set (xs @ [a])" "?n \<notin> set (b # ys)" by (blast | auto)+
  from sh have "distinct (xs @ a # b # ys)" by (simp add: dl_shape_def)
  then have ne: "a \<noteq> b" "a \<notin> set xs" "b \<notin> set ys" "a \<notin> set (b # ys)" "b \<notin> set (xs @ [a])" by auto
  have "lseg ?ns None (l_Head l) ((xs @ [a]) @ (b # ys)) None (l_Tail l)"
    using sh by (auto simp: dl_shape_def intro: lseg_alloc)
  then obtain m k where seg: "lseg ?ns None (l_Head l) (xs @ [a]) m k" "lseg ?ns k m (b # ys) None (l_Tail l)"
    unfolding lseg_append by blast
  have k: "k = Some a" using lseg_last [OF seg(1)] by simp
  have m: "m = Some b" using seg(2) by simp
  let ?ns1 = "set_Next ?n (Some b) (set_Prev ?n (Some a) ?ns)"
  let ?ns2 = "set_Next a (Some ?n) ?ns1"
  let ?ns3 = "set_Prev b (Some ?n) ?ns2"
  have seg1: "lseg ?ns1 None (l_Head l) (xs @ [a]) m k" "lseg ?ns1 k m (b # ys) None (l_Tail l)"
    using seg fresh by (auto intro!: lseg_set_other simp del: lseg.simps)
  have seg2: "lseg ?ns2 None (l_Head l) (xs @ [a]) (Some ?n) k" "lseg ?ns2 k m (b # ys) None (l_Tail l)"
    using lseg_set_Next_last [OF seg1(1) ne(2)] lseg_set_other(2) [OF seg1(2) ne(4)] by blast+
  have seg3: "lseg ?ns3 None (l_Head l) (xs @ [a]) (Some ?n) k" "lseg ?ns3 (Some ?n) m (b # ys) None (l_Tail l)"
    using lseg_set_other(1) [OF seg2(1) ne(5)] lseg_set_Prev_hd [OF seg2(2) ne(3)] by blast+
  have n: "a \<noteq> ?n" "b \<noteq> ?n" using fresh by auto
  have node: "ln_Prev (?ns3 ! ?n) = Some a" "ln_Next (?ns3 ! ?n) = Some b"
    using n by (simp_all add: set_Next_def set_Prev_def new_node_def)
  have "lseg ?ns3 None (l_Head l) ((xs @ [a]) @ ?n # b # ys) None (l_Tail l)"
  proof -
    have "?n < length ?ns3" by simp
    with seg3(2) node m have "lseg ?ns3 (Some a) (Some ?n) (?n # b # ys) None (l_Tail l)"
      by (simp del: length_set)
    with seg3(1) k show ?thesis unfolding lseg_append by blast
  qed
  moreover have "ln_Next (l_Nodes l ! a) = Some b"
  proof -
    have "ln_Next (?ns ! a) = m" using seg(1) unfolding lseg_append by auto
    with m bound [of a] show ?thesis by (simp add: nth_append)
  qed
  moreover have "distinct (xs @ a # ?n # b # ys)"
    using sh fresh by (auto simp: dl_shape_def)
  ultimately show ?thesis
    using sh bound
    by (auto simp: InsertNode_def Let_def dl_shape_def dl_values_def nth_append new_node_def)
qed

lemma RemoveNode_shape:
  assumes sh: "dl_shape l (xs @ a # ys)"
  shows "\<exists>l'. RemoveNode (Some a) l = Ret l' \<and> dl_shape l' (xs @ ys) \<and>
    dl_values l' (xs @ ys) = dl_values l xs @ dl_values l ys"
proof -
  let ?ns = "l_Nodes l"
  from sh have dist: "distinct (xs @ a # ys)" and len: "l_Length l = int (length xs + length ys + 1)"
    by (simp_all add: dl_shape_def)
  from sh obtain k where seg: "lseg ?ns None (l_Head l) xs (Some a) k" and a: "a < length ?ns" "ln_Prev (?ns ! a) = k"
    and rest: "lseg ?ns (Some a) (ln_Next (?ns ! a)) ys None (l_Tail l)"
    by (auto simp: dl_shape_def lseg_append)
  define q where "q = ln_Next (?ns ! a)"
  have k: "k = (if xs = [] then None else Some (last xs))" using lseg_last [OF seg] .
  define ns1 where "ns1 = (case k of Some b \<Rightarrow> set_Next b q ?ns | None \<Rightarrow> ?ns)"
  define hd1 where "hd1 = (case k of Some b \<Rightarrow> l_Head l | None \<Rightarrow> q)"
  have len1: "length ns1 = length ?ns" by (simp add: ns1_def split: option.split)
  have seg1: "lseg ns1 None hd1 xs q k"
  proof (cases xs rule: rev_cases)
    case Nil
    with k show ?thesis by (simp add: hd1_def)
  next
    case (snoc zs b)
    with seg dist k show ?thesis
      using lseg_set_Next_last [of ?ns None "l_Head l" zs b "Some a" k q] by (simp add: ns1_def hd1_def)
  qed
  have kin: "b \<in> set xs" if "k = Some b" for b using k that by (auto split: if_splits)
  have rest1: "lseg ns1 (Some a) q ys None (l_Tail l)"
    unfolding ns1_def q_def using rest kin dist
    by (auto split: option.split intro!: lseg_set_other simp: disjoint_iff)
  have a1: "ln_Next (ns1 ! a) = q" "ln_Prev (ns1 ! a) = k"
  proof -
    have "a \<notin> set xs" using dist by auto
    then have "ns1 ! a = ?ns ! a"
      using kin nth_set_other(2) [of a "- set xs" _ q ?ns] by (auto simp: ns1_def split: option.split)
    with a(2) show "ln_Next (ns1 ! a) = q" "ln_Prev (ns1 ! a) = k" by (simp_all add: q_def)
  qed
  define ns2 where "ns2 = (case q of Some c \<Rightarrow> set_Prev c k ns1 | None \<Rightarrow> ns1)"
  define tl2 where "tl2 = (case q of Some c \<Rightarrow> l_Tail l | None \<Rightarrow> k)"
  have q: "q = (if ys = [] then None else Some (hd ys))" using lseg_first [OF rest1] .
  have rest2: "lseg ns2 k q ys None tl2"
  proof (cases ys)
    case Nil
    with q show ?thesis by (simp add: tl2_def)
  next
    case (Cons c zs)
    with rest1 dist q show ?thesis
      using lseg_set_Prev_hd [of ns1 "Some a" q c zs None "l_Tail l" k] by (simp add: ns2_def tl2_def)
  qed
  have qin: "c \<in> set ys" if "q = Some c" for c using q that by (auto split: if_splits)
  have seg2: "lseg ns2 None hd1 xs q k"
    unfolding ns2_def using seg1 qin dist
    by (auto split: option.split intro!: lseg_set_other simp: disjoint_iff)
  have "lseg ns2 None hd1 (xs @ ys) None tl2" unfolding lseg_append using seg2 rest2 by blast
  moreover have "a \<notin> set (xs @ ys)" using dist by auto
  ultimately have final: "lseg (set_Prev a None (set_Next a None ns2)) None hd1 (xs @ ys) None tl2"
    by (intro lseg_set_other)
  have run: "RemoveNode (Some a) l = Ret (l\<lparr>l_Nodes := set_Prev a None (set_Next a None ns2),
      l_Head := hd1, l_Tail := tl2, l_Length := l_Length l - 1\<rparr>)"
    using a a1 by (auto simp: RemoveNode_def Let_def ns1_def hd1_def ns2_def tl2_def q_def [symmetric]
        split: option.splits)
  have vals: "ln_Value (ns2 ! x) = ln_Value (?ns ! x)" for x
    by (simp add: ns2_def ns1_def split: option.split)
  show ?thesis
    unfolding run using final dist len vals by (simp add: dl_shape_def dl_values_def)
qed

section \<open>Traversal\<close>

lemma iterate_forward:
  "lseg (l_Nodes l) prv p as None lst \<Longrightarrow>
     iterate l \<lparr>it_Next = p, it_Direction = DIRECTION_HEAD\<rparr> = Ret (dl_values l as)"
proof (induction as arbitrary: prv p)
  case Nil
  then show ?case by (subst iterate.simps) (simp add: NextNode_def dl_values_def)
next
  case (Cons a as)
  then have "p = Some a"
    "iterate l \<lparr>it_Next = ln_Next (l_Nodes l ! a), it_Direction = DIRECTION_HEAD\<rparr> = Ret (dl_values l as)"
    by auto
  then show ?case by (subst iterate.simps) (simp add: NextNode_def dl_values_def)
qed

lemma iterate_backward:
  "lseg (l_Nodes l) None p as nxt lst \<Longrightarrow>
     iterate l \<lparr>it_Next = lst, it_Direction = DIRECTION_TAIL\<rparr> = Ret (rev (dl_values l as))"
proof (induction as arbitrary: nxt lst rule: rev_induct)
  case Nil
  then have "lst = None" by simp
  then show ?case by (subst iterate.simps) (simp add: NextNode_def dl_values_def)
next
  case (snoc a as)
  then obtain m k where seg: "lseg (l_Nodes l) None p as m k" "lseg (l_Nodes l) k m [a] nxt lst"
    unfolding lseg_append by blast
  from seg(2) have "m = Some a" by simp
  with seg have k: "lseg (l_Nodes l) None p as (Some a) k" "ln_Prev (l_Nodes l ! a) = k" "lst = Some a"
    by simp_all
  have "iterate l \<lparr>it_Next = k, it_Direction = DIRECTION_TAIL\<rparr> = Ret (rev (dl_values l as))"
    by (rule snoc.IH [OF k(1)])
  with k(2,3) show ?case by (subst iterate.simps) (simp add: NextNode_def dl_values_def)
qed

lemma walk_returns: "lseg ns prv p as None lst \<Longrightarrow> walk ns p = Ret ()"
proof (induction as arbitrary: prv p)
  case Nil
  then show ?case by (subst walk.simps) simp
next
  case (Cons a as)
  then have "p = Some a" "walk ns (ln_Next (ns ! a)) = Ret ()" by auto
  then show ?case by (subst walk.simps) simp
qed

section \<open>A sequence with both ends\<close>

text \<open>
  The contract a user of the list relies on: pushing at either end and listing from either end.
\<close>

locale sequence =
  fixes rep :: "'s \<Rightarrow> 'v list \<Rightarrow> bool"
    and push_front :: "'v \<Rightarrow> 's \<Rightarrow> 's"
    and push_back :: "'v \<Rightarrow> 's \<Rightarrow> 's"
    and elems :: "'s \<Rightarrow> 'v list go"
    and elems_back :: "'s \<Rightarrow> 'v list go"
  assumes push_front_rep: "rep s vs \<Longrightarrow> rep (push_front v s) (v # vs)"
    and push_back_rep: "rep s vs \<Longrightarrow> rep (push_back v s) (vs @ [v])"
    and elems_rep: "rep s vs \<Longrightarrow> elems s = Ret vs"
    and elems_back_rep: "rep s vs \<Longrightarrow> elems_back s = Ret (rev vs)"
begin

lemma push_back_all: "rep s vs \<Longrightarrow> rep (fold push_back ws s) (vs @ ws)"
proof (induction ws arbitrary: s vs)
  case (Cons w ws)
  from Cons.IH [OF push_back_rep [OF Cons.prems, of w]] show ?case by simp
qed simp

lemma push_front_all: "rep s vs \<Longrightarrow> rep (fold push_front ws s) (rev ws @ vs)"
proof (induction ws arbitrary: s vs)
  case (Cons w ws)
  from Cons.IH [OF push_front_rep [OF Cons.prems, of w]] show ?case by simp
qed simp

lemma queue_order:
  assumes "rep s []"
  shows "elems (fold push_back ws s) = Ret ws \<and> elems (fold push_front ws s) = Ret (rev ws) \<and>
    elems_back (fold push_back ws s) = Ret (rev ws) \<and> elems_back (fold push_front ws s) = Ret ws"
  using elems_rep [OF push_back_all [OF assms]] elems_rep [OF push_front_all [OF assms]]
    elems_back_rep [OF push_back_all [OF assms]] elems_back_rep [OF push_front_all [OF assms]]
  by simp

end

definition dl_elems :: "'a dlist \<Rightarrow> 'a list go" where
  "dl_elems l = iterate l (NewListIterator DIRECTION_HEAD l)"

definition dl_elems_back :: "'a dlist \<Rightarrow> 'a list go" where
  "dl_elems_back l = iterate l (NewListIterator DIRECTION_TAIL l)"

lemma dl_elems_rep: "dl_rep l vs \<Longrightarrow> dl_elems l = Ret vs"
  by (auto simp: dl_rep_def dl_shape_def dl_elems_def NewListIterator_def iterate_forward)

lemma dl_elems_back_rep: "dl_rep l vs \<Longrightarrow> dl_elems_back l = Ret (rev vs)"
  by (auto simp: dl_rep_def dl_shape_def dl_elems_back_def NewListIterator_def iterate_backward)

interpretation dl: sequence dl_rep AddNodeHead AddNodeTail dl_elems dl_elems_back
proof
  fix l :: "'a dlist" and vs v
  assume rep: "dl_rep l vs"
  then show "dl_elems l = Ret vs" "dl_elems_back l = Ret (rev vs)"
    by (rule dl_elems_rep, rule dl_elems_back_rep)
  from rep obtain as where "dl_shape l as" "vs = dl_values l as" by (auto simp: dl_rep_def)
  then show "dl_rep (AddNodeHead v l) (v # vs)" "dl_rep (AddNodeTail v l) (vs @ [v])"
    using AddNodeHead_shape [of l as v] AddNodeTail_shape [of l as v] unfolding dl_rep_def by metis+
qed

section \<open>Properties\<close>

text \<open>
  a list filled from its tail is listed in that order from the head and backwards from the tail,
  and a list filled from its head the other way round.
\<close>

lemma list_fill_order:
  "dl_elems (fold AddNodeTail ws NewList) = Ret ws \<and> dl_elems (fold AddNodeHead ws NewList) = Ret (rev ws) \<and>
    dl_elems_back (fold AddNodeTail ws NewList) = Ret (rev ws) \<and>
    dl_elems_back (fold AddNodeHead ws NewList) = Ret ws"
proof -
  have "dl_rep NewList []" using NewList_shape unfolding dl_rep_def dl_values_def by (metis list.map(1))
  then show ?thesis by (rule dl.queue_order)
qed

text \<open>
  C14: \<open>RemoveNode\<close> takes exactly the given node out of the list, from any position, and the rest keeps
  its order in both directions and its length.
\<close>

lemma RemoveNode_removes:
  assumes "dl_shape l (xs @ a # ys)"
  shows "\<exists>l'. RemoveNode (Some a) l = Ret l' \<and> dl_shape l' (xs @ ys) \<and> l_Len l' = l_Len l - 1 \<and>
    dl_elems l' = Ret (dl_values l xs @ dl_values l ys) \<and>
    dl_elems_back l' = Ret (rev (dl_values l xs @ dl_values l ys))"
proof -
  from RemoveNode_shape [OF assms] obtain l' where
    l': "RemoveNode (Some a) l = Ret l'" "dl_shape l' (xs @ ys)"
    "dl_values l' (xs @ ys) = dl_values l xs @ dl_values l ys" by blast
  then have "dl_rep l' (dl_values l xs @ dl_values l ys)" unfolding dl_rep_def by metis
  with l' assms show ?thesis
    by (auto simp: dl_elems_rep dl_elems_back_rep l_Len_def dl_shape_def)
qed

lemma RemoveNode_removes_witness:
  "\<exists>l'. RemoveNode (Some 1) (fold AddNodeTail [''a'', ''b'', ''c''] NewList) = Ret l' \<and>
     dl_elems l' = Ret [''a'', ''c'']"
proof -
  let ?l = "fold AddNodeTail [''a'', ''b'', ''c''] NewList"
  have "dl_shape ?l ([0] @ 1 # [2])"
    by (simp add: dl_shape_def NewList_def AddNodeTail_def Let_def new_node_def set_Next_def set_Prev_def)
  from RemoveNode_removes [OF this] show ?thesis
    by (auto simp: dl_values_def NewList_def AddNodeTail_def Let_def new_node_def set_Next_def set_Prev_def)
qed

text \<open>
  \<open>InsertNode\<close> after a node puts the value right behind it, also behind the last one.
\<close>

lemma InsertNode_after_inserts:
  assumes "dl_shape l (xs @ a # ys)"
  shows "\<exists>l'. InsertNode (Some a) v True l = Ret l' \<and> dl_rep l' (dl_values l (xs @ [a]) @ v # dl_values l ys) \<and>
    l_Len l' = l_Len l + 1"
proof (cases ys)
  case Nil
  from assms have "ln_Next (l_Nodes l ! a) = None" unfolding Nil dl_shape_def lseg_append by auto
  then have run: "InsertNode (Some a) v True l = Ret (AddNodeTail v l)" by (simp add: InsertNode_def Let_def)
  have "dl_rep l (dl_values l (xs @ [a]))" using assms Nil unfolding dl_rep_def by auto
  then have "dl_rep (AddNodeTail v l) (dl_values l (xs @ [a]) @ [v])" by (rule dl.push_back_rep)
  moreover have "l_Len (AddNodeTail v l) = l_Len l + 1"
    by (simp add: l_Len_def AddNodeTail_def Let_def split: option.split)
  ultimately show ?thesis using run Nil by (simp add: dl_values_def)
next
  case (Cons b zs)
  from InsertNode_after_shape [of l xs a b zs v] assms Cons obtain l' where
    "InsertNode (Some a) v True l = Ret l'" "dl_shape l' (xs @ a # length (l_Nodes l) # b # zs)"
    "dl_values l' (xs @ a # length (l_Nodes l) # b # zs) = dl_values l (xs @ [a]) @ v # dl_values l (b # zs)"
    by auto
  with assms Cons show ?thesis
    unfolding dl_rep_def by (intro exI [of _ l']) (auto simp: l_Len_def dl_shape_def intro!: exI)
qed

lemma InsertNode_after_inserts_witness:
  "\<exists>l'. InsertNode (Some 0) ''x'' True (fold AddNodeTail [''a'', ''b''] NewList) = Ret l' \<and>
     dl_elems l' = Ret [''a'', ''x'', ''b'']"
proof -
  let ?l = "fold AddNodeTail [''a'', ''b''] NewList"
  have "dl_shape ?l ([] @ 0 # [1])"
    by (simp add: dl_shape_def NewList_def AddNodeTail_def Let_def new_node_def set_Next_def set_Prev_def)
  from InsertNode_after_inserts [OF this, of "''x''"] dl_elems_rep show ?thesis
    by (fastforce simp: dl_values_def NewList_def AddNodeTail_def Let_def new_node_def set_Next_def set_Prev_def)
qed

text \<open>
  \<open>InsertNode\<close> before a node works for the first node only: before any other one it panics, because
  the predecessor it links from is read before it is set.
\<close>

lemma InsertNode_before:
  assumes "dl_shape l (xs @ a # ys)"
  shows "(xs = [] \<and> InsertNode (Some a) v False l = Ret (AddNodeHead v l) \<and>
      dl_rep (AddNodeHead v l) (v # dl_values l (a # ys))) \<or>
    (xs \<noteq> [] \<and> InsertNode (Some a) v False l = Panics NilDeref)"
proof (cases "xs = []")
  case True
  with assms have "ln_Prev (l_Nodes l ! a) = None" by (simp add: dl_shape_def)
  moreover have "dl_rep l (dl_values l (a # ys))" using assms True unfolding dl_rep_def by auto
  then have "dl_rep (AddNodeHead v l) (v # dl_values l (a # ys))" by (rule dl.push_front_rep)
  ultimately show ?thesis using True by (simp add: InsertNode_def Let_def)
next
  case False
  with assms have "ln_Prev (l_Nodes l ! a) = Some (last xs)"
    unfolding dl_shape_def lseg_append by (auto dest: lseg_last)
  with False show ?thesis by (simp add: InsertNode_def Let_def new_node_def)
qed

lemma InsertNode_before_witness:
  "InsertNode (Some 1) ''x'' False (fold AddNodeTail [''a'', ''b''] NewList) = Panics NilDeref"
proof -
  let ?l = "fold AddNodeTail [''a'', ''b''] NewList"
  have "dl_shape ?l ([0] @ 1 # [])"
    by (simp add: dl_shape_def NewList_def AddNodeTail_def Let_def new_node_def set_Next_def set_Prev_def)
  from InsertNode_before [OF this, of "''x''"] show ?thesis by simp
qed

text \<open>
  \<open>Empty\<close> and \<open>Release\<close> return and leave the empty list.
\<close>

lemma Empty_empties:
  assumes "dl_shape l as"
  shows "\<exists>l'. l_Empty l = Ret l' \<and> Release l = Ret l' \<and> dl_shape l' [] \<and> dl_elems l' = Ret []"
proof -
  have "walk (l_Nodes l) (l_Head l) = Ret ()"
    using assms by (auto simp: dl_shape_def intro: walk_returns)
  moreover have "dl_shape (l\<lparr>l_Head := None, l_Tail := None, l_Length := 0\<rparr>) []" by (simp add: dl_shape_def)
  moreover from this have "dl_rep (l\<lparr>l_Head := None, l_Tail := None, l_Length := 0\<rparr>) []"
    unfolding dl_rep_def dl_values_def by (metis list.map(1))
  ultimately show ?thesis by (simp add: l_Empty_def Release_def dl_elems_rep)
qed

lemma Empty_empties_witness:
  "\<exists>l'. l_Empty (AddNodeHead ''a'' NewList) = Ret l' \<and> dl_elems l' = Ret []"
proof -
  have "dl_shape (AddNodeHead ''a'' NewList) [0]"
    using AddNodeHead_shape [OF NewList_shape, of "''a''"] by (simp add: NewList_def)
  from Empty_empties [OF this] show ?thesis by blast
qed

end
