(* ===== verification/Rax.thy ===== *)
theory Rax
  imports Prelude
begin

text \<open>
  \<open>src/db/rax.go\<close>: the radix tree. Keys, prefixes and labels are byte strings; they are values here.
  The slices of the code share arrays with the keys given to \<open>Insert\<close>; as long as each call of \<open>Insert\<close> is
  given a slice of its own, no operation writes to bytes that a reachable slice still reads. A node is
  a value as well, since the nodes form a tree and each update goes through the one path that
  reaches the node.
\<close>

section \<open>Nodes\<close>

datatype 'v rnode =
  RNode (rn_prefix: string) (rn_edges: "(string \<times> 'v rnode) list") (rn_leaf: "(string \<times> 'v) option")

record 'v raxtree =
  rt_root :: "'v rnode"
  rt_size :: int

definition NewRaxTree :: "'v raxtree" where
  "NewRaxTree = \<lparr>rt_root = RNode [] [] None, rt_size = 0\<rparr>"

definition rt_Len :: "'v raxtree \<Rightarrow> int" where
  "rt_Len t = rt_size t"

definition isLeaf :: "'v rnode \<Rightarrow> bool" where
  "isLeaf n \<longleftrightarrow> rn_leaf n \<noteq> None"

section \<open>Byte strings\<close>

fun longestCommonPrefix :: "string \<Rightarrow> string \<Rightarrow> string" where
  "longestCommonPrefix (a # as) (b # bs) = (if a = b then a # longestCommonPrefix as bs else [])"
| "longestCommonPrefix _ _ = []"

text \<open>\<open>bytes.Compare\<close>: lexicographic order of the byte values.\<close>

fun bytes_Compare :: "string \<Rightarrow> string \<Rightarrow> int" where
  "bytes_Compare [] [] = 0"
| "bytes_Compare [] (b # bs) = -1"
| "bytes_Compare (a # as) [] = 1"
| "bytes_Compare (a # as) (b # bs) =
     (if (of_char a :: nat) < of_char b then -1 else if (of_char b :: nat) < of_char a then 1
      else bytes_Compare as bs)"

section \<open>Edges\<close>

definition addEdgeByIdx :: "nat \<Rightarrow> string \<times> 'v rnode \<Rightarrow> (string \<times> 'v rnode) list \<Rightarrow> (string \<times> 'v rnode) list" where
  "addEdgeByIdx idx e es = (if idx = length es then es @ [e] else take idx es @ e # drop idx es)"

text \<open>
  The two binary searches. \<open>left\<close> and \<open>right\<close> stay within the edges, so the indexing is in range; the
  sum of two indices does not overflow.
\<close>

function closest_loop :: "(string \<times> 'v rnode) list \<Rightarrow> string \<Rightarrow> int \<Rightarrow> int \<Rightarrow> int \<Rightarrow> nat" where
  "closest_loop es label left right closest =
     (if left \<le> right then
        let mid = (left + right) div 2; l = fst (es ! nat mid) in
        if bytes_Compare l label = 0 \<or> prefix l label \<or> prefix label l then nat mid
        else if bytes_Compare l label > 0 then closest_loop es label left (mid - 1) closest
        else closest_loop es label (mid + 1) right mid
      else nat (closest + 1))"
  by pat_completeness auto
termination
  by (relation "measure (\<lambda>(es, label, left, right, closest). nat (right - left + 1))") auto

definition findClosestPrefixIndex :: "(string \<times> 'v rnode) list \<Rightarrow> string \<Rightarrow> nat" where
  "findClosestPrefixIndex es label = closest_loop es label 0 (int (length es) - 1) (-1)"

definition addEdge :: "string \<times> 'v rnode \<Rightarrow> (string \<times> 'v rnode) list \<Rightarrow> (string \<times> 'v rnode) list" where
  "addEdge e es = addEdgeByIdx (findClosestPrefixIndex es (fst e)) e es"

definition updateEdge :: "nat \<Rightarrow> 'v rnode \<Rightarrow> (string \<times> 'v rnode) list \<Rightarrow> (string \<times> 'v rnode) list go" where
  "updateEdge idx node es =
     (if idx < length es then Ret (es[idx := (rn_prefix node, node)]) else Panics (Explicit ''edge not found''))"

definition removeEdgeByIdx :: "nat \<Rightarrow> (string \<times> 'v rnode) list \<Rightarrow> (string \<times> 'v rnode) list go" where
  "removeEdgeByIdx idx es =
     (if idx < length es then Ret (take idx es @ drop (idx + 1) es)
      else Panics (Explicit ''edge not found''))"

function walk_loop :: "(string \<times> 'v rnode) list \<Rightarrow> string \<Rightarrow> int \<Rightarrow> int \<Rightarrow> int
    \<Rightarrow> 'v rnode option \<times> nat \<times> string" where
  "walk_loop es label left right closest =
     (if left \<le> right then
        let mid = (left + right) div 2; l = fst (es ! nat mid);
            matchBytes = longestCommonPrefix l label in
        if bytes_Compare l label = 0 \<or> length matchBytes > 0 then (Some (snd (es ! nat mid)), nat mid, matchBytes)
        else if bytes_Compare l label > 0 then walk_loop es label left (mid - 1) closest
        else walk_loop es label (mid + 1) right mid
      else (None, nat (closest + 1), []))"
  by pat_completeness auto
termination
  by (relation "measure (\<lambda>(es, label, left, right, closest). nat (right - left + 1))") auto

declare closest_loop.simps [simp del] walk_loop.simps [simp del]

definition walkEdge :: "'v rnode \<Rightarrow> string \<Rightarrow> 'v rnode option \<times> nat \<times> string" where
  "walkEdge n label = walk_loop (rn_edges n) label 0 (int (length (rn_edges n)) - 1) (-1)"

section \<open>Basic facts\<close>

lemma bytes_Compare_0 [simp]: "bytes_Compare a b = 0 \<longleftrightarrow> a = b"
  by (induction a b rule: bytes_Compare.induct) auto

lemma lcp_prefix1: "prefix (longestCommonPrefix a b) a"
  by (induction a b rule: longestCommonPrefix.induct) auto

lemma lcp_prefix2: "prefix (longestCommonPrefix a b) b"
  by (induction a b rule: longestCommonPrefix.induct) auto

lemma lcp_self [simp]: "longestCommonPrefix a a = a"
  by (induction a) auto

lemma lcp_Nil_iff: "longestCommonPrefix a b = [] \<longleftrightarrow> a = [] \<or> b = [] \<or> hd a \<noteq> hd b"
  by (cases a; cases b) auto

lemma walk_loop_match:
  assumes "walk_loop es label left right closest = (Some n, i, m)" and "label \<noteq> []"
  shows "m \<noteq> [] \<and> prefix m label"
  using assms(1)
proof (induction "nat (right - left + 1)" arbitrary: left right closest rule: less_induct)
  case less
  let ?mid = "(left + right) div 2"
  let ?l = "fst (es ! nat ?mid)"
  from less.prems have le: "left \<le> right" by (subst (asm) walk_loop.simps) (simp split: if_splits)
  note body = less.prems [unfolded walk_loop.simps [of es label left right] Let_def]
  consider "bytes_Compare ?l label = 0 \<or> length (longestCommonPrefix ?l label) > 0"
    | "\<not> (bytes_Compare ?l label = 0 \<or> length (longestCommonPrefix ?l label) > 0)" "bytes_Compare ?l label > 0"
    | "\<not> (bytes_Compare ?l label = 0 \<or> length (longestCommonPrefix ?l label) > 0)" "\<not> bytes_Compare ?l label > 0"
    by blast
  then show ?case
  proof cases
    case 1
    with body le have "(Some (snd (es ! nat ?mid)), nat ?mid, longestCommonPrefix ?l label) = (Some n, i, m)"
      by (simp only: if_True simp_thms)
    then have "m = longestCommonPrefix ?l label" by (metis prod.inject)
    with 1 lcp_prefix2 assms(2) show ?thesis by auto
  next
    case 2
    with body le have "walk_loop es label left (?mid - 1) closest = (Some n, i, m)"
      by (simp only: if_True if_False simp_thms)
    from less.hyps [OF _ this] le show ?thesis by simp
  next
    case 3
    with body le have "walk_loop es label (?mid + 1) right ?mid = (Some n, i, m)"
      by (simp only: if_True if_False simp_thms)
    from less.hyps [OF _ this] le show ?thesis by simp
  qed
qed

lemma walkEdge_match:
  assumes "walkEdge n s = (Some c, i, m)" and "s \<noteq> []"
  shows "m \<noteq> []" and "prefix m s"
  using walk_loop_match [of "rn_edges n" s] assms by (auto simp: walkEdge_def)

lemma walkEdge_less:
  assumes "(Some c, i, m) = walkEdge n s" and "s \<noteq> []"
  shows "0 < length m" and "length s - length m < length s"
proof -
  show "0 < length m" using walkEdge_match(1) [OF assms(1) [symmetric] assms(2)] by simp
  with assms(2) show "length s - length m < length s" by simp
qed

section \<open>Insert\<close>

text \<open>
  The variable \<open>n\<close> that \<open>walkEdge\<close> assigns in the loop is a new one of the loop body: after a full
  match the loop goes on with the rest of the key at the root again.
\<close>

function insert_loop :: "string \<Rightarrow> 'v \<Rightarrow> 'v raxtree \<Rightarrow> string \<Rightarrow> (bool \<times> 'v raxtree) go" where
  "insert_loop key val t search =
     (let root = rt_root t in
      if search = [] then
        (case rn_leaf root of
           Some (k, _) \<Rightarrow>
             Ret (False, t\<lparr>rt_root := RNode (rn_prefix root) (rn_edges root) (Some (k, val))\<rparr>)
         | None \<Rightarrow>
             Ret (True, \<lparr>rt_root = RNode (rn_prefix root) (rn_edges root) (Some (key, val)),
                         rt_size = rt_size t + 1\<rparr>))
      else
        (case walkEdge root search of
           (None, idx, _) \<Rightarrow>
             let e = (search, RNode search [] (Some (search, val))) in
             Ret (True, \<lparr>rt_root = RNode (rn_prefix root) (addEdgeByIdx idx e (rn_edges root)) (rn_leaf root),
                         rt_size = rt_size t + 1\<rparr>)
         | (Some n, idx, matchBytes) \<Rightarrow>
             if length matchBytes = length (rn_prefix n) then
               insert_loop key val t (drop (length matchBytes) search)
             else if length matchBytes > length (rn_prefix n) then Panics SliceOutOfRange
             else
               let n' = RNode (drop (length matchBytes) (rn_prefix n)) (rn_edges n) (rn_leaf n);
                   es1 = addEdge (rn_prefix n', n') [];
                   search' = drop (length matchBytes) search;
                   splitNode =
                     (if search' = [] then RNode matchBytes es1 (Some (key, val))
                      else RNode matchBytes (addEdge (search', RNode search' [] (Some (key, val))) es1) None) in
               gobind (updateEdge idx splitNode (rn_edges root)) (\<lambda>es.
                 Ret (True, \<lparr>rt_root = RNode (rn_prefix root) es (rn_leaf root), rt_size = rt_size t + 1\<rparr>))))"
  by pat_completeness auto
termination
  by (relation "measure (\<lambda>(key, val, t, search). length search)")
    (auto dest: walkEdge_less)

declare insert_loop.simps [simp del]

definition Insert :: "string \<Rightarrow> 'v \<Rightarrow> 'v raxtree \<Rightarrow> (bool \<times> 'v raxtree) go" where
  "Insert key val t = insert_loop key val t key"

section \<open>Find\<close>

function find_node :: "'v rnode \<Rightarrow> string \<Rightarrow> 'v rnode option" where
  "find_node n search =
     (if search = [] then Some n
      else
        (case walkEdge n search of
           (None, _, _) \<Rightarrow> None
         | (Some next, _, matchBytes) \<Rightarrow> find_node next (drop (length matchBytes) search)))"
  by pat_completeness auto
termination
  by (relation "measure (\<lambda>(n, search). length search)") (auto dest: walkEdge_less)

declare find_node.simps [simp del]

definition Find :: "string \<Rightarrow> 'v raxtree \<Rightarrow> 'v option" where
  "Find key t =
     (case find_node (rt_root t) key of
        None \<Rightarrow> None
      | Some n \<Rightarrow> map_option snd (rn_leaf n))"

section \<open>Delete\<close>

fun rn_height :: "'v rnode \<Rightarrow> nat" where
  "rn_height (RNode p es lf) = Suc (sum_list (map (\<lambda>e. rn_height (snd e)) es))"

text \<open>The loop that merges a node with its only child, while it is not a leaf.\<close>

function merge_loop :: "'v rnode \<Rightarrow> 'v rnode" where
  "merge_loop n =
     (case rn_edges n of
        [(_, child)] \<Rightarrow>
          if isLeaf n then n
          else merge_loop (RNode (rn_prefix n @ rn_prefix child) (rn_edges child) (rn_leaf child))
      | _ \<Rightarrow> n)"
  by pat_completeness auto

termination
proof (relation "measure rn_height", simp)
  fix n :: "'v rnode" and e es l and child
  assume "rn_edges n = e # es" "(l, child) = e" "es = []"
  then show "(RNode (rn_prefix n @ rn_prefix child) (rn_edges child) (rn_leaf child), n) \<in> measure rn_height"
    by (cases n; cases child) auto
qed

declare merge_loop.simps [simp del]

text \<open>
  The descent of \<open>Delete\<close>: the new node in place of \<open>n\<close>, or \<open>None\<close> when the key is not found. The
  node that loses an edge is merged with its only child; the label its own parent has for it stays.
\<close>

function delete_loop :: "'v rnode \<Rightarrow> string \<Rightarrow> 'v rnode option go" where
  "delete_loop n search =
     (let remove = (\<lambda>idx next.
        if \<not> isLeaf next then Ret None
        else gobind (removeEdgeByIdx idx (rn_edges n)) (\<lambda>es.
               Ret (Some (merge_loop (RNode (rn_prefix n) es (rn_leaf n)))))) in
      if search = [] then Ret None
      else
        (case walkEdge n search of
           (None, _, _) \<Rightarrow> Ret None
         | (Some next, idx, matchBytes) \<Rightarrow>
             if rn_prefix next = search then remove idx next
             else if prefix matchBytes (rn_prefix next) then
               let search' = drop (length matchBytes) search in
               if search' = [] then remove idx next
               else
                 gobind (delete_loop next search') (\<lambda>r.
                   case r of
                     None \<Rightarrow> Ret None
                   | Some next' \<Rightarrow>
                       Ret (Some (RNode (rn_prefix n)
                         ((rn_edges n)[idx := (fst (rn_edges n ! idx), next')]) (rn_leaf n))))
             else Ret None))"
  by pat_completeness auto
termination
  by (relation "measure (\<lambda>(n, search). length search)") (auto dest: walkEdge_less)

declare delete_loop.simps [simp del]

text \<open>
  The empty key stops at the root: it is not found when the root is no leaf, and there is no parent to
  remove an edge from when it is.
\<close>

definition Delete :: "string \<Rightarrow> 'v raxtree \<Rightarrow> (bool \<times> 'v raxtree) go" where
  "Delete key t =
     (if key = [] then (if isLeaf (rt_root t) then Panics NilDeref else Ret (False, t))
      else
        gobind (delete_loop (rt_root t) key) (\<lambda>r.
          case r of
            None \<Rightarrow> Ret (False, t)
          | Some root' \<Rightarrow> Ret (True, \<lparr>rt_root = root', rt_size = rt_size t - 1\<rparr>)))"

declare closest_loop.simps [code] walk_loop.simps [code] insert_loop.simps [code] find_node.simps [code]
  merge_loop.simps [code] delete_loop.simps [code]

section \<open>Printing\<close>

text \<open>
  What \<open>Print\<close> writes; \<open>fmt\<close> is the verb \<open>%v\<close> for the values. A node with a value is printed as a leaf, without its edges.
\<close>

definition newline :: string where
  "newline = [CHR 0x0A]"

lemma edge_smaller: "(label, next) \<in> set (rn_edges node) \<Longrightarrow> size next < size node"
proof (induction node)
  case (RNode p es l)
  then show ?case
    by (auto simp: size_list_conv_sum_list dest!: split_list)
qed

function printRaxTree :: "('v \<Rightarrow> string) \<Rightarrow> 'v rnode \<Rightarrow> string \<Rightarrow> string" where
  "printRaxTree fmt node indent =
     (case rn_leaf node of
        Some (key, val) \<Rightarrow>
          indent @ ''[Leaf: Key = '' @ key @ '', Value = '' @ fmt val @ '', Prefix = '' @ rn_prefix node @ '']'' @ newline
      | None \<Rightarrow>
          indent @ ''[Node: Prefix = '' @ rn_prefix node @ '']'' @ newline @
          concat (map (\<lambda>(label, next). indent @ ''|--Edge: Label = '' @ label @ newline @
            printRaxTree fmt next (indent @ ''  '')) (rn_edges node)))"
  by pat_completeness auto
termination
  by (relation "measure (\<lambda>(fmt, node, indent). size node)") (auto dest: edge_smaller)

definition Print :: "('v \<Rightarrow> string) \<Rightarrow> 'v raxtree \<Rightarrow> string" where
  "Print fmt t = printRaxTree fmt (rt_root t) []"

declare printRaxTree.simps [simp del]
declare printRaxTree.simps [code]

end
