(* ===== verification/Rax_Wf.thy ===== *)
theory Rax_Wf
  imports Rax
begin

text \<open>
  The invariant of the radix tree: the labels of a node start with different bytes, in ascending order,
  and every edge is labelled with the prefix of its node. Under it the binary search over the edges
  finds the edge that shares a byte with the key, or the place where a new one belongs; insertion keeps
  it; and \<open>contents\<close> says which keys, spelled by the labels on the path, the tree stores.
\<close>

section \<open>The invariant\<close>

definition byte :: "char \<Rightarrow> nat" where
  "byte c = of_char c"

lemma byte_eq [simp]: "byte a = byte b \<longleftrightarrow> a = b"
  by (simp add: byte_def)

definition labels_ok :: "string list \<Rightarrow> bool" where
  "labels_ok ls \<longleftrightarrow> [] \<notin> set ls \<and> sorted_wrt (\<lambda>a b. byte (hd a) < byte (hd b)) ls"

inductive rwf :: "'v rnode \<Rightarrow> bool" where
  node: "labels_ok (map fst es) \<Longrightarrow> (\<forall>e \<in> set es. fst e = rn_prefix (snd e) \<and> rwf (snd e)) \<Longrightarrow>
    rwf (RNode p es lf)"

inductive_simps rwf_RNode [simp]: "rwf (RNode p es lf)"
inductive_cases rwf_cases: "rwf n"

text \<open>The keys of a tree, spelled from the node, with their values.\<close>

primrec contents_of :: "'v rnode \<Rightarrow> (string \<times> 'v) list" where
  "contents_of (RNode p es lf) =
     (case lf of None \<Rightarrow> [] | Some (_, v) \<Rightarrow> [([], v)]) @
     concat (map (\<lambda>(l, cs). map (\<lambda>(k, v). (l @ k, v)) cs) (map (map_prod id contents_of) es))"

lemma labels_ok_nth:
  assumes "labels_ok ls" and "i < length ls"
  shows "ls ! i \<noteq> []" and "j < i \<Longrightarrow> byte (hd (ls ! j)) < byte (hd (ls ! i))"
proof -
  show "ls ! i \<noteq> []" using assms by (metis labels_ok_def nth_mem)
  show "byte (hd (ls ! j)) < byte (hd (ls ! i))" if "j < i"
    using assms that by (auto simp: labels_ok_def sorted_wrt_iff_nth_less)
qed

lemma bytes_Compare_hd:
  assumes "a \<noteq> []" and "b \<noteq> []" and "hd a \<noteq> hd b"
  shows "bytes_Compare a b > 0 \<longleftrightarrow> byte (hd b) < byte (hd a)"
proof -
  from assms obtain x xs y ys where "a = x # xs" "b = y # ys" "x \<noteq> y" by (cases a; cases b) auto
  moreover from this have "byte x \<noteq> byte y" by simp
  ultimately show ?thesis by (auto simp: byte_def)
qed

section \<open>Binary search\<close>

definition insert_place :: "string list \<Rightarrow> string \<Rightarrow> nat \<Rightarrow> bool" where
  "insert_place ls s k \<longleftrightarrow> k \<le> length ls \<and> (\<forall>i < k. byte (hd (ls ! i)) < byte (hd s)) \<and>
     (\<forall>i. k \<le> i \<longrightarrow> i < length ls \<longrightarrow> byte (hd s) < byte (hd (ls ! i)))"

lemma walk_loop_spec:
  assumes ok: "labels_ok (map fst es)" and s: "s \<noteq> []"
    and left: "0 \<le> left" "left \<le> right + 1" and right: "right < int (length es)" and closest: "closest = left - 1"
    and below: "\<forall>i < nat left. byte (hd (fst (es ! i))) < byte (hd s)"
    and above: "\<forall>i. right < int i \<longrightarrow> i < length es \<longrightarrow> byte (hd s) < byte (hd (fst (es ! i)))"
  shows "(\<exists>i < length es. hd (fst (es ! i)) = hd s \<and> walk_loop es s left right closest =
      (Some (snd (es ! i)), i, longestCommonPrefix (fst (es ! i)) s)) \<or>
    (\<exists>k. walk_loop es s left right closest = (None, k, []) \<and> insert_place (map fst es) s k)"
  using left right closest below above
proof (induction "nat (right - left + 1)" arbitrary: left right closest rule: less_induct)
  case less
  show ?case
  proof (cases "left \<le> right")
    case False
    with less.prems have run: "walk_loop es s left right closest = (None, nat left, [])"
      by (subst walk_loop.simps) simp
    have "right = left - 1" using False less.prems by simp
    then have "insert_place (map fst es) s (nat left)"
      using less.prems unfolding insert_place_def by (auto simp: nat_le_iff)
    with run show ?thesis by blast
  next
    case True
    let ?mid = "(left + right) div 2"
    have mid: "left \<le> ?mid" "?mid \<le> right" "0 \<le> ?mid" using True less.prems by auto
    then have m: "nat ?mid < length es" using less.prems by linarith
    let ?l = "fst (es ! nat ?mid)"
    have l: "?l \<noteq> []" using labels_ok_nth(1) [OF ok, of "nat ?mid"] m by simp
    have between: "byte (hd (fst (es ! i))) < byte (hd (fst (es ! j)))" if "i < j" "j < length es" for i j
      using labels_ok_nth(2) [OF ok, of j i] that by simp
    show ?thesis
    proof (cases "hd ?l = hd s")
      case eq: True
      then have "longestCommonPrefix ?l s \<noteq> []" using l s by (simp add: lcp_Nil_iff)
      then have "walk_loop es s left right closest = (Some (snd (es ! nat ?mid)), nat ?mid, longestCommonPrefix ?l s)"
        using True by (subst walk_loop.simps) (simp add: Let_def)
      with eq m show ?thesis by blast
    next
      case False
      then have none: "\<not> (bytes_Compare ?l s = 0 \<or> length (longestCommonPrefix ?l s) > 0)"
        using l s by (auto simp: lcp_Nil_iff)
      show ?thesis
      proof (cases "bytes_Compare ?l s > 0")
        case gt: True
        then have lt: "byte (hd s) < byte (hd ?l)" using bytes_Compare_hd [OF l s False] by simp
        have step: "walk_loop es s left right closest = walk_loop es s left (?mid - 1) closest"
          using True none gt by (subst walk_loop.simps) (simp add: Let_def)
        have "byte (hd s) < byte (hd (fst (es ! i)))" if "?mid - 1 < int i" "i < length es" for i
        proof -
          have "nat ?mid \<le> i" using that(1) mid(3) by linarith
          with lt between [of "nat ?mid" i] that(2) show ?thesis by (cases "i = nat ?mid") auto
        qed
        then show ?thesis
          unfolding step by (intro less.hyps) (use mid less.prems True in auto)
      next
        case le: False
        have lt: "byte (hd ?l) < byte (hd s)"
          using bytes_Compare_hd [OF l s False] le False by (metis byte_eq linorder_neqE_nat)
        have step: "walk_loop es s left right closest = walk_loop es s (?mid + 1) right ?mid"
          using True none le by (subst walk_loop.simps) (simp add: Let_def)
        have "byte (hd (fst (es ! i))) < byte (hd s)" if "i < nat (?mid + 1)" for i
        proof -
          have "i \<le> nat ?mid" using that mid(3) by linarith
          with lt between [of i "nat ?mid"] m show ?thesis by (cases "i = nat ?mid") auto
        qed
        then show ?thesis
          unfolding step by (intro less.hyps) (use mid less.prems True in auto)
      qed
    qed
  qed
qed

lemma walkEdge_spec:
  assumes "labels_ok (map fst (rn_edges n))" and "s \<noteq> []"
  shows "(\<exists>i < length (rn_edges n). hd (fst (rn_edges n ! i)) = hd s \<and>
      walkEdge n s = (Some (snd (rn_edges n ! i)), i, longestCommonPrefix (fst (rn_edges n ! i)) s)) \<or>
    (\<exists>k. walkEdge n s = (None, k, []) \<and> insert_place (map fst (rn_edges n)) s k)"
  unfolding walkEdge_def by (rule walk_loop_spec [OF assms]) auto

section \<open>A new edge\<close>

lemma labels_ok_insert:
  assumes ok: "labels_ok ls" and s: "s \<noteq> []" and place: "insert_place ls s k"
  shows "labels_ok (take k ls @ s # drop k ls)"
proof -
  let ?R = "\<lambda>a b. byte (hd a) < byte (hd b)"
  have sorted: "sorted_wrt ?R (take k ls)" "sorted_wrt ?R (drop k ls)"
    "\<forall>x \<in> set (take k ls). \<forall>y \<in> set (drop k ls). ?R x y"
    using ok sorted_wrt_append [of ?R "take k ls" "drop k ls"] by (simp_all add: labels_ok_def)
  have "\<forall>x \<in> set (take k ls). ?R x s" "\<forall>y \<in> set (drop k ls). ?R s y"
    using place by (auto simp: insert_place_def set_conv_nth)
  with sorted show ?thesis
    using ok s by (auto simp: labels_ok_def sorted_wrt_append dest: in_set_takeD in_set_dropD)
qed

lemma addEdgeByIdx_take_drop: "k \<le> length es \<Longrightarrow> addEdgeByIdx k e es = take k es @ e # drop k es"
  by (simp add: addEdgeByIdx_def)

lemma contents_edges:
  "contents_of (RNode p es lf) =
     (case lf of None \<Rightarrow> [] | Some (_, v) \<Rightarrow> [([], v)]) @
     concat (map (\<lambda>e. map (\<lambda>(k, v). (fst e @ k, v)) (contents_of (snd e))) es)"
  by (simp add: comp_def case_prod_beta)

declare contents_of.simps [simp del]

definition edge_contents :: "string \<times> 'v rnode \<Rightarrow> (string \<times> 'v) multiset" where
  "edge_contents e = image_mset (\<lambda>(k, v). (fst e @ k, v)) (mset (contents_of (snd e)))"

definition leaf_contents :: "(string \<times> 'v) option \<Rightarrow> (string \<times> 'v) multiset" where
  "leaf_contents lf = (case lf of None \<Rightarrow> {#} | Some (_, v) \<Rightarrow> {#([], v)#})"

lemma mset_contents:
  "mset (contents_of (RNode p es lf)) = leaf_contents lf + sum_list (map edge_contents es)"
proof -
  have "mset (concat (map (\<lambda>e. map (\<lambda>(k, v). (fst e @ k, v)) (contents_of (snd e))) es)) =
      sum_list (map edge_contents es)"
    by (induction es) (simp_all add: edge_contents_def)
  then show ?thesis
    by (simp add: contents_edges leaf_contents_def split: option.split)
qed

lemma sum_list_insert:
  "sum_list (map f (take k xs @ x # drop k xs)) = (f x :: 'a multiset) + sum_list (map f xs)"
proof -
  have "sum_list (map f xs) = sum_list (map f (take k xs)) + sum_list (map f (drop k xs))"
    by (metis append_take_drop_id map_append sum_list_append)
  then show ?thesis by (simp add: ac_simps)
qed

lemma sum_list_update_mset: "i < length xs \<Longrightarrow>
  sum_list (map f (xs[i := x])) + f (xs ! i) = (f x :: 'a multiset) + sum_list (map f xs)"
proof (induction xs arbitrary: i)
  case (Cons y ys)
  then show ?case by (cases i) (auto simp: ac_simps)
qed simp

section \<open>Splitting a node\<close>

lemma lcp_rest:
  assumes "longestCommonPrefix a b = m"
  shows "a = m @ drop (length m) a" and "b = m @ drop (length m) b"
    and "drop (length m) a \<noteq> [] \<Longrightarrow> drop (length m) b \<noteq> [] \<Longrightarrow>
      hd (drop (length m) a) \<noteq> hd (drop (length m) b)"
proof -
  obtain as bs where "a = m @ as" "b = m @ bs"
    using lcp_prefix1 [of a b, unfolded assms] lcp_prefix2 [of a b, unfolded assms] by (auto elim!: prefixE)
  then show "a = m @ drop (length m) a" "b = m @ drop (length m) b" by simp_all
  show "drop (length m) a \<noteq> [] \<Longrightarrow> drop (length m) b \<noteq> [] \<Longrightarrow>
      hd (drop (length m) a) \<noteq> hd (drop (length m) b)"
    using assms by (induction a b arbitrary: m rule: longestCommonPrefix.induct) (auto split: if_splits)
qed

lemma addEdge_Nil [simp]: "addEdge e [] = [e]"
  by (simp add: addEdge_def addEdgeByIdx_def findClosestPrefixIndex_def closest_loop.simps)

lemma addEdge_second:
  assumes "fst e0 \<noteq> []" and "fst e \<noteq> []" and "hd (fst e0) \<noteq> hd (fst e)"
  shows "mset (addEdge e [e0]) = {#e, e0#} \<and> labels_ok (map fst (addEdge e [e0]))"
proof -
  have ne: "fst e0 \<noteq> fst e" "\<not> prefix (fst e0) (fst e)" "\<not> prefix (fst e) (fst e0)"
    using assms by (auto simp: prefix_def neq_Nil_conv)
  have "findClosestPrefixIndex [e0] (fst e) = (if bytes_Compare (fst e0) (fst e) > 0 then 0 else 1)"
    using ne by (simp add: findClosestPrefixIndex_def closest_loop.simps [of "[e0]"] Let_def)
  moreover have "byte (hd (fst e)) < byte (hd (fst e0)) \<or> byte (hd (fst e0)) < byte (hd (fst e))"
    using assms(3) by (metis byte_eq linorder_neqE_nat)
  ultimately show ?thesis
    using assms bytes_Compare_hd [OF assms]
    by (auto simp: addEdge_def addEdgeByIdx_def labels_ok_def add_mset_commute)
qed

lemma mset_sum_edges: "mset es = mset es' \<Longrightarrow> sum_list (map edge_contents es) = sum_list (map edge_contents es')"
  by (metis mset_map sum_mset_sum_list)

lemma contents_prefix: "contents_of (RNode p es lf) = contents_of (RNode q es lf)"
  by (simp add: contents_edges)

text \<open>The node that takes the place of \<open>n\<close> when the key parts from its label after \<open>m\<close>.\<close>

definition split_node :: "string \<Rightarrow> 'v \<Rightarrow> 'v rnode \<Rightarrow> string \<Rightarrow> string \<Rightarrow> 'v rnode" where
  "split_node key val n m s =
     (let n' = RNode (drop (length m) (rn_prefix n)) (rn_edges n) (rn_leaf n);
          es1 = addEdge (rn_prefix n', n') [];
          s' = drop (length m) s in
      if s' = [] then RNode m es1 (Some (key, val))
      else RNode m (addEdge (s', RNode s' [] (Some (key, val))) es1) None)"

lemma split_node_ok:
  assumes wf: "rwf n" and m: "longestCommonPrefix (rn_prefix n) s = m" and s: "m \<noteq> []"
    and proper: "length m \<noteq> length (rn_prefix n)"
  shows "rn_prefix (split_node key val n m s) = m" and "rwf (split_node key val n m s)"
    and "edge_contents (m, split_node key val n m s) = add_mset (s, val) (edge_contents (rn_prefix n, n))"
proof -
  let ?l = "drop (length m) (rn_prefix n)" and ?s = "drop (length m) s"
  let ?n = "RNode ?l (rn_edges n) (rn_leaf n)"
  let ?e = "(?s, RNode ?s [] (Some (key, val)))"
  note rest = lcp_rest [OF m]
  have l: "?l \<noteq> []" using proper rest(1) by (metis append_Nil2)
  show "rn_prefix (split_node key val n m s) = m" by (simp add: split_node_def Let_def)
  have wfn: "rwf ?n" using wf by (cases n) simp
  have image: "edge_contents (m, RNode m es lf) = image_mset (\<lambda>(k, v). (m @ k, v))
      (leaf_contents lf + sum_list (map edge_contents es))" for es and lf :: "(string \<times> 'a) option"
    by (simp add: edge_contents_def mset_contents)
  have old: "image_mset (\<lambda>(k, v). (m @ k, v)) (edge_contents (?l, ?n)) = edge_contents (rn_prefix n, n)"
  proof -
    have "contents_of ?n = contents_of n" by (cases n) (simp only: rnode.sel, rule contents_prefix)
    moreover have "m @ ?l @ k = rn_prefix n @ k" for k using rest(1) by (metis append_assoc)
    then have "(\<lambda>x :: string \<times> 'a. (m @ ?l @ fst x, snd x)) = (\<lambda>(k, v). (rn_prefix n @ k, v))"
      by (simp add: fun_eq_iff)
    ultimately show ?thesis
      by (simp add: edge_contents_def multiset.map_comp comp_def case_prod_beta)
  qed
  have "rwf (split_node key val n m s) \<and>
      edge_contents (m, split_node key val n m s) = add_mset (s, val) (edge_contents (rn_prefix n, n))"
  proof (cases "?s = []")
    case True
    then have eq: "split_node key val n m s = RNode m [(?l, ?n)] (Some (key, val))"
      by (simp add: split_node_def Let_def)
    have "edge_contents (m, split_node key val n m s) = add_mset (m, val) (edge_contents (rn_prefix n, n))"
      unfolding eq image by (simp add: leaf_contents_def old)
    moreover have "rwf (split_node key val n m s)"
      unfolding eq by (rule rwf.node) (use l wfn in \<open>simp_all add: labels_ok_def del: rwf_RNode\<close>)
    moreover have "m = s" using True rest(2) by simp
    ultimately show ?thesis by simp
  next
    case False
    then have eq: "split_node key val n m s = RNode m (addEdge ?e [(?l, ?n)]) None"
      by (simp add: split_node_def Let_def)
    have ne: "hd ?l \<noteq> hd ?s" using rest(3) l False by simp
    have add: "mset (addEdge ?e [(?l, ?n)]) = {#?e, (?l, ?n)#}" "labels_ok (map fst (addEdge ?e [(?l, ?n)]))"
      using addEdge_second [of "(?l, ?n)" ?e] l False ne by simp_all
    have "set (addEdge ?e [(?l, ?n)]) = {?e, (?l, ?n)}"
      using arg_cong [OF add(1), of set_mset] by simp
    moreover have "rwf (snd ?e)" by (simp add: labels_ok_def)
    ultimately have wf_split: "rwf (split_node key val n m s)"
      unfolding eq by - (rule rwf.node, rule add(2), use wfn in \<open>simp del: rwf_RNode\<close>)
    have "sum_list (map edge_contents (addEdge ?e [(?l, ?n)])) =
        sum_list (map edge_contents [?e, (?l, ?n)])"
      by (rule mset_sum_edges) (simp add: add(1))
    moreover have "edge_contents ?e = {#(?s, val)#}"
      by (simp add: edge_contents_def contents_edges)
    moreover have "m @ ?s = s" using rest(2) by simp
    ultimately have "edge_contents (m, split_node key val n m s) =
        add_mset (s, val) (edge_contents (rn_prefix n, n))"
      unfolding eq image by (simp add: leaf_contents_def old)
    with wf_split show ?thesis by simp
  qed
  then show "rwf (split_node key val n m s)"
    "edge_contents (m, split_node key val n m s) = add_mset (s, val) (edge_contents (rn_prefix n, n))"
    by blast+
qed

section \<open>Insertion\<close>

text \<open>
  What is left of a key after the labels of the root that it starts with: the loop of \<open>Insert\<close> goes
  back to the root after a full match.
\<close>

function residue :: "'v rnode \<Rightarrow> string \<Rightarrow> string" where
  "residue rt search =
     (if search = [] then []
      else
        (case walkEdge rt search of
           (None, _, _) \<Rightarrow> search
         | (Some n, _, m) \<Rightarrow>
             if length m = length (rn_prefix n) then residue rt (drop (length m) search) else search))"
  by pat_completeness auto
termination
  by (relation "measure (\<lambda>(rt, search). length search)") (auto dest: walkEdge_less)

declare residue.simps [simp del]

lemma residue_Nil [simp]: "residue rt [] = []"
  by (simp add: residue.simps)

definition rt_stored :: "'v raxtree \<Rightarrow> (string \<times> 'v) multiset" where
  "rt_stored t = mset (contents_of (rt_root t))"

definition rt_inv :: "'v raxtree \<Rightarrow> bool" where
  "rt_inv t \<longleftrightarrow> rwf (rt_root t) \<and> rt_size t = int (size (rt_stored t))"

definition insert_result :: "'v raxtree \<Rightarrow> 'v \<Rightarrow> string \<Rightarrow> bool \<Rightarrow> 'v raxtree \<Rightarrow> bool" where
  "insert_result t val r b t' \<longleftrightarrow>
     rwf (rt_root t') \<and> (b \<longleftrightarrow> \<not> (r = [] \<and> isLeaf (rt_root t))) \<and>
     rt_size t' = rt_size t + (if b then 1 else 0) \<and>
     rt_stored t' = add_mset (r, val) (rt_stored t - (if b then {#} else leaf_contents (rn_leaf (rt_root t))))"

lemma rwf_labels: "rwf n \<Longrightarrow> labels_ok (map fst (rn_edges n))"
  by (cases n) simp

lemma rwf_edge:
  assumes "rwf n" and "i < length (rn_edges n)"
  shows "fst (rn_edges n ! i) = rn_prefix (snd (rn_edges n ! i))" and "rwf (snd (rn_edges n ! i))"
  using assms by (cases n, simp)+

lemma insert_place_le: "insert_place ls s k \<Longrightarrow> k \<le> length ls"
  by (simp add: insert_place_def)

lemma insert_new_edge:
  assumes wf: "rwf (RNode p es lf)" and s: "s \<noteq> []" and k: "insert_place (map fst es) s k"
  shows "rwf (RNode p (addEdgeByIdx k (s, RNode s [] (Some (key, val))) es) lf)"
    and "mset (contents_of (RNode p (addEdgeByIdx k (s, RNode s [] (Some (key, val))) es) lf)) =
      add_mset (s, val) (mset (contents_of (RNode p es lf)))"
proof -
  let ?e = "(s, RNode s [] (Some (key, val)))"
  have k': "k \<le> length es" using insert_place_le [OF k] by simp
  have "labels_ok (map fst (take k es @ ?e # drop k es))"
    using labels_ok_insert [OF _ s k] wf by (simp add: take_map drop_map)
  moreover have "\<forall>e \<in> set (take k es @ ?e # drop k es). fst e = rn_prefix (snd e) \<and> rwf (snd e)"
    using wf by (auto simp: labels_ok_def dest: in_set_takeD in_set_dropD)
  ultimately show "rwf (RNode p (addEdgeByIdx k ?e es) lf)"
    unfolding addEdgeByIdx_take_drop [OF k'] by (rule rwf.node)
  have "edge_contents ?e = {#(s, val)#}" by (simp add: edge_contents_def contents_edges)
  then show "mset (contents_of (RNode p (addEdgeByIdx k ?e es) lf)) =
      add_mset (s, val) (mset (contents_of (RNode p es lf)))"
    unfolding addEdgeByIdx_take_drop [OF k'] mset_contents sum_list_insert by simp
qed

lemma replace_edge:
  assumes wf: "rwf (RNode p es lf)" and i: "i < length es"
    and new: "rwf n'" "rn_prefix n' = m" "m \<noteq> []" "hd m = hd (fst (es ! i))"
    and c: "edge_contents (m, n') = add_mset x (edge_contents (es ! i))"
  shows "rwf (RNode p (es[i := (m, n')]) lf)"
    and "mset (contents_of (RNode p (es[i := (m, n')]) lf)) = add_mset x (mset (contents_of (RNode p es lf)))"
proof -
  have ok: "labels_ok (map fst es)" using wf by simp
  have "labels_ok (map fst (es[i := (m, n')]))"
    unfolding labels_ok_def
  proof
    show "[] \<notin> set (map fst (es[i := (m, n')]))"
      using ok new(3) set_update_subset_insert [of "map fst es" i m] by (auto simp: labels_ok_def map_update)
    show "sorted_wrt (\<lambda>a b. byte (hd a) < byte (hd b)) (map fst (es[i := (m, n')]))"
      using ok new(4) i unfolding labels_ok_def sorted_wrt_iff_nth_less
      by (auto simp: nth_list_update map_update)
  qed
  moreover have "\<forall>e \<in> set (es[i := (m, n')]). fst e = rn_prefix (snd e) \<and> rwf (snd e)"
    using wf new set_update_subset_insert [of es i "(m, n')"] by auto
  ultimately show "rwf (RNode p (es[i := (m, n')]) lf)" by (rule rwf.node)
  have "sum_list (map edge_contents (es[i := (m, n')])) + edge_contents (es ! i) =
      add_mset x (sum_list (map edge_contents es)) + edge_contents (es ! i)"
    unfolding sum_list_update_mset [OF i] c by simp
  then show "mset (contents_of (RNode p (es[i := (m, n')]) lf)) = add_mset x (mset (contents_of (RNode p es lf)))"
    unfolding mset_contents by simp
qed

lemma insert_loop_split:
  assumes root: "rt_root t = RNode p es lf" and wf: "rwf (RNode p es lf)" and s: "search \<noteq> []"
    and i: "i < length es" "hd (fst (es ! i)) = hd search" and m_def: "longestCommonPrefix (fst (es ! i)) search = m"
    and found: "walkEdge (RNode p es lf) search = (Some (snd (es ! i)), i, m)"
    and proper: "length m \<noteq> length (rn_prefix (snd (es ! i)))"
  shows "\<exists>b t'. insert_loop key val t search = Ret (b, t') \<and> insert_result t val (residue (rt_root t) search) b t'"
proof -
  let ?n = "snd (es ! i)" and ?n' = "split_node key val (snd (es ! i)) m search"
  have n: "fst (es ! i) = rn_prefix ?n" "rwf ?n" using rwf_edge [OF wf, of i] i(1) by simp_all
  have "fst (es ! i) \<noteq> []" using labels_ok_nth(1) [of "map fst es" i] wf i(1) by simp
  then have m: "m \<noteq> []" using s i(2) m_def by (auto simp: lcp_Nil_iff)
  have pre: "prefix m (fst (es ! i))" using lcp_prefix1 [of "fst (es ! i)" search] m_def by simp
  have le: "length m \<le> length (rn_prefix ?n)" using pre n(1) by (metis prefix_length_le)
  have r: "residue (rt_root t) search = search" using s found proper by (simp add: root residue.simps)
  note split = split_node_ok [OF n(2), of search m, folded n(1), OF m_def m]
  have len: "length m \<noteq> length (fst (es ! i))" using proper n(1) by simp
  have hd: "hd m = hd (fst (es ! i))" using m pre by (metis hd_append2 prefixE)
  have "insert_loop key val t search =
      Ret (True, \<lparr>rt_root = RNode p (es[i := (m, ?n')]) lf, rt_size = rt_size t + 1\<rparr>)"
    using s i(1) found proper le split(1) [OF len, of key val]
    by (subst insert_loop.simps) (simp add: root Let_def updateEdge_def split_node_def)
  moreover have "edge_contents (m, ?n') = add_mset (search, val) (edge_contents (es ! i))"
    using split(3) [OF len, of key val] by simp
  note replace_edge [OF wf i(1) split(2) [OF len] split(1) [OF len] m hd this]
  ultimately show ?thesis
    using s by (simp add: insert_result_def root isLeaf_def rt_stored_def r [unfolded root] ex_bool_eq del: rwf_RNode)
qed

lemma insert_loop_spec:
  assumes "rwf (rt_root t)"
  shows "\<exists>b t'. insert_loop key val t search = Ret (b, t') \<and> insert_result t val (residue (rt_root t) search) b t'"
proof (induction "length search" arbitrary: search rule: less_induct)
  case less
  obtain p es lf where root: "rt_root t = RNode p es lf" by (cases "rt_root t")
  have wf: "rwf (RNode p es lf)" using assms root by simp
  show ?case
  proof (cases "search = []")
    case True
    show ?thesis
    proof (cases lf)
      case None
      then show ?thesis
        using True wf by (simp add: insert_loop.simps root insert_result_def isLeaf_def rt_stored_def mset_contents
            leaf_contents_def ex_bool_eq)
    next
      case (Some l)
      then show ?thesis
        using True wf by (simp add: insert_loop.simps root insert_result_def isLeaf_def rt_stored_def mset_contents
            leaf_contents_def ex_bool_eq split: prod.split)
    qed
  next
    case s: False
    consider (found) i where "i < length es" "hd (fst (es ! i)) = hd search"
        "walkEdge (RNode p es lf) search = (Some (snd (es ! i)), i, longestCommonPrefix (fst (es ! i)) search)"
      | (absent) k where "walkEdge (RNode p es lf) search = (None, k, [])" "insert_place (map fst es) search k"
      using walkEdge_spec [of "RNode p es lf" search] wf s by auto
    then show ?thesis
    proof cases
      case absent
      then have r: "residue (rt_root t) search = search" using s by (simp add: root residue.simps)
      show ?thesis
        using s absent insert_new_edge [OF wf s absent(2), of search val]
        by (simp add: insert_loop.simps root insert_result_def isLeaf_def rt_stored_def r [unfolded root] Let_def
            ex_bool_eq del: rwf_RNode)
    next
      case found
      let ?n = "snd (es ! i)" and ?m = "longestCommonPrefix (fst (es ! i)) search"
      have "fst (es ! i) \<noteq> []" using labels_ok_nth(1) [of "map fst es" i] wf found(1) by simp
      then have m: "?m \<noteq> []" using s found(2) by (simp add: lcp_Nil_iff)
      show ?thesis
      proof (cases "length ?m = length (rn_prefix ?n)")
        case full: True
        then have step: "insert_loop key val t search = insert_loop key val t (drop (length ?m) search)"
          "residue (rt_root t) search = residue (rt_root t) (drop (length ?m) search)"
          using s found(3) by (subst insert_loop.simps residue.simps, simp add: root Let_def)+
        have "length (drop (length ?m) search) < length search" using s m by simp
        from less.hyps [OF this] show ?thesis unfolding step .
      next
        case False
        show ?thesis by (rule insert_loop_split [OF root wf s found(1,2) refl found(3) False])
      qed
    qed
  qed
qed

section \<open>Lookup\<close>

lemma labels_ok_hd_inj:
  assumes ok: "labels_ok ls" and "i < length ls" and "j < length ls" and "hd (ls ! i) = hd (ls ! j)"
  shows "i = j"
  using labels_ok_nth(2) [OF ok, of i j] labels_ok_nth(2) [OF ok, of j i] assms(2-4)
  by (cases i j rule: linorder_cases) auto

text \<open>Under the invariant, the edge whose label starts the key is the one the search takes.\<close>

lemma walkEdge_found:
  assumes wf: "rwf n" and i: "i < length (rn_edges n)" and s: "s = fst (rn_edges n ! i) @ s'"
  shows "walkEdge n s = (Some (snd (rn_edges n ! i)), i, fst (rn_edges n ! i))"
proof -
  let ?l = "fst (rn_edges n ! i)"
  have ok: "labels_ok (map fst (rn_edges n))" by (rule rwf_labels [OF wf])
  have l: "?l \<noteq> []" using labels_ok_nth(1) [OF ok, of i] i by simp
  then have ne: "s \<noteq> []" and hd: "hd s = hd ?l" using s by (auto simp: hd_append2)
  have lcp: "longestCommonPrefix ?l s = ?l"
  proof -
    have "longestCommonPrefix a (a @ b) = a" for a b :: string by (induction a) auto
    then show ?thesis using s by simp
  qed
  from walkEdge_spec [OF ok ne] show ?thesis
  proof (elim disjE exE conjE)
    fix j
    assume j: "j < length (rn_edges n)" "hd (fst (rn_edges n ! j)) = hd s"
      and run: "walkEdge n s = (Some (snd (rn_edges n ! j)), j, longestCommonPrefix (fst (rn_edges n ! j)) s)"
    have "j = i" using labels_ok_hd_inj [OF ok, of j i] i j hd by simp
    with run lcp show ?thesis by simp
  next
    fix k
    assume "insert_place (map fst (rn_edges n)) s k"
    then have "byte (hd ?l) < byte (hd s) \<or> byte (hd s) < byte (hd ?l)"
      using i unfolding insert_place_def by (cases "i < k") auto
    with hd show ?thesis by simp
  qed
qed

lemma contents_cases:
  assumes "(k, v) \<in> set (contents_of n)"
  shows "(k = [] \<and> (\<exists>q. rn_leaf n = Some (q, v))) \<or>
    (\<exists>i k'. i < length (rn_edges n) \<and> k = fst (rn_edges n ! i) @ k' \<and> (k', v) \<in> set (contents_of (snd (rn_edges n ! i))))"
proof -
  obtain p es lf where n: "n = RNode p es lf" by (cases n)
  from assms consider "\<exists>q. lf = Some (q, v) \<and> k = []"
    | e k' where "e \<in> set es" "k = fst e @ k'" "(k', v) \<in> set (contents_of (snd e))"
    by (auto simp: n contents_edges split: option.splits)
  then show ?thesis
  proof cases
    case 2
    then obtain i where "i < length es" "es ! i = e" by (metis in_set_conv_nth)
    with 2 have "i < length (rn_edges n) \<and> k = fst (rn_edges n ! i) @ k' \<and>
        (k', v) \<in> set (contents_of (snd (rn_edges n ! i)))" by (simp add: n)
    then show ?thesis by blast
  qed (simp add: n)
qed

lemma find_node_stored:
  assumes "rwf n" and "(k, v) \<in> set (contents_of n)"
  shows "\<exists>n' q. find_node n k = Some n' \<and> rn_leaf n' = Some (q, v)"
  using assms
proof (induction "length k" arbitrary: n k rule: less_induct)
  case less
  from contents_cases [OF less.prems(2)] show ?case
  proof (elim disjE exE conjE)
    fix q
    assume "k = []" "rn_leaf n = Some (q, v)"
    then show ?case by (simp add: find_node.simps)
  next
    fix i k'
    let ?e = "rn_edges n ! i"
    assume i: "i < length (rn_edges n)" and k: "k = fst ?e @ k'" and k': "(k', v) \<in> set (contents_of (snd ?e))"
    have l: "fst ?e \<noteq> []"
      using labels_ok_nth(1) [OF rwf_labels [OF less.prems(1)], of i] i by simp
    then have "find_node n k = find_node (snd ?e) k'"
      using walkEdge_found [OF less.prems(1) i k] k by (subst find_node.simps) simp
    moreover have "length k' < length k" using l k by simp
    ultimately show ?case
      using less.hyps [OF _ rwf_edge(2) [OF less.prems(1) i] k'] by simp
  qed
qed

lemma stored_Find:
  assumes "rwf (rt_root t)" and "(k, v) \<in># rt_stored t"
  shows "Find k t = Some v"
proof -
  have "(k, v) \<in> set (contents_of (rt_root t))" using assms(2) by (simp add: rt_stored_def)
  from find_node_stored [OF assms(1) this] show ?thesis by (auto simp: Find_def)
qed

section \<open>Deletion\<close>

text \<open>\<open>Delete\<close> descends along the nodes \<open>Find\<close> visits.\<close>

lemma delete_loop_finds:
  assumes "rwf n" and "search \<noteq> []"
  shows "\<exists>r. delete_loop n search = Ret r \<and>
    (r \<noteq> None \<longleftrightarrow> (\<exists>n'. find_node n search = Some n' \<and> isLeaf n'))"
  using assms
proof (induction "length search" arbitrary: n search rule: less_induct)
  case less
  have Nil: "find_node n' [] = Some n'" for n' :: "'a rnode" by (simp add: find_node.simps)
  from walkEdge_spec [OF rwf_labels [OF less.prems(1)] less.prems(2)] show ?case
  proof (elim disjE exE conjE)
    fix k
    assume "walkEdge n search = (None, k, [])"
    then show ?case
      using less.prems(2) by (subst delete_loop.simps, subst find_node.simps) simp
  next
    fix i
    let ?e = "rn_edges n ! i"
    let ?m = "longestCommonPrefix (fst ?e) search"
    assume i: "i < length (rn_edges n)" and hd: "hd (fst ?e) = hd search" and run: "walkEdge n search = (Some (snd ?e), i, ?m)"
    have l: "fst ?e \<noteq> []" "fst ?e = rn_prefix (snd ?e)"
      using labels_ok_nth(1) [OF rwf_labels [OF less.prems(1)], of i] i rwf_edge(1) [OF less.prems(1) i] by simp_all
    have m: "?m \<noteq> []" using l(1) less.prems(2) hd by (simp add: lcp_Nil_iff)
    have pre: "prefix ?m (rn_prefix (snd ?e))" unfolding l(2) by (rule lcp_prefix1)
    have find: "find_node n search = find_node (snd ?e) (drop (length ?m) search)"
      using run less.prems(2) by (subst find_node.simps) simp
    show ?case
    proof (cases "rn_prefix (snd ?e) = search \<or> drop (length ?m) search = []")
      case True
      then have "delete_loop n search =
          (if \<not> isLeaf (snd ?e) then Ret None
           else gobind (removeEdgeByIdx i (rn_edges n)) (\<lambda>es. Ret (Some (merge_loop (RNode (rn_prefix n) es (rn_leaf n))))))"
        using less.prems(2) run pre by (subst delete_loop.simps) (auto simp: Let_def)
      moreover have "drop (length ?m) search = []" using True l(2) by auto
      ultimately show ?thesis using i unfolding find by (auto simp: Nil removeEdgeByIdx_def)
    next
      case False
      have "length (drop (length ?m) search) < length search" using m less.prems(2) by simp
      from less.hyps [OF this rwf_edge(2) [OF less.prems(1) i]] False obtain r where
        r: "delete_loop (snd ?e) (drop (length ?m) search) = Ret r"
        "r \<noteq> None \<longleftrightarrow> (\<exists>n'. find_node (snd ?e) (drop (length ?m) search) = Some n' \<and> isLeaf n')" by auto
      have "delete_loop n search = gobind (delete_loop (snd ?e) (drop (length ?m) search)) (\<lambda>r.
          case r of None \<Rightarrow> Ret None
          | Some next' \<Rightarrow> Ret (Some (RNode (rn_prefix n) ((rn_edges n)[i := (fst ?e, next')]) (rn_leaf n))))"
        using False less.prems(2) run pre by (subst delete_loop.simps) (simp add: Let_def)
      with r show ?thesis unfolding find by (auto split: option.split)
    qed
  qed
qed

end
