(* ===== verification/Rax_Props.thy ===== *)
theory Rax_Props
  imports Rax_Wf
begin

text \<open>
  What the radix tree of \<open>src/db/rax.go\<close> promises: insertion never panics, keeps the invariant and adds one
  entry; every stored key is found; deletion agrees with lookup. Two runs show where the
  promise stops: the merge after a deletion at the root loses the keys that are left, and a key is stored
  below the part of it that the labels of the root do not cover.
\<close>

section \<open>Insertion\<close>

definition sample_tree :: "nat raxtree" where
  "sample_tree =
     \<lparr>rt_root = RNode [] [(''appl'', RNode ''appl''
         [(''e'', RNode ''e'' [] (Some (''apple'', 1))), (''y'', RNode ''y'' [] (Some (''apply'', 2)))] None)] None,
      rt_size = 2\<rparr>"

lemma sample_wf: "rwf (rt_root sample_tree)"
  by (simp add: sample_tree_def labels_ok_def byte_def)

text \<open>
  C23: \<open>Insert\<close> on a well-formed tree always returns, keeps the tree well-formed, reports a new entry
  (and counts it) unless the whole key is used up by labels of the root and the root holds a value, and
  stores the value under what the root's labels leave of the key, all other entries unchanged.
\<close>

theorem Insert_adds:
  assumes "rwf (rt_root t)"
  shows "\<exists>b t'. Insert key val t = Ret (b, t') \<and> rwf (rt_root t') \<and>
    (b \<longleftrightarrow> \<not> (residue (rt_root t) key = [] \<and> isLeaf (rt_root t))) \<and>
    rt_size t' = rt_size t + (if b then 1 else 0) \<and>
    rt_stored t' = add_mset (residue (rt_root t) key, val)
      (rt_stored t - (if b then {#} else leaf_contents (rn_leaf (rt_root t))))"
  using insert_loop_spec [OF assms, of key val key] unfolding Insert_def insert_result_def by blast

theorem Insert_adds_witness:
  "\<exists>b t'. Insert ''apt'' 3 sample_tree = Ret (b, t') \<and> rwf (rt_root t')"
  using Insert_adds [OF sample_wf, of "''apt''" 3] by blast

text \<open>
  C13: in a tree that is well-formed and whose size is the number of its entries, a non-empty key that no complete label of the root
  begins is stored under itself: right after its insertion \<open>Find\<close> returns the value, and every entry the tree stores is still found
  with its value. An entry is stored under what was left of its key at insertion, so this does not say that every key
  once inserted is found.
\<close>

theorem Insert_then_Find:
  assumes "rt_inv t" and "residue (rt_root t) key = key" and "key \<noteq> []"
  shows "\<exists>t'. Insert key val t = Ret (True, t') \<and> rt_inv t' \<and> Find key t' = Some val \<and>
    (\<forall>k v. (k, v) \<in># rt_stored t \<longrightarrow> Find k t' = Some v)"
proof -
  have wf: "rwf (rt_root t)" using assms(1) by (simp add: rt_inv_def)
  from insert_loop_spec [OF wf, of key val key] assms obtain t' where t':
    "Insert key val t = Ret (True, t')" "rwf (rt_root t')" "rt_size t' = rt_size t + 1"
    "rt_stored t' = add_mset (key, val) (rt_stored t)"
    by (auto simp: Insert_def insert_result_def)
  have "Find k t' = Some v" if "(k, v) \<in># rt_stored t'" for k v
    using stored_Find [OF t'(2) that] .
  with t' assms(1) show ?thesis by (simp add: rt_inv_def)
qed

theorem Insert_then_Find_witness: "\<exists>t'. Insert ''apt'' 3 sample_tree = Ret (True, t') \<and> Find ''apt'' t' = Some 3"
proof -
  have "rt_inv sample_tree"
    using sample_wf by (simp add: rt_inv_def rt_stored_def) (simp add: sample_tree_def contents_edges)
  moreover have "residue (rt_root sample_tree) ''apt'' = ''apt''"
    by (simp add: residue.simps [of _ "''apt''"] sample_tree_def walkEdge_def walk_loop.simps Let_def)
  ultimately show ?thesis using Insert_then_Find [of sample_tree "''apt''" 3] by blast
qed

section \<open>Lookup and deletion\<close>

text \<open>\<open>Find\<close> returns the value of every key that a well-formed tree stores.\<close>

theorem Find_stored:
  assumes "rwf (rt_root t)" and "(k, v) \<in># rt_stored t"
  shows "Find k t = Some v"
  by (rule stored_Find [OF assms])

theorem Find_stored_witness: "Find ''apply'' sample_tree = Some 2"
  by (rule Find_stored [OF sample_wf]) (simp add: rt_stored_def sample_tree_def contents_edges)

text \<open>
  C29: on a well-formed tree (what insertion keeps and deletion may break) \<open>Delete\<close> of a non-empty key does not panic, reports success
  exactly when \<open>Find\<close> returns a value for the key, takes one off the size then, and leaves the tree alone otherwise.
\<close>

theorem Delete_agrees_with_Find:
  assumes "rwf (rt_root t)" and "key \<noteq> []"
  shows "\<exists>t'. Delete key t = Ret (Find key t \<noteq> None, t') \<and>
    (if Find key t = None then t' = t else rt_size t' = rt_size t - 1)"
proof -
  obtain r where "delete_loop (rt_root t) key = Ret r"
    "r \<noteq> None \<longleftrightarrow> (\<exists>n'. find_node (rt_root t) key = Some n' \<and> isLeaf n')"
    using delete_loop_finds [OF assms] by blast
  moreover have "Find key t \<noteq> None \<longleftrightarrow> (\<exists>n'. find_node (rt_root t) key = Some n' \<and> isLeaf n')"
    by (auto simp: Find_def isLeaf_def split: option.split)
  ultimately show ?thesis using assms(2) by (cases r) (auto simp: Delete_def)
qed

theorem Delete_agrees_with_Find_witness:
  "\<exists>t'. Delete ''apple'' sample_tree = Ret (Find ''apple'' sample_tree \<noteq> None, t')"
  using Delete_agrees_with_Find [OF sample_wf, of "''apple''"] by blast

section \<open>Where the promise stops\<close>

definition two_keys :: "(bool \<times> nat raxtree) go" where
  "two_keys = gobind (Insert ''apple'' 1 NewRaxTree) (\<lambda>(_, t). Insert ''banana'' 2 t)"

text \<open>
  deleting one of two keys merges the root with the node of the other; the search for a key starts
  below the root's prefix, so the key that is left is not found any more, although the size is 1.
\<close>

theorem Delete_loses_sibling:
  "gobind two_keys (\<lambda>(_, t). gobind (Delete ''banana'' t) (\<lambda>(b, t'). Ret (b, rt_Len t', Find ''apple'' t, Find ''apple'' t'))) =
     Ret (True, 1, Some 1, None)"
  by code_simp

text \<open>
  a key with a stored key as a proper prefix is stored at the root under the rest of it: the lookup of the
  key follows the shorter one and does not find it, and finds its value under the rest.
\<close>

theorem Insert_below_stored_prefix:
  "gobind (Insert ''app'' (1::nat) NewRaxTree) (\<lambda>(_, t). gobind (Insert ''apple'' 2 t) (\<lambda>(b, t').
     Ret (b, rt_Len t', Find ''apple'' t', Find ''le'' t'))) = Ret (True, 2, None, Some 2)"
  by code_simp

text \<open>
  the search compares the key with a label only as far as both go, so a proper prefix of a stored
  key is reported as found, with the value of the longer key.
\<close>

theorem Find_proper_prefix:
  "gobind (Insert ''apple'' (1::nat) NewRaxTree) (\<lambda>(_, t). Ret (Find ''app'' t)) = Ret (Some 1)"
  by code_simp

end
