(* ===== verification/Gostrings.thy ===== *)
theory Gostrings
  imports Prelude
begin

text \<open>
  The parts of Go's standard library on byte strings that several packages use: \<open>strconv.Atoi\<close>, the
  decimal verb of \<open>fmt\<close>, \<open>bytes.SplitN\<close> at the line end, and ASCII case. Byte strings are \<open>string\<close>s.
\<close>

section \<open>Decimal numbers\<close>

definition MaxInt64 :: int where
  "MaxInt64 = 9223372036854775807"

definition MinInt64 :: int where
  "MinInt64 = -9223372036854775808"

definition digit_char :: "nat \<Rightarrow> char" where
  "digit_char d = char_of (48 + d)"

definition digit_value :: "char \<Rightarrow> nat option" where
  "digit_value c = (let n = of_char c :: nat in if 48 \<le> n \<and> n \<le> 57 then Some (n - 48) else None)"

lemma digit_value_char [simp]: "d < 10 \<Longrightarrow> digit_value (digit_char d) = Some d"
  by (simp add: digit_value_def digit_char_def Let_def)

fun nat_digits :: "nat \<Rightarrow> string" where
  "nat_digits n = (if n < 10 then [digit_char n] else nat_digits (n div 10) @ [digit_char (n mod 10)])"

declare nat_digits.simps [simp del]

text \<open>The verb \<open>%d\<close>.\<close>

definition itoa :: "int \<Rightarrow> string" where
  "itoa i = (if i < 0 then CHR ''-'' # nat_digits (nat (- i)) else nat_digits (nat i))"

text \<open>
  \<open>strconv.ParseUint(s, 10, 64)\<close>: the digits are read one by one; the first byte that is no digit is a syntax
  error, and the first digit that takes the value over 64 bits a range error.
\<close>

datatype num_error = SyntaxError | RangeError

fun parse_digits :: "int \<Rightarrow> string \<Rightarrow> num_error + int" where
  "parse_digits n [] = Inr n"
| "parse_digits n (c # cs) =
     (case digit_value c of
        None \<Rightarrow> Inl SyntaxError
      | Some d \<Rightarrow> if n * 10 + int d > 18446744073709551615 then Inl RangeError else parse_digits (n * 10 + int d) cs)"

definition ParseUint :: "string \<Rightarrow> num_error + int" where
  "ParseUint s = (if s = [] then Inl SyntaxError else parse_digits 0 s)"

text \<open>\<open>strconv.ParseInt(s, 10, 64)\<close> and \<open>strconv.Atoi\<close>: the number and the error they return.\<close>

definition ParseInt :: "string \<Rightarrow> int \<times> num_error option" where
  "ParseInt s =
     (let neg = (s \<noteq> [] \<and> hd s = CHR ''-'');
          body = (if s \<noteq> [] \<and> (hd s = CHR ''+'' \<or> hd s = CHR ''-'') then tl s else s) in
      case ParseUint body of
        Inl SyntaxError \<Rightarrow> (0, Some SyntaxError)
      | Inl RangeError \<Rightarrow> (if neg then MinInt64 else MaxInt64, Some RangeError)
      | Inr un \<Rightarrow>
          if \<not> neg \<and> un > MaxInt64 then (MaxInt64, Some RangeError)
          else if neg \<and> un > - MinInt64 then (MinInt64, Some RangeError)
          else (if neg then - un else un, None))"

abbreviation Atoi :: "string \<Rightarrow> int \<times> num_error option" where
  "Atoi \<equiv> ParseInt"

lemma parse_digits_range: "parse_digits n s = Inr m \<Longrightarrow> 0 \<le> n \<Longrightarrow> 0 \<le> m"
  by (induction n s rule: parse_digits.induct) (auto split: option.splits if_splits)

lemma ParseInt_range: "MinInt64 \<le> fst (ParseInt s) \<and> fst (ParseInt s) \<le> MaxInt64"
proof -
  define neg where "neg \<longleftrightarrow> s \<noteq> [] \<and> hd s = CHR ''-''"
  define r where "r = ParseUint (if s \<noteq> [] \<and> (hd s = CHR ''+'' \<or> hd s = CHR ''-'') then tl s else s)"
  have *: "ParseInt s = (case r of
        Inl SyntaxError \<Rightarrow> (0, Some SyntaxError)
      | Inl RangeError \<Rightarrow> (if neg then MinInt64 else MaxInt64, Some RangeError)
      | Inr un \<Rightarrow>
          if \<not> neg \<and> un > MaxInt64 then (MaxInt64, Some RangeError)
          else if neg \<and> un > - MinInt64 then (MinInt64, Some RangeError)
          else (if neg then - un else un, None))"
    by (simp only: ParseInt_def Let_def neg_def r_def)
  have "0 \<le> un" if "r = Inr un" for un
    using that parse_digits_range by (auto simp: r_def ParseUint_def split: if_splits)
  then show ?thesis
    unfolding * MinInt64_def MaxInt64_def by (cases r) (auto split: num_error.split)
qed

lemma nat_digits_nonempty [simp]: "nat_digits n \<noteq> []"
  by (subst nat_digits.simps) simp

lemma nat_digits_set: "set (nat_digits n) \<subseteq> digit_char ` {..<10}"
proof (induction n rule: nat_digits.induct)
  case (1 n)
  then show ?case by (subst nat_digits.simps) auto
qed

lemma parse_digits_append:
  "parse_digits n (xs @ ys) = (case parse_digits n xs of Inl e \<Rightarrow> Inl e | Inr m \<Rightarrow> parse_digits m ys)"
  by (induction n xs rule: parse_digits.induct) (auto split: option.splits)

lemma parse_nat_digits: "int n \<le> 18446744073709551615 \<Longrightarrow> parse_digits 0 (nat_digits n) = Inr (int n)"
proof (induction n rule: nat_digits.induct)
  case (1 n)
  show ?case
  proof (cases "n < 10")
    case False
    have "int (n div 10) * 10 + int (n mod 10) = int n" by presburger
    moreover have "parse_digits 0 (nat_digits (n div 10)) = Inr (int (n div 10))"
      using 1 False by simp
    ultimately show ?thesis
      using False 1(2) by (subst nat_digits.simps) (simp add: parse_digits_append)
  qed (simp add: nat_digits.simps)
qed

lemma nat_digits_value: "c \<in> set (nat_digits n) \<Longrightarrow> digit_value c \<noteq> None"
  using nat_digits_set [of n] by auto

lemma not_digit [simp]: "digit_value (CHR ''+'') = None" "digit_value (CHR ''-'') = None"
  "digit_value (CHR 0x0D) = None" "digit_value (CHR 0x0A) = None"
  by (simp_all add: digit_value_def)

lemma itoa_no_cr: "CHR 0x0D \<notin> set (itoa i)"
  using nat_digits_value [of "CHR 0x0D"] by (auto simp: itoa_def)

lemma ParseInt_itoa:
  assumes "MinInt64 \<le> i" and "i \<le> MaxInt64"
  shows "ParseInt (itoa i) = (i, None)"
proof (cases "i < 0")
  case True
  then have "ParseUint (nat_digits (nat (- i))) = Inr (- i)"
    using parse_nat_digits [of "nat (- i)"] assms by (simp add: ParseUint_def MinInt64_def)
  then show ?thesis
    using True assms by (simp add: ParseInt_def itoa_def MinInt64_def MaxInt64_def)
next
  case False
  then have "ParseUint (nat_digits (nat i)) = Inr i"
    using parse_nat_digits [of "nat i"] assms by (simp add: ParseUint_def MaxInt64_def)
  moreover have "hd (nat_digits (nat i)) \<noteq> CHR ''+'' \<and> hd (nat_digits (nat i)) \<noteq> CHR ''-''"
    using nat_digits_value [OF hd_in_set [OF nat_digits_nonempty], of "nat i"] by auto
  ultimately show ?thesis
    using False assms by (simp add: ParseInt_def itoa_def MinInt64_def MaxInt64_def Let_def)
qed

section \<open>Lines\<close>

definition CRLF :: string where
  "CRLF = [CHR 0x0D, CHR 0x0A]"

text \<open>\<open>bytes.SplitN(s, CRLF, 2)\<close>: the part before the first CRLF, and the part after it if there is one.\<close>

fun split_crlf :: "string \<Rightarrow> string \<times> string option" where
  "split_crlf (a # b # s) =
     (if a = CHR 0x0D \<and> b = CHR 0x0A then ([], Some s)
      else (let (line, rest) = split_crlf (b # s) in (a # line, rest)))"
| "split_crlf s = (s, None)"

lemma split_crlf_line: "CHR 0x0D \<notin> set line \<Longrightarrow> split_crlf (line @ CRLF @ rest) = (line, Some rest)"
proof (induction line)
  case (Cons a line)
  then show ?case by (cases "line @ CRLF @ rest") (auto simp: CRLF_def)
qed (simp add: CRLF_def)

lemma split_crlf_Some: "split_crlf s = (line, Some rest) \<Longrightarrow> s = line @ CRLF @ rest"
  by (induction s arbitrary: line rest rule: split_crlf.induct)
    (auto simp: CRLF_def split: if_splits prod.splits)

section \<open>Letter case\<close>

text \<open>
  Case folding, exact for comparisons with an ASCII string: besides the two cases of a letter,
  \<open>strings.EqualFold\<close> takes U+017F for an s and U+212A for a k. \<open>strings.ToUpper\<close> is modelled on ASCII letters.
\<close>

definition to_lower :: "char \<Rightarrow> char" where
  "to_lower c = (let n = of_char c :: nat in if 65 \<le> n \<and> n \<le> 90 then char_of (n + 32) else c)"

definition to_upper :: "char \<Rightarrow> char" where
  "to_upper c = (let n = of_char c :: nat in if 97 \<le> n \<and> n \<le> 122 then char_of (n - 32) else c)"

definition ToUpper :: "string \<Rightarrow> string" where
  "ToUpper s = map to_upper s"

fun EqualFold :: "string \<Rightarrow> string \<Rightarrow> bool" where
  "EqualFold s [] \<longleftrightarrow> s = []"
| "EqualFold s (t # ts) \<longleftrightarrow>
     (if s = [] then False
      else if to_lower (hd s) = to_lower t then EqualFold (tl s) ts
      else if to_lower t = CHR ''s'' \<and> take 2 s = [CHR 0xC5, CHR 0xBF] then EqualFold (drop 2 s) ts
      else if to_lower t = CHR ''k'' \<and> take 3 s = [CHR 0xE2, CHR 0x84, CHR 0xAA] then EqualFold (drop 3 s) ts
      else False)"

declare EqualFold.simps [simp del]

section \<open>UTF-8\<close>

text \<open>
  The number of bytes \<open>utf8.DecodeRune\<close> takes from the front: the length of the encoding there, or 1 for a
  byte that starts none.
\<close>

definition in_range :: "nat \<Rightarrow> nat \<Rightarrow> char \<Rightarrow> bool" where
  "in_range lo hi c \<longleftrightarrow> lo \<le> of_char c \<and> of_char c \<le> hi"

definition conts :: "nat \<Rightarrow> nat \<Rightarrow> nat \<Rightarrow> string \<Rightarrow> bool" where
  "conts n lo hi cs \<longleftrightarrow> n \<le> length cs \<and> 0 < n \<and> in_range lo hi (cs ! 0) \<and> list_all (in_range 128 191) (tl (take n cs))"

fun rune_width :: "string \<Rightarrow> nat" where
  "rune_width [] = 0"
| "rune_width (c # cs) =
     (if in_range 194 223 c \<and> conts 1 128 191 cs then 2
      else if in_range 224 224 c \<and> conts 2 160 191 cs then 3
      else if (in_range 225 236 c \<or> in_range 238 239 c) \<and> conts 2 128 191 cs then 3
      else if in_range 237 237 c \<and> conts 2 128 159 cs then 3
      else if in_range 240 240 c \<and> conts 3 144 191 cs then 4
      else if in_range 241 243 c \<and> conts 3 128 191 cs then 4
      else if in_range 244 244 c \<and> conts 3 128 143 cs then 4
      else 1)"

text \<open>\<open>len([]rune(s))\<close>.\<close>

function rune_count :: "string \<Rightarrow> nat" where
  "rune_count s = (if s = [] then 0 else Suc (rune_count (drop (rune_width s) s)))"
  by pat_completeness auto
termination
proof (relation "measure length", simp)
  fix s :: string
  assume "s \<noteq> []"
  then show "(drop (rune_width s) s, s) \<in> measure length" by (cases s) auto
qed

declare rune_count.simps [simp del]

definition ascii :: "string \<Rightarrow> bool" where
  "ascii s \<longleftrightarrow> list_all (\<lambda>c. (of_char c :: nat) < 128) s"

lemma rune_width_ascii: "(of_char c :: nat) < 128 \<Longrightarrow> rune_width (c # cs) = 1"
  by (simp add: in_range_def)

lemma rune_count_ascii: "ascii s \<Longrightarrow> rune_count s = length s"
proof (induction s)
  case (Cons c s)
  then show ?case
    using rune_width_ascii [of c s] by (subst rune_count.simps) (simp add: ascii_def del: rune_width.simps)
qed (simp add: rune_count.simps)

section \<open>Fields\<close>

text \<open>The width of the white space a string starts with, in the sense of \<open>unicode.IsSpace\<close>; 0 if there is none.\<close>

definition space_width :: "string \<Rightarrow> nat" where
  "space_width s =
     (case s of [] \<Rightarrow> 0
      | c # cs \<Rightarrow>
          if c = CHR '' '' \<or> in_range 9 13 c then 1
          else if c = CHR 0xC2 \<and> (take 1 cs = [CHR 0x85] \<or> take 1 cs = [CHR 0xA0]) then 2
          else if c = CHR 0xE1 \<and> take 2 cs = [CHR 0x9A, CHR 0x80] then 3
          else if c = CHR 0xE2 \<and> take 1 cs = [CHR 0x80] \<and> 2 \<le> length cs \<and>
            (in_range 128 138 (cs ! 1) \<or> cs ! 1 = CHR 0xA8 \<or> cs ! 1 = CHR 0xA9 \<or> cs ! 1 = CHR 0xAF) then 3
          else if c = CHR 0xE2 \<and> take 2 cs = [CHR 0x81, CHR 0x9F] then 3
          else if c = CHR 0xE3 \<and> take 2 cs = [CHR 0x80, CHR 0x80] then 3
          else 0)"

text \<open>\<open>strings.Fields\<close>; \<open>field\<close> is the field being read.\<close>

function fields_loop :: "string \<Rightarrow> string \<Rightarrow> string list" where
  "fields_loop field s =
     (if s = [] then (if field = [] then [] else [field])
      else if space_width s > 0 then (if field = [] then [] else [field]) @ fields_loop [] (drop (space_width s) s)
      else fields_loop (field @ [hd s]) (tl s))"
  by pat_completeness auto
termination
  by (relation "measure (\<lambda>(field, s). length s)") auto

declare fields_loop.simps [simp del]

definition Fields :: "string \<Rightarrow> string list" where
  "Fields s = fields_loop [] s"

declare EqualFold.simps [code] rune_count.simps [code] fields_loop.simps [code]

end
