(* ===== verification/Resp.thy ===== *)
theory Resp
  imports Gostrings
begin

text \<open>
  \<open>src/resp/resp.go\<close> and \<open>src/resp/resp3.go\<close>: the nodes of the RESP3 protocol, the parser, the
  writer of commands and the printer. A byte slice is a \<open>string\<close>. Every slice expression of the parser that
  could reach beyond the length of its slice (but within its capacity) is followed by one that
  panics then, so lengths are the only bounds here. What \<open>strconv.ParseFloat\<close> and the comparison of
  two \<open>float64\<close> values do is a parameter, and so is the limit above which \<open>make\<close> refuses a length
  (\<open>2\<^sup>4\<^sup>4\<close> interface values are \<open>2\<^sup>4\<^sup>8\<close> bytes on a 64-bit platform, its limit of an allocation).
\<close>

section \<open>Nodes\<close>

datatype 'f node =
    NilNode
  | BlobString string
  | SimpleString string
  | Error string
  | Integer int
  | Null
  | Double 'f
  | Boolean bool
  | BlobError string
  | VerbatimString string string
  | BigNum string
  | Array "'f node list"
  | Map "('f node \<times> 'f node) list"
  | Set "'f node list"
  | Push "'f node list"

record 'f floats =
  ParseFloat :: "string \<Rightarrow> 'f"
  float_eq :: "'f \<Rightarrow> 'f \<Rightarrow> bool"

text \<open>
  A \<open>map[Node]Node\<close>: structs with a slice or map inside cannot be keys (the assignment panics), and
  two keys are the same when type and value are. A map is the list of its entries.
\<close>

definition hashable :: "'f node \<Rightarrow> bool" where
  "hashable n = (case n of Array _ \<Rightarrow> False | Map _ \<Rightarrow> False | Set _ \<Rightarrow> False | Push _ \<Rightarrow> False | _ \<Rightarrow> True)"

definition key_eq :: "'f floats \<Rightarrow> 'f node \<Rightarrow> 'f node \<Rightarrow> bool" where
  "key_eq fs k k' =
     (case k of Double x \<Rightarrow> (case k' of Double y \<Rightarrow> float_eq fs x y | _ \<Rightarrow> False) | _ \<Rightarrow> k = k')"

fun map_assign :: "'f floats \<Rightarrow> 'f node \<Rightarrow> 'f node \<Rightarrow> ('f node \<times> 'f node) list \<Rightarrow> ('f node \<times> 'f node) list" where
  "map_assign fs k v [] = [(k, v)]"
| "map_assign fs k v ((k', v') # m) = (if key_eq fs k' k then (k', v) # m else (k', v') # map_assign fs k v m)"

section \<open>Parsing\<close>

definition maxElems :: int where
  "maxElems = 17592186044416"

text \<open>\<open>bytes.SplitN(data, CRLF, 2)\<close>, with \<open>parts[0][1:]\<close> and \<open>parts[1]\<close>.\<close>

definition header :: "string \<Rightarrow> (string \<times> string) go" where
  "header data =
     (case split_crlf data of
        (_, None) \<Rightarrow> Panics IndexOutOfRange
      | (line, Some rest) \<Rightarrow> gobind (slice_from line 1) (\<lambda>s. Ret (s, rest)))"

definition make_nodes :: "int \<Rightarrow> unit go" where
  "make_nodes n = (if n < 0 \<or> n > maxElems then Panics MakeSliceLen else Ret ())"

text \<open>The loops over the elements: the parser of one element is an argument.\<close>

primrec parse_elems :: "(string \<Rightarrow> ('f node \<times> string) go) \<Rightarrow> nat \<Rightarrow> string \<Rightarrow> ('f node list \<times> string) go" where
  "parse_elems p 0 remaining = Ret ([], remaining)"
| "parse_elems p (Suc n) remaining =
     gobind (p remaining) (\<lambda>(e, remaining'). gobind (parse_elems p n remaining') (\<lambda>(es, remaining'').
       Ret (e # es, remaining'')))"

primrec parse_pairs :: "'f floats \<Rightarrow> (string \<Rightarrow> ('f node \<times> string) go) \<Rightarrow> nat
    \<Rightarrow> ('f node \<times> 'f node) list \<Rightarrow> string \<Rightarrow> (('f node \<times> 'f node) list \<times> string) go" where
  "parse_pairs fs p 0 m remaining = Ret (m, remaining)"
| "parse_pairs fs p (Suc n) m remaining =
     gobind (p remaining) (\<lambda>(key, newRemaining). gobind (p newRemaining) (\<lambda>(val, nextRemaining).
       if hashable key then parse_pairs fs p n (map_assign fs key val m) nextRemaining
       else Panics UnhashableKey))"

text \<open>The loop runs while \<open>i < count * 2\<close>, a product of 64-bit integers, with \<open>i\<close> going up by two.\<close>

definition pair_rounds :: "int \<Rightarrow> nat" where
  "pair_rounds n = nat (sint (word_of_int (n * 2) :: int64) div 2)"

definition parse_slice :: "(string \<Rightarrow> ('f node \<times> string) go) \<Rightarrow> ('f node list \<Rightarrow> 'f node) \<Rightarrow> string \<Rightarrow> ('f node \<times> string) go" where
  "parse_slice p con data =
     gobind (header data) (\<lambda>(s, remaining).
       let count = fst (Atoi s) in
       gobind (make_nodes count) (\<lambda>_. gobind (parse_elems p (nat count) remaining) (\<lambda>(es, rest). Ret (con es, rest))))"

definition parse_line :: "(string \<Rightarrow> 'f node) \<Rightarrow> string \<Rightarrow> ('f node \<times> string) go" where
  "parse_line con data = gobind (header data) (\<lambda>(s, rest). Ret (con s, rest))"

definition parse_blob :: "string \<Rightarrow> ('f node \<times> string) go" where
  "parse_blob data =
     gobind (header data) (\<lambda>(s, body).
       let len = fst (Atoi s) in
       gobind (slice_upto body len) (\<lambda>v.
       gobind (slice_from body (len + 2)) (\<lambda>rest. Ret (BlobString v, rest))))"

definition parse_verbatim :: "string \<Rightarrow> ('f node \<times> string) go" where
  "parse_verbatim data =
     gobind (header data) (\<lambda>(s, body).
       let totalLength = fst (Atoi s) in
       gobind (slice_upto body 3) (\<lambda>format.
       gobind (slice_upto body totalLength) (\<lambda>upto.
       gobind (slice_from upto 4) (\<lambda>v.
       gobind (slice_from body totalLength) (\<lambda>rest. Ret (VerbatimString format v, rest))))))"

definition parse_boolean :: "string \<Rightarrow> ('f node \<times> string) go" where
  "parse_boolean data =
     gobind (slice_get data 1) (\<lambda>c.
     gobind (slice_from data 3) (\<lambda>rest. Ret (Boolean (c = CHR ''t'' \<or> c = CHR ''T''), rest)))"

definition parse_map :: "'f floats \<Rightarrow> (string \<Rightarrow> ('f node \<times> string) go) \<Rightarrow> string \<Rightarrow> (('f node \<times> 'f node) list \<times> string) go" where
  "parse_map fs p data =
     gobind (header data) (\<lambda>(s, remaining). parse_pairs fs p (pair_rounds (fst (Atoi s))) [] remaining)"

text \<open>
  The parser. Every recursive call gets a shorter slice, so a depth of nesting of the length of the data and one more is
  never used up; \<open>Diverges\<close> would be its exhaustion.
\<close>

fun parse_depth :: "'f floats \<Rightarrow> nat \<Rightarrow> string \<Rightarrow> ('f node \<times> string) go" where
  "parse_depth fs 0 data = Diverges"
| "parse_depth fs (Suc d) data =
     (case data of
        [] \<Rightarrow> Panics IndexOutOfRange
      | c # _ \<Rightarrow>
          if c = CHR ''*'' then parse_slice (parse_depth fs d) Array data
          else if c = CHR ''$'' then parse_blob data
          else if c = CHR '':'' then parse_line (\<lambda>s. Integer (fst (Atoi s))) data
          else if c = CHR ''+'' then parse_line SimpleString data
          else if c = CHR ''-'' then parse_line Error data
          else if c = CHR ''!'' then parse_line BlobError data
          else if c = CHR ''#'' then parse_boolean data
          else if c = CHR ''='' then parse_verbatim data
          else if c = CHR ''_'' then gobind (slice_from data 2) (\<lambda>rest. Ret (Null, rest))
          else if c = CHR '','' then parse_line (\<lambda>s. Double (ParseFloat fs s)) data
          else if c = CHR ''('' then parse_line BigNum data
          else if c = CHR ''~'' then parse_slice (parse_depth fs d) Set data
          else if c = CHR ''%'' then
            gobind (parse_map fs (parse_depth fs d) data) (\<lambda>(m, rest). Ret (Map m, rest))
          else if c = CHR ''>'' then parse_slice (parse_depth fs d) Push data
          else if c = CHR ''|'' then
            gobind (parse_map fs (parse_depth fs d) data) (\<lambda>(_, rest). parse_depth fs d rest)
          else Ret (NilNode, data))"

definition parseRESP :: "'f floats \<Rightarrow> string \<Rightarrow> ('f node \<times> string) go" where
  "parseRESP fs data = parse_depth fs (Suc (length data)) data"

section \<open>Writing commands\<close>

definition blob_frame :: "string \<Rightarrow> string" where
  "blob_frame arg = ''$'' @ itoa (int (length arg)) @ CRLF @ arg @ CRLF"

definition ConvertToRESP :: "string \<Rightarrow> string list \<Rightarrow> string" where
  "ConvertToRESP command arguments =
     ''*'' @ itoa (int (length arguments) + 1) @ CRLF @ blob_frame command @ concat (map blob_frame arguments)"

section \<open>Printing\<close>

text \<open>
  The lines \<open>printNode\<close> writes, in the order of the entries for a map (Go leaves it open).
\<close>

fun printNode :: "'f node \<Rightarrow> string \<Rightarrow> string list" where
  "printNode (SimpleString v) ind = [ind @ ''SimpleString: '' @ v]"
| "printNode (Error m) ind = [ind @ ''Error: '' @ m]"
| "printNode (Boolean b) ind = [ind @ (if b then ''Boolean: true'' else ''Boolean: false'')]"
| "printNode (BlobString v) ind = [ind @ ''BulkString: '' @ v]"
| "printNode (Integer v) ind = [ind @ ''Integer: '' @ itoa v]"
| "printNode (Array es) ind = (ind @ ''Array:'') # concat (map (\<lambda>e. printNode e (ind @ ''  '')) es)"
| "printNode (Set es) ind = (ind @ ''Set:'') # concat (map (\<lambda>e. printNode e (ind @ ''  '')) es)"
| "printNode (Map m) ind = (ind @ ''Map:'') #
     concat (map (\<lambda>(k, v). (ind @ ''  Key:'') # printNode k (ind @ ''    '') @
       (ind @ ''  Value:'') # printNode v (ind @ ''    '')) m)"
| "printNode (VerbatimString f v) ind = [ind @ ''VerbatimString (Format: '' @ f @ ''): '' @ v]"
| "printNode (Push es) ind = (ind @ ''Push:'') # concat (map (\<lambda>e. printNode e (ind @ ''  '')) es)"
| "printNode _ ind = [ind @ ''Unknown Node Type!'']"

end
