(* ===== verification/Resp_Props.thy ===== *)
theory Resp_Props
  imports Resp
begin

text \<open>
  The parser of \<open>src/resp/resp3.go\<close>: it always returns or panics, with a suffix of its input as the rest;
  it reads back every frame of the RESP3 grammar but those of four types, and every command
  \<open>ConvertToRESP\<close> writes; and the inputs where it leaves part of a frame behind or panics.
\<close>

section \<open>The parser always ends\<close>

definition parsed :: "('a \<times> string) go \<Rightarrow> string \<Rightarrow> bool" where
  "parsed r data = (case r of None \<Rightarrow> False | Some (Inl _) \<Rightarrow> True | Some (Inr (_, rest)) \<Rightarrow> suffix rest data)"

named_theorems parsed_intros

lemma parsed_simps [simp]:
  "parsed (Panics p) data" "parsed (Ret (x, rest)) data \<longleftrightarrow> suffix rest data" "\<not> parsed Diverges data"
  by (simp_all add: parsed_def)

lemma parsed_bind:
  assumes "parsed m data" and "\<And>x rest. m = Ret (x, rest) \<Longrightarrow> suffix rest data \<Longrightarrow> parsed (f (x, rest)) data"
  shows "parsed (gobind m f) data"
  using assms by (cases m) (auto simp: parsed_def gobind_def split: sum.splits)

lemma parsed_mono: "parsed r rest \<Longrightarrow> suffix rest data \<Longrightarrow> parsed r data"
  by (auto simp: parsed_def split: option.splits sum.splits intro: suffix_order.trans)

lemma slice_from_cases: "slice_from s i = Panics SliceOutOfRange \<or> (\<exists>r. slice_from s i = Ret r \<and> suffix r s)"
  by (auto simp: slice_from_def suffix_drop)

lemma slice_upto_cases: "slice_upto s i = Panics SliceOutOfRange \<or> (\<exists>r. slice_upto s i = Ret r)"
  by (auto simp: slice_upto_def)

lemma header_cases:
  "(\<exists>p. header data = Panics p) \<or>
   (\<exists>s rest. header data = Ret (s, rest) \<and> suffix rest data \<and> length rest + 2 \<le> length data)"
proof -
  obtain line r where sp: "split_crlf data = (line, r)" by (cases "split_crlf data")
  show ?thesis
  proof (cases r)
    case (Some rest)
    with sp have "data = line @ CRLF @ rest" by (simp add: split_crlf_Some)
    then show ?thesis
      using sp Some slice_from_cases [of line 1]
      by (auto simp: header_def CRLF_def suffix_def)
  qed (simp add: header_def sp)
qed

lemma parsed_header [parsed_intros]:
  assumes "\<And>s rest. suffix rest data \<Longrightarrow> length rest < length data \<Longrightarrow> parsed (f (s, rest)) data"
  shows "parsed (gobind (header data) f) data"
  using header_cases [of data] assms by fastforce

lemma parsed_slice_from [parsed_intros]:
  "(\<And>r. suffix r s \<Longrightarrow> parsed (f r) data) \<Longrightarrow> parsed (gobind (slice_from s i) f) data"
  using slice_from_cases [of s i] by auto

lemma parsed_slice_upto [parsed_intros]:
  "(\<And>r. parsed (f r) data) \<Longrightarrow> parsed (gobind (slice_upto s i) f) data"
  using slice_upto_cases [of s i] by auto

lemma parsed_slice_get [parsed_intros]:
  "(\<And>c. parsed (f c) data) \<Longrightarrow> parsed (gobind (slice_get s i) f) data"
  by (simp add: slice_get_def)

lemma parsed_Ret [parsed_intros]: "suffix rest data \<Longrightarrow> parsed (Ret (x, rest)) data"
  by simp

lemma parsed_if: "parsed x data \<Longrightarrow> parsed y data \<Longrightarrow> parsed (if b then x else y) data"
  by simp

lemma parsed_line: "parsed (parse_line con data) data"
  unfolding parse_line_def by (rule parsed_header) simp

lemma parsed_blob: "parsed (parse_blob data) data"
  unfolding parse_blob_def
  by (rule parsed_header, simp only: prod.case Let_def, rule parsed_slice_upto, rule parsed_slice_from)
    (auto intro: suffix_order.trans)

lemma parsed_verbatim: "parsed (parse_verbatim data) data"
  unfolding parse_verbatim_def
  by (rule parsed_header, simp only: prod.case Let_def, rule parsed_slice_upto, rule parsed_slice_upto,
      rule parsed_slice_from, rule parsed_slice_from) (auto intro: suffix_order.trans)

lemma parsed_boolean: "parsed (parse_boolean data) data"
  unfolding parse_boolean_def by (rule parsed_slice_get, rule parsed_slice_from, rule parsed_Ret)

lemma parsed_elems:
  assumes "\<And>s. length s \<le> L \<Longrightarrow> parsed (p s) s" and "length s \<le> L"
  shows "parsed (parse_elems p n s) s"
  using assms(2)
proof (induction n arbitrary: s)
  case (Suc n)
  have "parsed (gobind (parse_elems p n rest) (\<lambda>(es, rest'). Ret (e # es, rest'))) s" if "suffix rest s" for e rest
  proof (rule parsed_mono [OF _ that], rule parsed_bind)
    show "parsed (parse_elems p n rest) rest"
      using Suc.IH [of rest] suffix_length_le [OF that] Suc.prems by simp
  qed auto
  then show ?case
    using assms(1) [OF Suc.prems] by (simp, intro parsed_bind) auto
qed simp

lemma parsed_pairs:
  assumes "\<And>s. length s \<le> L \<Longrightarrow> parsed (p s) s" and "length s \<le> L"
  shows "parsed (parse_pairs fs p n m s) s"
  using assms(2)
proof (induction n arbitrary: m s)
  case (Suc n)
  have "parsed (gobind (p s') (\<lambda>(v, s''). if hashable k then parse_pairs fs p n (map_assign fs k v m) s''
      else Panics UnhashableKey)) s" if "suffix s' s" for k s'
  proof (rule parsed_mono [OF _ that], rule parsed_bind)
    show "parsed (p s') s'" using assms(1) suffix_length_le [OF that] Suc.prems by simp
    show "parsed (case (v, s'') of (v, s'') \<Rightarrow> if hashable k then parse_pairs fs p n (map_assign fs k v m) s''
        else Panics UnhashableKey) s'" if "suffix s'' s'" for v s''
    proof -
      have "length s'' \<le> L" using suffix_length_le [OF that] suffix_length_le [OF \<open>suffix s' s\<close>] Suc.prems by simp
      from parsed_mono [OF Suc.IH [OF this] that] show ?thesis by simp
    qed
  qed
  then show ?case
    using assms(1) [OF Suc.prems] by (simp, intro parsed_bind) auto
qed simp

lemma parsed_slice:
  assumes "\<And>s. length s < length data \<Longrightarrow> parsed (p s) s"
  shows "parsed (parse_slice p con data) data"
  unfolding parse_slice_def
proof (rule parsed_header)
  fix s rest :: string
  assume rest: "suffix rest data" "length rest < length data"
  have "parsed (gobind (parse_elems p n rest) (\<lambda>(es, rest'). Ret (con es, rest'))) rest" for n
    by (rule parsed_bind, rule parsed_elems [of "length rest"]) (use assms rest in auto)
  then show "parsed (case (s, rest) of (s, remaining) \<Rightarrow> let count = fst (Atoi s) in
      gobind (make_nodes count) (\<lambda>_. gobind (parse_elems p (nat count) remaining) (\<lambda>(es, rest). Ret (con es, rest)))) data"
    using rest by (auto simp: make_nodes_def Let_def intro: parsed_mono)
qed

lemma parsed_map:
  assumes "\<And>s. length s < length data \<Longrightarrow> parsed (p s) s"
    and "\<And>m rest. suffix rest data \<Longrightarrow> length rest < length data \<Longrightarrow> parsed (f (m, rest)) data"
  shows "parsed (gobind (parse_map fs p data) f) data"
proof -
  have assoc: "gobind (gobind m g) f = gobind m (\<lambda>x. gobind (g x) f)" for m :: "(string \<times> string) go" and g
    by (auto simp: gobind_def split: option.split sum.split) (cases m; auto split: sum.splits)
  show ?thesis
    unfolding parse_map_def assoc
  proof (rule parsed_header)
    fix s rest :: string
    assume rest: "suffix rest data" "length rest < length data"
    have "parsed (parse_pairs fs p n [] rest) rest" for n
      by (rule parsed_pairs [of "length rest"]) (use assms(1) rest in auto)
    then have pairs: "parsed (parse_pairs fs p n [] rest) data" for n using rest by (auto intro: parsed_mono)
    have "parsed (gobind (parse_pairs fs p n [] rest) f) data" for n
    proof (rule parsed_bind [OF pairs])
      fix m r
      assume "parse_pairs fs p n [] rest = Ret (m, r)" "suffix r data"
      with \<open>parsed (parse_pairs fs p n [] rest) rest\<close> have "suffix r rest" by simp
      with \<open>suffix r data\<close> rest assms(2) show "parsed (f (m, r)) data" by (auto dest: suffix_length_le)
    qed
    then show "parsed (gobind (case (s, rest) of (s, remaining) \<Rightarrow>
        parse_pairs fs p (pair_rounds (fst (Atoi s))) [] remaining) f) data" by simp
  qed
qed

lemma parse_depth_parsed: "length data < d \<Longrightarrow> parsed (parse_depth fs d data) data"
proof (induction d arbitrary: data)
  case (Suc d)
  show ?case
  proof (cases data)
    case (Cons c cs)
    have IH: "parsed (parse_depth fs d s) s" if "length s < length data" for s
      using Suc.IH [of s] Suc.prems that by simp
    have after: "parsed (parse_depth fs d rest) data" if "suffix rest data" "length rest < length data" for rest
      using IH [OF that(2)] that(1) by (rule parsed_mono)
    show ?thesis
      unfolding parse_depth.simps Cons list.case unfolding Cons [symmetric]
    proof (intro parsed_if parsed_line parsed_blob parsed_verbatim parsed_boolean parsed_slice IH)
      show "parsed (gobind (slice_from data 2) (\<lambda>rest. Ret (Null :: 'a node, rest))) data"
        by (rule parsed_slice_from) simp
      show "parsed (gobind (parse_map fs (parse_depth fs d) data) (\<lambda>(m, rest). Ret (Map m, rest))) data"
        by (rule parsed_map) (use IH in auto)
      show "parsed (gobind (parse_map fs (parse_depth fs d) data) (\<lambda>(_, rest). parse_depth fs d rest)) data"
        by (rule parsed_map) (use IH after in auto)
    qed simp_all
  qed simp
qed simp

section \<open>Frames of the grammar\<close>

text \<open>
  The frames of the RESP3 grammar, for the types the parser reads completely: a reference
  encoder. How a \<open>float64\<close> is written is a parameter.
\<close>

fun encode :: "('f \<Rightarrow> string) \<Rightarrow> 'f node \<Rightarrow> string" where
  "encode w (BlobString v) = blob_frame v"
| "encode w (SimpleString v) = ''+'' @ v @ CRLF"
| "encode w (Error m) = ''-'' @ m @ CRLF"
| "encode w (Integer i) = '':'' @ itoa i @ CRLF"
| "encode w (Double x) = '','' @ w x @ CRLF"
| "encode w (BigNum v) = ''('' @ v @ CRLF"
| "encode w (Array es) = ''*'' @ itoa (int (length es)) @ CRLF @ concat (map (encode w) es)"
| "encode w (Set es) = ''~'' @ itoa (int (length es)) @ CRLF @ concat (map (encode w) es)"
| "encode w (Push es) = ''>'' @ itoa (int (length es)) @ CRLF @ concat (map (encode w) es)"
| "encode w (Map m) = ''%'' @ itoa (int (length m)) @ CRLF @ concat (map (\<lambda>(k, v). encode w k @ encode w v) m)"
| "encode w _ = []"

abbreviation one_line :: "string \<Rightarrow> bool" where
  "one_line s \<equiv> CHR 0x0D \<notin> set s"

fun encodable :: "'f floats \<Rightarrow> ('f \<Rightarrow> string) \<Rightarrow> 'f node \<Rightarrow> bool" where
  "encodable fs w (BlobString v) \<longleftrightarrow> int (length v) \<le> MaxInt64"
| "encodable fs w (SimpleString v) \<longleftrightarrow> one_line v"
| "encodable fs w (Error m) \<longleftrightarrow> one_line m"
| "encodable fs w (Integer i) \<longleftrightarrow> MinInt64 \<le> i \<and> i \<le> MaxInt64"
| "encodable fs w (Double x) \<longleftrightarrow> one_line (w x) \<and> ParseFloat fs (w x) = x"
| "encodable fs w (BigNum v) \<longleftrightarrow> one_line v"
| "encodable fs w (Array es) \<longleftrightarrow> int (length es) \<le> maxElems \<and> (\<forall>e \<in> set es. encodable fs w e)"
| "encodable fs w (Set es) \<longleftrightarrow> int (length es) \<le> maxElems \<and> (\<forall>e \<in> set es. encodable fs w e)"
| "encodable fs w (Push es) \<longleftrightarrow> int (length es) \<le> maxElems \<and> (\<forall>e \<in> set es. encodable fs w e)"
| "encodable fs w (Map m) \<longleftrightarrow> int (length m) \<le> maxElems \<and>
     sorted_wrt (\<lambda>e e'. \<not> key_eq fs (fst e) (fst e')) m \<and>
     (\<forall>e \<in> set m. hashable (fst e) \<and> encodable fs w (fst e) \<and> encodable fs w (snd e))"
| "encodable fs w _ \<longleftrightarrow> False"

lemma header_line: "one_line s \<Longrightarrow> header (c # s @ CRLF @ rest) = (if c = CHR 0x0D then header (c # s @ CRLF @ rest) else Ret (s, rest))"
proof (cases "c = CHR 0x0D")
  case False
  assume "one_line s"
  with False have "split_crlf ((c # s) @ CRLF @ rest) = (c # s, Some rest)" by (intro split_crlf_line) auto
  then show ?thesis using False slice_from_nat [of 1 "c # s"] by (simp add: header_def)
qed simp

lemma header_number:
  assumes "c \<noteq> CHR 0x0D" and "MinInt64 \<le> i" and "i \<le> MaxInt64"
  shows "header (c # itoa i @ CRLF @ rest) = Ret (itoa i, rest)" and "fst (Atoi (itoa i)) = i"
  using header_line [OF itoa_no_cr, of c i rest] ParseInt_itoa [OF assms(2,3)] assms(1) by simp_all

lemma parse_elems_append:
  assumes "\<And>e s. e \<in> set es \<Longrightarrow> length (enc e @ s) \<le> L \<Longrightarrow> p (enc e @ s) = Ret (e, s)"
    and "length (concat (map enc es) @ rest) \<le> L"
  shows "parse_elems p (length es) (concat (map enc es) @ rest) = Ret (es, rest)"
  using assms
proof (induction es)
  case (Cons e es)
  have "p (enc e @ concat (map enc es) @ rest) = Ret (e, concat (map enc es) @ rest)"
    using Cons.prems by (intro Cons.prems(1)) auto
  moreover have "parse_elems p (length es) (concat (map enc es) @ rest) = Ret (es, rest)"
    by (rule Cons.IH) (use Cons.prems in auto)
  ultimately show ?case by simp
qed simp

lemma map_assign_new: "\<forall>e \<in> set m. \<not> key_eq fs (fst e) k \<Longrightarrow> map_assign fs k v m = m @ [(k, v)]"
  by (induction m) auto

lemma parse_pairs_append:
  assumes "\<And>e s. e \<in> set m \<Longrightarrow> length (enc (fst e) @ s) \<le> L \<Longrightarrow> p (enc (fst e) @ s) = Ret (fst e, s)"
    and "\<And>e s. e \<in> set m \<Longrightarrow> length (enc (snd e) @ s) \<le> L \<Longrightarrow> p (enc (snd e) @ s) = Ret (snd e, s)"
    and "length (concat (map (\<lambda>(k, v). enc k @ enc v) m) @ rest) \<le> L"
    and "sorted_wrt (\<lambda>e e'. \<not> key_eq fs (fst e) (fst e')) (acc @ m)" and "\<forall>e \<in> set m. hashable (fst e)"
  shows "parse_pairs fs p (length m) acc (concat (map (\<lambda>(k, v). enc k @ enc v) m) @ rest) = Ret (acc @ m, rest)"
  using assms
proof (induction m arbitrary: acc)
  case (Cons e m)
  obtain k v where e: "e = (k, v)" by (cases e)
  let ?rest = "concat (map (\<lambda>(k, v). enc k @ enc v) m) @ rest"
  have "p (enc (fst e) @ enc (snd e) @ ?rest) = Ret (fst e, enc (snd e) @ ?rest)"
    "p (enc (snd e) @ ?rest) = Ret (snd e, ?rest)"
    using Cons.prems(3) by (intro Cons.prems(1) Cons.prems(2); auto split: prod.splits)+
  moreover have "map_assign fs (fst e) (snd e) acc = acc @ [e]"
    using Cons.prems(4) by (simp add: map_assign_new sorted_wrt_append)
  moreover have "parse_pairs fs p (length m) (acc @ [e]) ?rest = Ret ((acc @ [e]) @ m, rest)"
    by (rule Cons.IH) (use Cons.prems in \<open>auto split: prod.splits\<close>)
  ultimately show ?case using Cons.prems(5) by (simp add: e)
qed simp

lemma parse_slice_encode:
  assumes "\<And>e s. e \<in> set es \<Longrightarrow> length (enc e @ s) < length data \<Longrightarrow> p (enc e @ s) = Ret (e, s)"
    and data: "data = c # itoa (int (length es)) @ CRLF @ concat (map enc es) @ rest"
    and "c \<noteq> CHR 0x0D" and "int (length es) \<le> maxElems"
  shows "parse_slice p con data = Ret (con es, rest)"
proof -
  have "parse_elems p (length es) (concat (map enc es) @ rest) = Ret (es, rest)"
    by (rule parse_elems_append [of _ _ "length (concat (map enc es) @ rest)"])
      (use assms(1) data in \<open>auto simp: CRLF_def\<close>)
  moreover have "header data = Ret (itoa (int (length es)), concat (map enc es) @ rest)"
    "fst (Atoi (itoa (int (length es)))) = int (length es)"
    unfolding data using assms(3,4) by (intro header_number; simp add: maxElems_def MinInt64_def MaxInt64_def)+
  ultimately show ?thesis
    using assms(4) by (simp add: parse_slice_def Let_def make_nodes_def)
qed

lemma parse_map_encode:
  assumes "\<And>e s. e \<in> set m \<Longrightarrow> length (enc (fst e) @ s) < length data \<Longrightarrow> p (enc (fst e) @ s) = Ret (fst e, s)"
    and "\<And>e s. e \<in> set m \<Longrightarrow> length (enc (snd e) @ s) < length data \<Longrightarrow> p (enc (snd e) @ s) = Ret (snd e, s)"
    and data: "data = c # itoa (int (length m)) @ CRLF @ concat (map (\<lambda>(k, v). enc k @ enc v) m) @ rest"
    and "c \<noteq> CHR 0x0D" and "int (length m) \<le> maxElems"
    and "sorted_wrt (\<lambda>e e'. \<not> key_eq fs (fst e) (fst e')) m" and "\<forall>e \<in> set m. hashable (fst e)"
  shows "parse_map fs p data = Ret (m, rest)"
proof -
  let ?body = "concat (map (\<lambda>(k, v). enc k @ enc v) m) @ rest"
  have "length ?body < length data" by (simp add: data CRLF_def)
  then have "parse_pairs fs p (length m) [] ?body = Ret ([] @ m, rest)"
    by (intro parse_pairs_append [of _ _ "length ?body"]) (use assms(1,2,6,7) in auto)
  moreover have "header data = Ret (itoa (int (length m)), ?body)" "fst (Atoi (itoa (int (length m)))) = int (length m)"
    unfolding data using assms(4,5) by (intro header_number; simp add: maxElems_def MinInt64_def MaxInt64_def)+
  moreover have "pair_rounds (int (length m)) = length m"
  proof -
    have "sint (word_of_int (int (length m) * 2) :: int64) = int (length m) * 2"
      unfolding sint_sbintrunc' using assms(5)
      by (intro signed_take_bit_int_eq_self) (simp_all add: maxElems_def)
    then show ?thesis by (simp add: pair_rounds_def)
  qed
  ultimately show ?thesis by (simp add: parse_map_def)
qed

lemma parse_blob_frame:
  assumes "int (length v) \<le> MaxInt64"
  shows "parse_blob (blob_frame v @ rest) = Ret (BlobString v, rest)"
proof -
  have "header (blob_frame v @ rest) = Ret (itoa (int (length v)), v @ CRLF @ rest)"
    "fst (Atoi (itoa (int (length v)))) = int (length v)"
    using header_number(1) [of "CHR ''$''" "int (length v)" "v @ CRLF @ rest"]
      header_number(2) [of "CHR ''$''" "int (length v)"] assms
    by (simp_all add: blob_frame_def MinInt64_def)
  moreover have "slice_from (v @ CRLF @ rest) (int (length v) + 2) = Ret rest"
    by (simp add: slice_from_def CRLF_def nat_add_distrib)
  ultimately show ?thesis by (simp add: parse_blob_def Let_def)
qed

lemma parse_line_frame:
  assumes "one_line s" and "c \<noteq> CHR 0x0D"
  shows "parse_line con (c # s @ CRLF @ rest) = Ret (con s, rest)"
  using header_line [OF assms(1), of c rest] assms(2) by (simp add: parse_line_def)

lemma parse_depth_encode:
  assumes "encodable fs w n" and "length (encode w n @ rest) < d"
  shows "parse_depth fs d (encode w n @ rest) = Ret (n, rest)"
  using assms
proof (induction w n arbitrary: d rest rule: encode.induct)
  case (1 w v)
  then show ?case using parse_blob_frame [of v rest] by (cases d) (auto simp: blob_frame_def)
next
  case (2 w v)
  then show ?case using parse_line_frame [of v "CHR ''+''" SimpleString rest] by (cases d) auto
next
  case (3 w v)
  then show ?case using parse_line_frame [of v "CHR ''-''" Error rest] by (cases d) auto
next
  case (4 w i)
  then show ?case
    using parse_line_frame [OF itoa_no_cr, of "CHR '':''" "\<lambda>s. Integer (fst (Atoi s))" i rest] ParseInt_itoa [of i]
    by (cases d) auto
next
  case (5 w x)
  then show ?case
    using parse_line_frame [of "w x" "CHR '',''" "\<lambda>s. Double (ParseFloat fs s)" rest] by (cases d) auto
next
  case (6 w v)
  then show ?case using parse_line_frame [of v "CHR ''(''" BigNum rest] by (cases d) auto
next
  case (7 w es)
  then obtain d' where d: "d = Suc d'" by (cases d) auto
  have "parse_slice (parse_depth fs d') Array (encode w (Array es) @ rest) = Ret (Array es, rest)"
    by (rule parse_slice_encode [where enc = "encode w" and c = "CHR ''*''"]) (use 7 d in auto)
  then show ?case by (simp add: d)
next
  case (8 w es)
  then obtain d' where d: "d = Suc d'" by (cases d) auto
  have "parse_slice (parse_depth fs d') Set (encode w (Set es) @ rest) = Ret (Set es, rest)"
    by (rule parse_slice_encode [where enc = "encode w" and c = "CHR ''~''"]) (use 8 d in auto)
  then show ?case by (simp add: d)
next
  case (9 w es)
  then obtain d' where d: "d = Suc d'" by (cases d) auto
  have "parse_slice (parse_depth fs d') Push (encode w (Push es) @ rest) = Ret (Push es, rest)"
    by (rule parse_slice_encode [where enc = "encode w" and c = "CHR ''>''"]) (use 9 d in auto)
  then show ?case by (simp add: d)
next
  case (10 w m)
  then obtain d' where d: "d = Suc d'" by (cases d) auto
  have IH: "parse_depth fs d' (encode w k @ s) = Ret (k, s)" "parse_depth fs d' (encode w v @ s') = Ret (v, s')"
    if "(k, v) \<in> set m" "length (encode w k @ s) < length (encode w (Map m) @ rest)"
      "length (encode w v @ s') < length (encode w (Map m) @ rest)" for k v s s'
    using 10 d that by (fastforce simp del: encode.simps)+
  have "parse_map fs (parse_depth fs d') (encode w (Map m) @ rest) = Ret (m, rest)"
    by (rule parse_map_encode [where enc = "encode w" and c = "CHR ''%''"]) (use 10 d IH in auto)
  then show ?case by (simp add: d)
qed simp_all

lemma parseRESP_frame: "encodable fs w n \<Longrightarrow> parseRESP fs (encode w n) = Ret (n, [])"
  unfolding parseRESP_def using parse_depth_encode [of fs w n "[]"] by (metis append_Nil2 lessI)

section \<open>Properties\<close>

text \<open>A \<open>float64\<close> for concrete runs: its text.\<close>

definition text_floats :: "string floats" where
  "text_floats = \<lparr>ParseFloat = (\<lambda>s. s), float_eq = (=)\<rparr>"

text \<open>
  C24: \<open>parseRESP\<close> ends on every input, whatever its nesting: it panics, or it returns a node and a rest
  that is a suffix of the input.
\<close>

theorem parseRESP_ends:
  "\<exists>r. parseRESP fs data = Some r \<and> (case r of Inl p \<Rightarrow> True | Inr (n, rest) \<Rightarrow> suffix rest data)"
  using parse_depth_parsed [of data "Suc (length data)" fs]
  by (auto simp: parseRESP_def parsed_def split: option.splits)

text \<open>
  C6: the parser reads back the frame of every node built from blob strings, simple strings, errors,
  integers, doubles, big numbers, arrays, sets, pushes and maps with distinct hashable keys, nested to any
  depth, and leaves exactly what follows it.
\<close>

theorem parseRESP_encode:
  assumes "encodable fs w n"
  shows "parseRESP fs (encode w n @ rest) = Ret (n, rest)"
  unfolding parseRESP_def by (rule parse_depth_encode [OF assms]) simp

theorem parseRESP_encode_witness:
  "parseRESP text_floats (encode (\<lambda>s. s) (Map [(SimpleString ''k'', Array [Integer (-7), Double ''1.5''])]) @ ''rest'') =
     Ret (Map [(SimpleString ''k'', Array [Integer (-7), Double ''1.5''])], ''rest'')"
  by (rule parseRESP_encode)
    (simp add: text_floats_def hashable_def maxElems_def MinInt64_def MaxInt64_def)

text \<open>
  C15: a command written by \<open>ConvertToRESP\<close> is parsed as the array of its words, with what follows it
  as the rest: the client's writer and the server's parser agree.
\<close>

theorem ConvertToRESP_parses:
  fixes fs :: "'f floats"
  assumes "int (length arguments) + 1 \<le> maxElems" and "\<forall>s \<in> set (command # arguments). int (length s) \<le> MaxInt64"
  shows "parseRESP fs (ConvertToRESP command arguments @ rest) = Ret (Array (map BlobString (command # arguments)), rest)"
proof -
  let ?n = "Array (map BlobString (command # arguments)) :: 'f node"
  have eq: "ConvertToRESP command arguments = encode (\<lambda>_. []) ?n"
    by (simp add: ConvertToRESP_def add.commute comp_def)
  have "encodable fs (\<lambda>_. []) ?n" using assms by simp
  from parse_depth_encode [OF this lessI] show ?thesis
    unfolding parseRESP_def eq .
qed

theorem ConvertToRESP_parses_witness:
  "parseRESP text_floats (ConvertToRESP ''SET'' [''key'', ''a b''] @ []) =
     Ret (Array [BlobString ''SET'', BlobString ''key'', BlobString ''a b''], [])"
  using ConvertToRESP_parses [of "[''key'', ''a b'']" "''SET''" text_floats "[]"]
  by (simp add: maxElems_def MaxInt64_def)

text \<open>
  nulls, booleans and verbatim strings are not consumed to the end of their line: the line feed, or the whole line
  end, stays in front of the rest, so that inside an array the next element is parsed from there.
\<close>

theorem parseRESP_leaves_line_end:
  "parseRESP fs (''_'' @ CRLF @ rest) = Ret (Null, tl CRLF @ rest) \<and>
   parseRESP fs (''#t'' @ CRLF @ rest) = Ret (Boolean True, tl CRLF @ rest) \<and>
   parseRESP fs (''=15'' @ CRLF @ ''txt:Some string'' @ CRLF @ rest) =
     Ret (VerbatimString ''txt'' ''Some string'', CRLF @ rest) \<and>
   parseRESP fs (''*2'' @ CRLF @ ''_'' @ CRLF @ ''_'' @ CRLF) = Ret (Array [Null, NilNode], tl CRLF @ ''_'' @ CRLF)"
  by (simp add: parseRESP_def CRLF_def slice_from_def slice_upto_def slice_get_def parse_boolean_def parse_verbatim_def
      header_def ParseInt_def ParseUint_def digit_value_def parse_slice_def make_nodes_def maxElems_def
      MaxInt64_def numeral_2_eq_2)

text \<open>
  a bulk string or aggregate of negative length (the nulls \<open>$-1\<close> and \<open>*-1\<close> of RESP2 among them) and
  a line that has not arrived completely stop the parser with a panic.
\<close>

theorem parseRESP_panics:
  assumes "MinInt64 \<le> n" and "n < 0" and "one_line line"
  shows "parseRESP fs (''$'' @ itoa n @ CRLF @ rest) = Panics SliceOutOfRange \<and>
    (\<forall>c \<in> set ''*~>''. parseRESP fs (c # itoa n @ CRLF @ rest) = Panics MakeSliceLen) \<and>
    (\<forall>c \<in> set ''*$:+-!=,(~%>|''. parseRESP fs (c # line) = Panics IndexOutOfRange) \<and>
    parseRESP fs [] = Panics IndexOutOfRange"
proof -
  have "fst (Atoi (itoa n)) = n" using ParseInt_itoa [of n] assms by (simp add: MaxInt64_def)
  moreover have "header (c # itoa n @ CRLF @ rest) = Ret (itoa n, rest)" if "c \<noteq> CHR 0x0D" for c
    using that assms by (intro header_number; simp add: MaxInt64_def)
  ultimately have head: "parse_depth fs (Suc d) (''$'' @ itoa n @ CRLF @ rest) = Panics SliceOutOfRange \<and>
    (\<forall>c \<in> set ''*~>''. parse_depth fs (Suc d) (c # itoa n @ CRLF @ rest) = Panics MakeSliceLen)" for d
    using assms(2) by (simp add: parse_blob_def parse_slice_def make_nodes_def slice_upto_def Let_def)
  have "split_crlf s = (s, None)" if "one_line s" for s
    using that by (induction s rule: split_crlf.induct) auto
  then have "header (c # line) = Panics IndexOutOfRange" if "c \<noteq> CHR 0x0D" for c
    using that assms(3) by (simp add: header_def)
  then have "\<forall>c \<in> set ''*$:+-!=,(~%>|''. parse_depth fs (Suc d) (c # line) = Panics IndexOutOfRange" for d
    by (simp add: parse_blob_def parse_slice_def parse_line_def parse_map_def parse_verbatim_def)
  with head show ?thesis unfolding parseRESP_def by simp
qed

theorem parseRESP_panics_witness: "parseRESP text_floats (''$-1'' @ CRLF) = Panics SliceOutOfRange"
proof -
  have "itoa (-1) = ''-1''" by code_simp
  then show ?thesis
    using parseRESP_panics [of "-1" "[]" text_floats "[]"] by (simp add: MinInt64_def)
qed

end
