(* ===== verification/Command.thy ===== *)
theory Command
  imports RedisDb_Refine Gostrings
begin

text \<open>
  \<open>src/node/object.go\<close>, \<open>src/node/utils.go\<close> and \<open>src/node/command.go\<close>: string objects, the replies that all
  commands share, and commands. A shared reply is a global object that is only read, so it is a value here.
\<close>

section \<open>String objects\<close>

definition createObject :: "ObjectType \<Rightarrow> goany \<Rightarrow> redisObj" where
  "createObject t ptr = NewRedisObj t EncodingRaw ptr 0"

definition createRawStringObject :: "string \<Rightarrow> redisObj" where
  "createRawStringObject ptr = createObject StringType (AString ptr)"

definition createEmbeddedStringObject :: "string \<Rightarrow> redisObj" where
  "createEmbeddedStringObject ptr = NewRedisObj StringType EncodingEmbStr (AString ptr) 0"

text \<open>The type assertion \<open>o.Value.(string)\<close>.\<close>

definition as_string :: "goany \<Rightarrow> string go" where
  "as_string v = (case v of AString s \<Rightarrow> Ret s | _ \<Rightarrow> Panics TypeAssertion)"

definition stringObjectLen :: "redisObj \<Rightarrow> int go" where
  "stringObjectLen ob = gobind (as_string (obj_Value ob)) (\<lambda>s. Ret (int (rune_count s)))"

definition getLongLongFromObject :: "redisObj option \<Rightarrow> uint64 go" where
  "getLongLongFromObject p =
     (case p of None \<Rightarrow> Ret 0
      | Some ob \<Rightarrow>
          if EncodingObject ob then (case obj_Value ob of AUint64 v \<Rightarrow> Ret v | _ \<Rightarrow> Ret 0)
          else if obj_Encoding ob = EncodingInt then
            (case obj_Value ob of AUint64 v \<Rightarrow> Ret v | _ \<Rightarrow> Panics TypeAssertion)
          else Panics (Explicit ''Unknown string encoding''))"

definition ll2String :: "char \<Rightarrow> int64 \<Rightarrow> string" where
  "ll2String pre ll = pre # itoa (sint ll) @ CRLF"

text \<open>\<open>from\<close> and \<open>to\<close> are ASCII.\<close>

fun mapChars :: "string \<Rightarrow> string \<Rightarrow> string \<Rightarrow> string go" where
  "mapChars s [] to = Ret s"
| "mapChars s (f # from) [] = Panics IndexOutOfRange"
| "mapChars s (f # from) (t # to) = mapChars (map (\<lambda>c. if c = f then t else c) s) from to"

section \<open>Flags and kinds\<close>

datatype CommandArgType =
  ArgTypeString | ArgTypeInteger | ArgTypeDouble | ArgTypeKey | ArgTypePattern | ArgTypeUnixTime |
  ArgTypePureToken | ArgTypeOnEOF | ArgTypeBlock

definition CmdWrite :: uint64 where "CmdWrite = push_bit 0 1"
definition CmdReadOnly :: uint64 where "CmdReadOnly = push_bit 1 1"
definition CmdDenyOOM :: uint64 where "CmdDenyOOM = push_bit 2 1"
definition CmdModule :: uint64 where "CmdModule = push_bit 3 1"
definition CmdAdmin :: uint64 where "CmdAdmin = push_bit 4 1"
definition CmdPubSub :: uint64 where "CmdPubSub = push_bit 5 1"
definition CmdNoScript :: uint64 where "CmdNoScript = push_bit 6 1"
definition CmdBlocking :: uint64 where "CmdBlocking = push_bit 8 1"
definition CmdLoading :: uint64 where "CmdLoading = push_bit 9 1"
definition CmdStale :: uint64 where "CmdStale = push_bit 10 1"
definition CmdSkipMonitor :: uint64 where "CmdSkipMonitor = push_bit 11 1"
definition CmdSkipSlowLog :: uint64 where "CmdSkipSlowLog = push_bit 12 1"
definition CmdAsking :: uint64 where "CmdAsking = push_bit 13 1"
definition CmdFast :: uint64 where "CmdFast = push_bit 14 1"
definition CmdNoAuth :: uint64 where "CmdNoAuth = push_bit 15 1"
definition CmdMayReplicate :: uint64 where "CmdMayReplicate = push_bit 16 1"
definition CmdSentinel :: uint64 where "CmdSentinel = push_bit 17 1"
definition CmdOnlySentinel :: uint64 where "CmdOnlySentinel = push_bit 18 1"
definition CmdNoMandatoryKeys :: uint64 where "CmdNoMandatoryKeys = push_bit 19 1"
definition CmdProtected :: uint64 where "CmdProtected = push_bit 20 1"
definition CmdModuleGetKeys :: uint64 where "CmdModuleGetKeys = push_bit 21 1"
definition CmdModuleNoCluster :: uint64 where "CmdModuleNoCluster = push_bit 22 1"
definition CmdNoAsyncLoading :: uint64 where "CmdNoAsyncLoading = push_bit 23 1"
definition CmdNoMulti :: uint64 where "CmdNoMulti = push_bit 24 1"
definition CmdMovableKeys :: uint64 where "CmdMovableKeys = push_bit 25 1"
definition CmdAllowBusy :: uint64 where "CmdAllowBusy = push_bit 27 1"
definition CmdModuleGetChannels :: uint64 where "CmdModuleGetChannels = push_bit 28 1"
definition CmdTouchesArbitraryKeys :: uint64 where "CmdTouchesArbitraryKeys = push_bit 29 1"

datatype RedisCommandGroup =
  RedisCommandGroupGeneric | RedisCommandGroupString | RedisCommandGroupList |
  RedisCommandGroupSet | RedisCommandGroupSortedSet | RedisCommandGroupHash |
  RedisCommandGroupPubSub | RedisCommandGroupTransaction | RedisCommandGroupConnection |
  RedisCommandGroupServer | RedisCommandGroupScripting | RedisCommandGroupHyperLogLog |
  RedisCommandGroupCluster | RedisCommandGroupSentinel | RedisCommandGroupGeo |
  RedisCommandGroupStream | RedisCommandGroupBitmap | RedisCommandGroupModule

section \<open>Shared replies\<close>

definition SharedOk :: redisObj where
  "SharedOk = createRawStringObject (''OK'' @ CRLF)"

definition SharedEmptyBulk :: redisObj where
  "SharedEmptyBulk = createRawStringObject (''$0'' @ CRLF @ CRLF)"

definition SharedZCone :: redisObj where
  "SharedZCone = createRawStringObject ('':0'' @ CRLF)"

definition SharedCone :: redisObj where
  "SharedCone = createRawStringObject ('':1'' @ CRLF)"

definition SharedEmptyArray :: redisObj where
  "SharedEmptyArray = createRawStringObject (''*0'' @ CRLF)"

definition SharedPong :: redisObj where
  "SharedPong = createRawStringObject (''+PONG'' @ CRLF)"

definition SharedQueued :: redisObj where
  "SharedQueued = createRawStringObject (''+QUEUED'' @ CRLF)"

definition SharedEmptyScan :: redisObj where
  "SharedEmptyScan = createRawStringObject (''*2'' @ CRLF @ ''$1'' @ CRLF @ ''0'' @ CRLF @ ''*0'' @ CRLF)"

definition SharedSpace :: redisObj where
  "SharedSpace = createRawStringObject ('' '')"

definition SharedPlus :: redisObj where
  "SharedPlus = createRawStringObject (''+'')"

definition SharedWrongTypeErr :: redisObj where
  "SharedWrongTypeErr = createRawStringObject (''-WRONGTYPE Operation against a key holding the wrong kind of value'' @ CRLF)"

definition SharedErr :: redisObj where
  "SharedErr = createRawStringObject (''-ERR'' @ CRLF)"

definition SharedNoKeyErr :: redisObj where
  "SharedNoKeyErr = createRawStringObject (''-ERR no such key'' @ CRLF)"

definition SharedSyntaxErr :: redisObj where
  "SharedSyntaxErr = createRawStringObject (''-ERR syntax error'' @ CRLF)"

definition SharedSomeObjErr :: redisObj where
  "SharedSomeObjErr = createRawStringObject (''-ERR source and destination objects are the same'' @ CRLF)"

definition SharedOutoffRangeErr :: redisObj where
  "SharedOutoffRangeErr = createRawStringObject (''-ERR index out of range'' @ CRLF)"

definition SharedNoScriptErr :: redisObj where
  "SharedNoScriptErr = createRawStringObject (''-NOSCRIPT No matching script. Please use EVAL.'' @ CRLF)"

definition SharedLoadingErr :: redisObj where
  "SharedLoadingErr = createRawStringObject (''-LOADING Redis is loading the dataset in memory'' @ CRLF)"

definition SharedSlowEvalErr :: redisObj where
  "SharedSlowEvalErr = createRawStringObject (''-BUSY Redis is busy running a script. You can only call SCRIPT KILL or SHUTDOWN NOSAVE.'' @ CRLF)"

definition SharedSlowScriptErr :: redisObj where
  "SharedSlowScriptErr = createRawStringObject (''-BUSY Redis is busy running a script. You can only call SCRIPT KILL or SHUTDOWN NOSAVE.'' @ CRLF)"

definition SharedNoAuthErr :: redisObj where
  "SharedNoAuthErr = createRawStringObject (''-NOAUTH Authentication required.'' @ CRLF)"

definition ShardOOMErr :: redisObj where
  "ShardOOMErr = createRawStringObject (''-OOM command not allowed when used memory > '' @ [CHR 0x27] @ ''maxmemory'' @ [CHR 0x27] @ ''.'' @ CRLF)"

definition SharedExecAbortErr :: redisObj where
  "SharedExecAbortErr = createRawStringObject (''-EXECABORT Transaction discarded because of previous errors.'' @ CRLF)"

definition SharedBusyKeyErr :: redisObj where
  "SharedBusyKeyErr = createRawStringObject (''-BUSYKEY Target key name already exists.'' @ CRLF)"

definition SharedNull3 :: redisObj where
  "SharedNull3 = createRawStringObject (''_'' @ CRLF)"

definition SharedNullArray3 :: redisObj where
  "SharedNullArray3 = createRawStringObject (''_'' @ CRLF)"

definition SharedEmptySet3 :: redisObj where
  "SharedEmptySet3 = createRawStringObject (''~0'' @ CRLF)"

definition SharedMessageBulk :: redisObj where
  "SharedMessageBulk = createRawStringObject (''$7'' @ CRLF @ ''message'' @ CRLF)"

definition SharedPmessageBulk :: redisObj where
  "SharedPmessageBulk = createRawStringObject (''$8'' @ CRLF @ ''pmessage'' @ CRLF)"

definition SharedSubscribeBulk :: redisObj where
  "SharedSubscribeBulk = createRawStringObject (''$9'' @ CRLF @ ''subscribe'' @ CRLF)"

definition SharedUnsubscribeBulk :: redisObj where
  "SharedUnsubscribeBulk = createRawStringObject (''$11'' @ CRLF @ ''unsubscribe'' @ CRLF)"

definition SharedSSubscribeBulk :: redisObj where
  "SharedSSubscribeBulk = createRawStringObject (''$10'' @ CRLF @ ''ssubscribe'' @ CRLF)"

definition SharedSUnsubscribeBulk :: redisObj where
  "SharedSUnsubscribeBulk = createRawStringObject (''$12'' @ CRLF @ ''sunsubscribe'' @ CRLF)"

definition SharedSMessageBulk :: redisObj where
  "SharedSMessageBulk = createRawStringObject (''$8'' @ CRLF @ ''smessage'' @ CRLF)"

definition SharedPSubscribeBulk :: redisObj where
  "SharedPSubscribeBulk = createRawStringObject (''$10'' @ CRLF @ ''psubscribe'' @ CRLF)"

definition SharedPUnsubscribeBulk :: redisObj where
  "SharedPUnsubscribeBulk = createRawStringObject (''$12'' @ CRLF @ ''punsubscribe'' @ CRLF)"

definition SharedDel :: redisObj where
  "SharedDel = createRawStringObject (''DEL'')"

definition SharedUnlink :: redisObj where
  "SharedUnlink = createRawStringObject (''UNLINK'')"

definition SharedRpop :: redisObj where
  "SharedRpop = createRawStringObject (''RPOP'')"

definition SharedLPop :: redisObj where
  "SharedLPop = createRawStringObject (''LPOP'')"

definition SharedLPush :: redisObj where
  "SharedLPush = createRawStringObject (''LPUSH'')"

definition SharedRPopLPush :: redisObj where
  "SharedRPopLPush = createRawStringObject (''RPOPLPUSH'')"

definition SharedLMove :: redisObj where
  "SharedLMove = createRawStringObject (''LMOVE'')"

definition SharedBLMove :: redisObj where
  "SharedBLMove = createRawStringObject (''BLMOVE'')"

definition SharedZPopMin :: redisObj where
  "SharedZPopMin = createRawStringObject (''ZPOPMIN'')"

definition SharedZPopMax :: redisObj where
  "SharedZPopMax = createRawStringObject (''ZPOPMAX'')"

definition SharedMulti :: redisObj where
  "SharedMulti = createRawStringObject (''MULTI'')"

definition SharedExec :: redisObj where
  "SharedExec = createRawStringObject (''EXEC'')"

definition SharedHSet :: redisObj where
  "SharedHSet = createRawStringObject (''HSET'')"

definition SharedSRem :: redisObj where
  "SharedSRem = createRawStringObject (''SREM'')"

definition SharedXGroup :: redisObj where
  "SharedXGroup = createRawStringObject (''XGROUP'')"

definition SharedXClaim :: redisObj where
  "SharedXClaim = createRawStringObject (''XCLAIM'')"

definition SharedScript :: redisObj where
  "SharedScript = createRawStringObject (''SCRIPT'')"

definition SharedReplConf :: redisObj where
  "SharedReplConf = createRawStringObject (''REPLCONF'')"

definition SharedPersist :: redisObj where
  "SharedPersist = createRawStringObject (''PERSIST'')"

definition SharedSet :: redisObj where
  "SharedSet = createRawStringObject (''SET'')"

definition SharedEval :: redisObj where
  "SharedEval = createRawStringObject (''EVAL'')"

definition SharedLeft :: redisObj where
  "SharedLeft = createRawStringObject (''left'')"

definition SharedRight :: redisObj where
  "SharedRight = createRawStringObject (''right'')"

definition SharedPXAT :: redisObj where
  "SharedPXAT = createRawStringObject (''PXAT'')"

definition SharedTime :: redisObj where
  "SharedTime = createRawStringObject (''TIME'')"

definition SharedRetryCount :: redisObj where
  "SharedRetryCount = createRawStringObject (''RETRYCOUNT'')"

definition SharedForce :: redisObj where
  "SharedForce = createRawStringObject (''FORCE'')"

definition SharedJustID :: redisObj where
  "SharedJustID = createRawStringObject (''JUSTID'')"

definition SharedEntriesRead :: redisObj where
  "SharedEntriesRead = createRawStringObject (''ENTRIESREAD'')"

definition SharedLastID :: redisObj where
  "SharedLastID = createRawStringObject (''LASTID'')"

definition SharedDefaultUsername :: redisObj where
  "SharedDefaultUsername = createRawStringObject (''username'')"

definition SharedPing :: redisObj where
  "SharedPing = createRawStringObject (''ping'')"

definition SharedSetId :: redisObj where
  "SharedSetId = createRawStringObject (''setid'')"

definition SharedKeepTTL :: redisObj where
  "SharedKeepTTL = createRawStringObject (''KEEPTTL'')"

definition SharedABSTTL :: redisObj where
  "SharedABSTTL = createRawStringObject (''ABSTTL'')"

definition SharedLoad :: redisObj where
  "SharedLoad = createRawStringObject (''LOAD'')"

definition SharedCreateConsumer :: redisObj where
  "SharedCreateConsumer = createRawStringObject (''CREATECONSUMER'')"

definition SharedGetACK :: redisObj where
  "SharedGetACK = createRawStringObject (''GETACK'')"

definition SharedSpecialAsterick :: redisObj where
  "SharedSpecialAsterick = createRawStringObject (''*'')"

definition SharedSpecialEqual :: redisObj where
  "SharedSpecialEqual = createRawStringObject (''='')"

definition SharedRedacted :: redisObj where
  "SharedRedacted = createRawStringObject (''(redacted)'')"

section \<open>Commands\<close>

text \<open>
  A command is known by its interface \<open>RedisCommand\<close> only; a value of it is a pointer into a store of
  commands, with \<open>None\<close> for nil. What \<open>Proc()\<close> returns is never called, so it is left out.
\<close>

record commandHistory =
  ch_since :: string
  ch_changes :: string

record redisCommandArgs =
  ca_name :: string
  ca_numArgs :: int

type_synonym cmdptr = "nat option"

record baseCommand =
  cmd_declaredName :: string
  cmd_fullname :: string
  cmd_group :: RedisCommandGroup
  cmd_history :: "commandHistory list"
  cmd_subCommands :: "cmdptr list option"
  cmd_args :: "redisCommandArgs list"
  cmd_arity :: int
  cmd_aclCategories :: uint64
  cmd_flags :: uint64
  cmd_id :: uint64
  cmd_microSeconds :: int64
  cmd_calls :: int64
  cmd_rejectedCalls :: int64
  cmd_failedCalls :: int64
  cmd_parent :: cmdptr

record multiCmd =
  mc_argv :: "objptr list"
  mc_argc :: int
  mc_cmd :: cmdptr

record multiState =
  ms_commands :: "multiCmd list"
  ms_cmdFlags :: uint64

definition cmd_of :: "baseCommand list \<Rightarrow> cmdptr \<Rightarrow> baseCommand go" where
  "cmd_of cmds p =
     (case p of None \<Rightarrow> Panics NilDeref
      | Some a \<Rightarrow> if a < length cmds then Ret (cmds ! a) else Panics NilDeref)"

end
