(* ===== verification/Client.thy ===== *)
theory Client
  imports Command DList
begin

text \<open>
  \<open>src/node/client.go\<close> and \<open>src/node/multi.go\<close>: the client, its replies, and the processing of its query
  buffer. The client, the database with the store of objects and the store of commands form the session that
  is passed along. The connection is the bytes that were written to it (\<open>None\<close> is nil); the code ignores the result of
  a write. The package's global variables are read only: \<open>globals\<close>, with the tables and the user as options, since
  nothing in the repository assigns them. What \<open>fmt\<close> prints for a pointer to an object, cut to a number of
  characters, is a parameter (\<open>g_fmtObj\<close>).
\<close>

section \<open>Constants\<close>

definition ConfigRunIdSize :: nat where "ConfigRunIdSize = 40"

datatype BlockType =
  BlockNone | BlockList | BlockWait | BlockModule | BlockStream | BlockZSet | BlockPostPone | BlockShutdown |
  BlockNum | BlockEnd

datatype ClientProtoType = ClientProtoTypeUnknown | ClientProtoTypeInline | ClientProtoTypeMultiBulk

datatype ClientType = ClientTypeNormal | ClientTypeSlave | ClientTypePubSub | ClientTypeMaster | ClientTypeCount

definition ClientSlave :: uint64 where "ClientSlave = push_bit 0 1"
definition ClientMaster :: uint64 where "ClientMaster = push_bit 1 1"
definition ClientMonitor :: uint64 where "ClientMonitor = push_bit 2 1"
definition ClientMulti :: uint64 where "ClientMulti = push_bit 3 1"
definition ClientBlocked :: uint64 where "ClientBlocked = push_bit 4 1"
definition ClientDirtyCas :: uint64 where "ClientDirtyCas = push_bit 5 1"
definition ClientCloseAfterReply :: uint64 where "ClientCloseAfterReply = push_bit 6 1"
definition ClientUnblocked :: uint64 where "ClientUnblocked = push_bit 7 1"
definition ClientScript :: uint64 where "ClientScript = push_bit 8 1"
definition ClientAsking :: uint64 where "ClientAsking = push_bit 9 1"
definition ClientCloseASAP :: uint64 where "ClientCloseASAP = push_bit 10 1"
definition ClientUnixSocket :: uint64 where "ClientUnixSocket = push_bit 11 1"
definition ClientDirtyExec :: uint64 where "ClientDirtyExec = push_bit 12 1"
definition ClientMasterForceReply :: uint64 where "ClientMasterForceReply = push_bit 13 1"
definition ClientForceAOF :: uint64 where "ClientForceAOF = push_bit 14 1"
definition ClientForceReplica :: uint64 where "ClientForceReplica = push_bit 15 1"
definition ClientPrePSYNC :: uint64 where "ClientPrePSYNC = push_bit 16 1"
definition ClientReadOnly :: uint64 where "ClientReadOnly = push_bit 17 1"
definition ClientPubSub :: uint64 where "ClientPubSub = push_bit 18 1"
definition ClientPreventAOFProp :: uint64 where "ClientPreventAOFProp = push_bit 19 1"
definition ClientPreventREPLProp :: uint64 where "ClientPreventREPLProp = push_bit 20 1"
definition ClientPendingWrite :: uint64 where "ClientPendingWrite = push_bit 21 1"
definition ClientReplyOff :: uint64 where "ClientReplyOff = push_bit 22 1"
definition ClientReplySkipNext :: uint64 where "ClientReplySkipNext = push_bit 23 1"
definition ClientReplySkip :: uint64 where "ClientReplySkip = push_bit 24 1"
definition ClientLuaDebug :: uint64 where "ClientLuaDebug = push_bit 25 1"
definition ClientLuaDebugSync :: uint64 where "ClientLuaDebugSync = push_bit 26 1"
definition ClientModule :: uint64 where "ClientModule = push_bit 27 1"
definition ClientProtected :: uint64 where "ClientProtected = push_bit 28 1"
definition ClientExecutingCommand :: uint64 where "ClientExecutingCommand = push_bit 29 1"
definition ClientPendingCommand :: uint64 where "ClientPendingCommand = push_bit 30 1"
definition ClientTracking :: uint64 where "ClientTracking = push_bit 31 1"
definition ClientTrackingBcast :: uint64 where "ClientTrackingBcast = push_bit 32 1"
definition ClientTrackingOptIn :: uint64 where "ClientTrackingOptIn = push_bit 33 1"
definition ClientTrackingOptOut :: uint64 where "ClientTrackingOptOut = push_bit 34 1"
definition ClientTrackingCaching :: uint64 where "ClientTrackingCaching = push_bit 35 1"
definition ClientTrackingNoLoop :: uint64 where "ClientTrackingNoLoop = push_bit 36 1"
definition ClientInToTable :: uint64 where "ClientInToTable = push_bit 37 1"
definition ClientProtocolError :: uint64 where "ClientProtocolError = push_bit 38 1"
definition ClientCloseAfterCommand :: uint64 where "ClientCloseAfterCommand = push_bit 39 1"
definition ClientDenyBlocking :: uint64 where "ClientDenyBlocking = push_bit 40 1"
definition ClientREPLRDBOnly :: uint64 where "ClientREPLRDBOnly = push_bit 41 1"
definition ClientNoEvict :: uint64 where "ClientNoEvict = push_bit 42 1"
definition ClientAllowOOM :: uint64 where "ClientAllowOOM = push_bit 43 1"
definition ClientNoTouch :: uint64 where "ClientNoTouch = push_bit 44 1"
definition ClientPushing :: uint64 where "ClientPushing = push_bit 45 1"
definition ClientModuleAuthHasResult :: uint64 where "ClientModuleAuthHasResult = push_bit 46 1"
definition ClientModulePreventAOFProp :: uint64 where "ClientModulePreventAOFProp = push_bit 47 1"
definition ClientModulePreventREPLProp :: uint64 where "ClientModulePreventREPLProp = push_bit 48 1"
definition ClientPreventProp :: uint64 where "ClientPreventProp = ClientPreventAOFProp OR ClientPreventREPLProp"

definition ProtoInlineMaxSize :: int where "ProtoInlineMaxSize = 1024 * 64"

text \<open>\<open>c.flags&f != 0\<close> and \<open>c.flags &= ^f\<close>.\<close>

abbreviation has :: "uint64 \<Rightarrow> uint64 \<Rightarrow> bool" where
  "has fl f \<equiv> fl AND f \<noteq> 0"

abbreviation clear :: "uint64 \<Rightarrow> uint64 \<Rightarrow> uint64" where
  "clear f fl \<equiv> fl AND NOT f"

section \<open>State\<close>

record client =
  cl_id :: uint64
  cl_flags :: uint64
  cl_connection :: "string option"
  cl_resp :: int
  cl_queryBuf :: string
  cl_queryPos :: int
  cl_argc :: int
  cl_argv :: "objptr list"
  cl_argvLen :: int
  cl_argvLenSum :: int
  cl_replies :: "objptr dlist"
  cl_cmd :: cmdptr
  cl_lastCmd :: cmdptr
  cl_realCmd :: cmdptr
  cl_reqType :: ClientProtoType
  cl_multiBulkLen :: int
  cl_bulkLen :: int
  cl_slot :: int
  cl_duration :: int64
  cl_readReplOff :: int64
  cl_replOff :: int64
  cl_replApplied :: int64
  cl_replAckOff :: int64
  cl_replAOFOff :: int64
  cl_replAckTime :: int64
  cl_replId :: "string list"
  cl_mState :: "multiState option"
  cl_authenticated :: bool

definition NewClient :: "uint64 \<Rightarrow> uint64 \<Rightarrow> string option \<Rightarrow> int \<Rightarrow> client" where
  "NewClient ident fl conn resp =
     \<lparr>cl_id = ident, cl_flags = fl, cl_connection = conn, cl_resp = resp, cl_queryBuf = [], cl_queryPos = 0,
      cl_argc = 0, cl_argv = [], cl_argvLen = 0, cl_argvLenSum = 0, cl_replies = NewList, cl_cmd = None,
      cl_lastCmd = None, cl_realCmd = None, cl_reqType = ClientProtoTypeUnknown, cl_multiBulkLen = 0,
      cl_bulkLen = 0, cl_slot = 0, cl_duration = 0, cl_readReplOff = 0, cl_replOff = 0, cl_replApplied = 0,
      cl_replAckOff = 0, cl_replAOFOff = 0, cl_replAckTime = 0, cl_replId = replicate (ConfigRunIdSize + 1) [],
      cl_mState = None, cl_authenticated = False\<rparr>"

record session =
  ss_client :: client
  ss_store :: store
  ss_cmds :: "baseCommand list"

definition UserFlagEnabled :: "8 word" where "UserFlagEnabled = 1"
definition UserFlagDisabled :: "8 word" where "UserFlagDisabled = 2"
definition UserFlagNoPass :: "8 word" where "UserFlagNoPass = 4"
definition UserFlagSkipSanitizePayload :: "8 word" where "UserFlagSkipSanitizePayload = 8"
definition UserFlagSanitizePayload :: "8 word" where "UserFlagSanitizePayload = 16"

record user =
  us_name :: string
  us_flags :: "8 word"
  us_passwords :: "string dlist"
  us_selectors :: "string dlist"
  us_aclString :: objptr

record globals =
  g_commands :: "cmdptr hashtable option"
  g_defaultUser :: "user option"
  g_fmtObj :: "int \<Rightarrow> redisObj option \<Rightarrow> string"

definition on_client :: "(client \<Rightarrow> client go) \<Rightarrow> session \<Rightarrow> session go" where
  "on_client f s = gobind (f (ss_client s)) (\<lambda>c. Ret (s\<lparr>ss_client := c\<rparr>))"

definition the_cmd :: "session \<Rightarrow> baseCommand go" where
  "the_cmd s = cmd_of (ss_cmds s) (cl_cmd (ss_client s))"

text \<open>\<open>c.argv[i]\<close> dereferenced, and its value asserted to be a string.\<close>

definition arg_obj :: "session \<Rightarrow> int \<Rightarrow> redisObj go" where
  "arg_obj s i = gobind (slice_get (cl_argv (ss_client s)) i) (deref (st_objs (ss_store s)))"

definition arg_string :: "session \<Rightarrow> int \<Rightarrow> string go" where
  "arg_string s i = gobind (arg_obj s i) (\<lambda>ob. as_string (obj_Value ob))"

section \<open>Output\<close>

definition prepareClientToWrite :: "client \<Rightarrow> bool" where
  "prepareClientToWrite c =
     (if has (cl_flags c) ClientScript then True
      else if has (cl_flags c) ClientCloseASAP then False
      else if has (cl_flags c) (ClientReplyOff OR ClientReplySkip) \<and> \<not> has (cl_flags c) ClientPushing then False
      else if has (cl_flags c) ClientMaster \<and> \<not> has (cl_flags c) ClientMasterForceReply then False
      else cl_connection c \<noteq> None)"

definition conn_write :: "string \<Rightarrow> client \<Rightarrow> client go" where
  "conn_write data c =
     (case cl_connection c of None \<Rightarrow> Panics NilDeref
      | Some out \<Rightarrow> Ret (c\<lparr>cl_connection := Some (out @ data)\<rparr>))"

definition addReplyProto :: "string \<Rightarrow> client \<Rightarrow> client go" where
  "addReplyProto proto c = (if \<not> prepareClientToWrite c then Ret c else conn_write proto c)"

definition AddReply :: "redisObj \<Rightarrow> client \<Rightarrow> client go" where
  "AddReply reply c =
     (if \<not> prepareClientToWrite c then Ret c
      else if EncodingObject reply then gobind (as_string (obj_Value reply)) (\<lambda>s. conn_write s c)
      else if obj_Encoding reply = EncodingInt then
        (case obj_Value reply of AInt64 i \<Rightarrow> conn_write (itoa (sint i)) c | _ \<Rightarrow> Panics TypeAssertion)
      else Panics (Explicit ''Wrong reply encoding in AddReply() ''))"

definition addReplyLongLongWithPrefix :: "char \<Rightarrow> int64 \<Rightarrow> client \<Rightarrow> client go" where
  "addReplyLongLongWithPrefix pre ll c = addReplyProto (ll2String pre ll) c"

definition addReplyBulkLen :: "redisObj \<Rightarrow> client \<Rightarrow> client go" where
  "addReplyBulkLen ob c =
     gobind (stringObjectLen ob) (\<lambda>l. addReplyLongLongWithPrefix (CHR ''$'') (word_of_int l) c)"

definition AddReplyBulk :: "redisObj \<Rightarrow> client \<Rightarrow> client go" where
  "AddReplyBulk ob c =
     gobind (addReplyBulkLen ob c) (\<lambda>c1. gobind (AddReply ob c1) (addReplyProto CRLF))"

definition afterErrorReply :: "string \<Rightarrow> client \<Rightarrow> client go" where
  "afterErrorReply err c = Ret c"

definition addReplyErrorLength :: "string \<Rightarrow> client \<Rightarrow> client go" where
  "addReplyErrorLength err c =
     gobind (if err \<noteq> [] \<and> hd err = CHR ''-'' then addReplyProto ''-ERR'' c else Ret c) (\<lambda>c1.
     gobind (addReplyProto err c1) (addReplyProto CRLF))"

definition AddReplyError :: "string \<Rightarrow> client \<Rightarrow> client go" where
  "AddReplyError err c = gobind (addReplyErrorLength err c) (afterErrorReply err)"

definition addReplyErrorFormat :: "string \<Rightarrow> client \<Rightarrow> client go" where
  "addReplyErrorFormat err c = gobind (addReplyErrorLength err c) (afterErrorReply err)"

definition addReplyErrorStr :: "string \<Rightarrow> client \<Rightarrow> client go" where
  "addReplyErrorStr err c = gobind (addReplyErrorLength err c) (afterErrorReply err)"

definition addReplyErrorObject :: "redisObj \<Rightarrow> client \<Rightarrow> client go" where
  "addReplyErrorObject err c =
     gobind (AddReply err c) (\<lambda>c1. gobind (as_string (obj_Value err)) (\<lambda>s. afterErrorReply s c1))"

definition AddReplyErrorExpireTime :: "session \<Rightarrow> session go" where
  "AddReplyErrorExpireTime s =
     gobind (the_cmd s) (\<lambda>cmd.
       on_client (addReplyErrorFormat (''invalid expire time in '' @ [CHR 0x27] @ cmd_fullname cmd @ [CHR 0x27] @ '' command'')) s)"

definition execCommandAbort :: "string \<Rightarrow> client \<Rightarrow> client go" where
  "execCommandAbort str c = addReplyErrorFormat (''-EXECABORT Transaction discarded because of: '' @ str) c"

section \<open>Rejecting a command\<close>

text \<open>The common part: nothing happens without a command, else its counter of rejected calls goes up.\<close>

definition rejected :: "(baseCommand \<Rightarrow> client \<Rightarrow> client go) \<Rightarrow> session \<Rightarrow> session go" where
  "rejected reply s =
     (let s1 = s\<lparr>ss_client := (ss_client s)\<lparr>cl_duration := 0\<rparr>\<rparr> in
      case cl_cmd (ss_client s) of
        None \<Rightarrow> Ret s1
      | Some a \<Rightarrow>
          gobind (the_cmd s) (\<lambda>cmd.
            on_client (reply cmd)
              (s1\<lparr>ss_cmds := (ss_cmds s)[a := cmd\<lparr>cmd_rejectedCalls := cmd_rejectedCalls cmd + 1\<rparr>]\<rparr>)))"

definition rejectCommand :: "redisObj \<Rightarrow> session \<Rightarrow> session go" where
  "rejectCommand reply s =
     rejected (\<lambda>cmd c.
       if cmd_fullname cmd = ''ExecCommand'' then gobind (as_string (obj_Value reply)) (\<lambda>str. execCommandAbort str c)
       else addReplyErrorObject reply c) s"

definition rejectCommandStr :: "string \<Rightarrow> session \<Rightarrow> session go" where
  "rejectCommandStr reply s =
     rejected (\<lambda>cmd c. if cmd_fullname cmd = ''ExecCommand'' then execCommandAbort reply c else addReplyErrorStr reply c) s"

text \<open>
  \<open>fmt.Sprintf(fmtstr, a)\<close> with the slice \<open>a\<close> as the one operand of a format with only \<open>%s\<close> verbs: the first verb prints the
  slice, the others report a missing operand, and without a verb the operand is reported as extra.
\<close>

fun missing_verbs :: "string \<Rightarrow> string" where
  "missing_verbs (a # b # s) =
     (if a = CHR ''%'' \<and> b = CHR ''s'' then ''%!s(MISSING)'' @ missing_verbs s else a # missing_verbs (b # s))"
| "missing_verbs s = s"

fun first_verb :: "string \<Rightarrow> string \<Rightarrow> string option" where
  "first_verb operand (a # b # s) =
     (if a = CHR ''%'' \<and> b = CHR ''s'' then Some (operand @ missing_verbs s)
      else map_option ((#) a) (first_verb operand (b # s)))"
| "first_verb operand s = None"

fun words :: "string list \<Rightarrow> string" where
  "words [] = []"
| "words [w] = w"
| "words (w # ws) = w @ '' '' @ words ws"

definition Sprintf_slice :: "string \<Rightarrow> string list \<Rightarrow> string" where
  "Sprintf_slice fmtstr a =
     (let operand = ''['' @ words a @ '']'' in
      case first_verb operand fmtstr of
        Some s \<Rightarrow> s
      | None \<Rightarrow> fmtstr @ ''%!(EXTRA []string='' @ operand @ '')'')"

definition rejectCommandFormat :: "string \<Rightarrow> string list \<Rightarrow> session \<Rightarrow> session go" where
  "rejectCommandFormat fmtstr a s =
     gobind (mapChars (Sprintf_slice fmtstr a) CRLF ''  '') (\<lambda>str. rejectCommandStr str s)"

section \<open>Looking up a command\<close>

definition lookupSubCommand :: "cmdptr \<Rightarrow> string \<Rightarrow> cmdptr" where
  "lookupSubCommand baseCmd sub = None"

text \<open>\<open>commands.Get(name)\<close> on a table that may be nil, and \<open>exist && baseCmd.SubCommands() != nil\<close>.\<close>

definition commands_Get :: "string \<Rightarrow> cmdptr hashtable option \<Rightarrow> cmdptr option go" where
  "commands_Get name commands = (case commands of None \<Rightarrow> Panics NilDeref | Some h \<Rightarrow> Get name h)"

definition has_subcommands :: "baseCommand list \<Rightarrow> cmdptr option \<Rightarrow> bool go" where
  "has_subcommands cmds r =
     (case r of None \<Rightarrow> Ret False
      | Some baseCmd \<Rightarrow> gobind (cmd_of cmds baseCmd) (\<lambda>cmd. Ret (cmd_subCommands cmd \<noteq> None)))"

definition lookupCommandLogic :: "cmdptr hashtable option \<Rightarrow> int \<Rightarrow> bool \<Rightarrow> session \<Rightarrow> cmdptr go" where
  "lookupCommandLogic commands argc strict s =
     gobind (arg_string s 0) (\<lambda>name.
     gobind (commands_Get name commands) (\<lambda>r.
     gobind (has_subcommands (ss_cmds s) r) (\<lambda>hasSubCommands.
       let baseCmd = (case r of None \<Rightarrow> None | Some p \<Rightarrow> p) in
       if argc = 1 \<or> \<not> hasSubCommands then (if strict \<and> argc \<noteq> 1 then Ret None else Ret baseCmd)
       else if strict \<and> argc \<noteq> 2 then Ret None
       else gobind (arg_string s 1) (\<lambda>sub. Ret (lookupSubCommand baseCmd sub)))))"

definition lookupCommand :: "globals \<Rightarrow> session \<Rightarrow> cmdptr go" where
  "lookupCommand g s = lookupCommandLogic (g_commands g) (cl_argc (ss_client s)) False s"

definition isContainerCommandBySds :: "globals \<Rightarrow> string \<Rightarrow> session \<Rightarrow> bool go" where
  "isContainerCommandBySds g str s =
     gobind (commands_Get str (g_commands g)) (has_subcommands (ss_cmds s))"

text \<open>The loop over the arguments of an unknown command.\<close>

fun args_text :: "(int \<Rightarrow> redisObj option \<Rightarrow> string) \<Rightarrow> redisObj option list \<Rightarrow> string \<Rightarrow> string" where
  "args_text fmtObj [] args = args"
| "args_text fmtObj (arg # rest) args =
     (let remaining = 128 - int (length args) in
      if remaining \<le> 0 then args
      else args_text fmtObj rest (args @ [CHR 0x27] @ fmtObj remaining arg @ [CHR 0x27] @ '' ''))"

definition arg_view :: "session \<Rightarrow> objptr \<Rightarrow> redisObj option" where
  "arg_view s p = (case deref (st_objs (ss_store s)) p of Ret ob \<Rightarrow> Some ob | _ \<Rightarrow> None)"

definition commandCheckExistence :: "globals \<Rightarrow> session \<Rightarrow> (string \<times> bool) go" where
  "commandCheckExistence g s =
     (if cl_cmd (ss_client s) \<noteq> None then Ret ([], True)
      else
        gobind (arg_string s 0) (\<lambda>name.
        gobind (isContainerCommandBySds g name s) (\<lambda>container.
        gobind (if container then
                  Ret (''Unknown subcommand or wrong number of arguments for '' @ [CHR 0x27] @ ToUpper name @ [CHR 0x27] @
                       ''. Try CLIENT HELP.'')
                else
                  (let argv = map (arg_view s) (cl_argv (ss_client s)) in
                   Ret (''unknown command '' @ [CHR 0x27] @ g_fmtObj g 128 (hd argv) @ [CHR 0x27] @
                        '', with args beginning with: '' @ args_text (g_fmtObj g) (tl argv) []))) (\<lambda>err.
        gobind (mapChars err CRLF ''  '') (\<lambda>err'. Ret (err', False))))))"

definition commandCheckArity :: "session \<Rightarrow> (string \<times> bool) go" where
  "commandCheckArity s =
     gobind (the_cmd s) (\<lambda>cmd.
       if cl_argc (ss_client s) < - cmd_arity cmd then
         Ret (''wrong number of arguments for '' @ [CHR 0x27] @ cmd_fullname cmd @ [CHR 0x27] @ '' command'', False)
       else Ret ([], True))"

definition authRequired :: "globals \<Rightarrow> client \<Rightarrow> bool go" where
  "authRequired g c =
     (case g_defaultUser g of
        None \<Rightarrow> Panics NilDeref
      | Some u \<Rightarrow>
          Ret (\<not> (us_flags u AND UserFlagNoPass = 0 \<or> us_flags u AND UserFlagDisabled \<noteq> 0) \<and> \<not> cl_authenticated c))"

definition mustObeyClient :: "client \<Rightarrow> bool" where
  "mustObeyClient c \<longleftrightarrow> \<not> has (cl_flags c) ClientMaster"

section \<open>Processing a command\<close>

text \<open>\<open>Call\<close> asks the command for its implementation and drops it.\<close>

definition Call :: "int \<Rightarrow> session \<Rightarrow> session go" where
  "Call fl s = gobind (the_cmd s) (\<lambda>_. Ret s)"

definition protected_message :: string where
  "protected_message =
     ''%s command not allowed. If the %s option is set to \"local\" you can run it from a local connection, otherwise you need to set this option in the configuration file, and then restart the server.''"

text \<open>The checks of a new command: \<open>Some\<close> session when it was rejected.\<close>

definition check_new_command :: "globals \<Rightarrow> session \<Rightarrow> (bool \<times> session) go" where
  "check_new_command g s0 =
     gobind (lookupCommand g s0) (\<lambda>p.
     let s = s0\<lparr>ss_client := (ss_client s0)\<lparr>cl_cmd := p, cl_lastCmd := p, cl_realCmd := p\<rparr>\<rparr> in
     gobind (commandCheckExistence g s) (\<lambda>(err, ok).
       if \<not> ok then gobind (rejectCommandStr err s) (\<lambda>s1. Ret (True, s1))
       else gobind (commandCheckArity s) (\<lambda>(err, ok).
         if \<not> ok then gobind (rejectCommandStr err s) (\<lambda>s1. Ret (True, s1))
         else gobind (the_cmd s) (\<lambda>cmd.
           if has (cmd_flags cmd) CmdProtected \<and> (cmd_fullname cmd = ''debugCommand'' \<or> cmd_fullname cmd = ''module'') then
             gobind (rejectCommandFormat protected_message
                (if cmd_fullname cmd = ''debugCommand'' then [''DEBUG'', ''enable-debug-command'']
                 else [''MODULE'', ''enable-module-command'']) s) (\<lambda>s1. Ret (True, s1))
           else Ret (False, s)))))"

definition processCommand :: "globals \<Rightarrow> session \<Rightarrow> (bool \<times> session) go" where
  "processCommand g s =
     gobind (arg_string s 0) (\<lambda>name.
       if EqualFold name ''host:'' \<or> EqualFold name ''post'' then Ret (False, s)
       else
         gobind (if cl_cmd (ss_client s) = None then check_new_command g s else Ret (False, s)) (\<lambda>(rejected, s1).
           if rejected then Ret (True, s1)
           else
             gobind (authRequired g (ss_client s1)) (\<lambda>auth.
             gobind (the_cmd s1) (\<lambda>cmd.
               if auth \<and> \<not> has (cmd_flags cmd) CmdNoAuth then
                 gobind (rejectCommand SharedNoAuthErr s1) (\<lambda>s2. Ret (True, s2))
               else if has (cl_flags (ss_client s1)) ClientMulti \<and> cmd_flags cmd = CmdNoMulti then
                 gobind (rejectCommandFormat ''Command not allowed inside a transaction'' [] s1) (\<lambda>s2. Ret (True, s2))
               else Ret (False, s1)))))"

definition processCommandAndResetClient :: "globals \<Rightarrow> session \<Rightarrow> session go" where
  "processCommandAndResetClient g s = gobind (processCommand g s) (\<lambda>(_, s1). Ret s1)"

section \<open>The query buffer\<close>

definition reset_skip :: "uint64 \<Rightarrow> uint64" where
  "reset_skip fl =
     (let fl1 = clear ClientReplySkip fl in
      if has fl1 ClientReplySkipNext then clear ClientReplySkipNext (fl1 OR ClientReplySkip) else fl1)"

definition reset_asking :: "string \<Rightarrow> uint64 \<Rightarrow> uint64" where
  "reset_asking prevName fl =
     (let fl1 = (if prevName \<noteq> ''asking'' then clear ClientAsking fl else fl) in
      if prevName \<noteq> ''client'' then clear ClientTrackingCaching fl1 else fl1)"

text \<open>Without a command the name of the previous one is asked of a nil interface, outside of MULTI.\<close>

definition resetClient :: "session \<Rightarrow> session go" where
  "resetClient s =
     (let fl = clear ClientExecutingCommand (cl_flags (ss_client s)) in
      gobind (if has fl ClientMulti then Ret fl
              else gobind (the_cmd s) (\<lambda>prevCmd. Ret (reset_asking (cmd_fullname prevCmd) fl))) (\<lambda>fl1.
        Ret (s\<lparr>ss_client := (ss_client s)\<lparr>cl_reqType := ClientProtoTypeUnknown, cl_multiBulkLen := 0, cl_bulkLen := -1,
               cl_slot := -1, cl_flags := reset_skip fl1\<rparr>\<rparr>)))"

partial_function (option) input_loop :: "globals \<Rightarrow> session \<Rightarrow> (panic + session) option" where
  "input_loop g s =
     (let c = ss_client s in
      if cl_queryPos c < int (length (cl_queryBuf c)) then
        if has (cl_flags c) ClientBlocked \<or> has (cl_flags c) ClientPendingCommand then Ret s
        else if has (cl_flags c) (ClientCloseAfterReply OR ClientCloseASAP) then Ret s
        else if cl_reqType c = ClientProtoTypeUnknown then
          gobind (slice_get (cl_queryBuf c) (cl_queryPos c)) (\<lambda>ch.
          let s1 = s\<lparr>ss_client := c\<lparr>cl_reqType :=
                if ch = CHR ''*'' then ClientProtoTypeMultiBulk else ClientProtoTypeInline\<rparr>\<rparr> in
          gobind (if cl_argc c = 0 then resetClient s1 else processCommandAndResetClient g s1) (input_loop g))
        else Panics (Explicit ''Unknown client reqtype'')
      else Ret s)"

definition trim_query :: "client \<Rightarrow> client go" where
  "trim_query c =
     (if has (cl_flags c) ClientMaster then
        if sint (cl_replApplied c) > 0 then
          gobind (slice_from (cl_queryBuf c) (sint (cl_replApplied c))) (\<lambda>buf.
            Ret (c\<lparr>cl_queryBuf := buf, cl_queryPos := sint (cl_replApplied c), cl_replApplied := 0\<rparr>))
        else Ret c
      else if cl_queryPos c > 0 then
        gobind (slice_from (cl_queryBuf c) (cl_queryPos c)) (\<lambda>buf. Ret (c\<lparr>cl_queryBuf := buf, cl_queryPos := 0\<rparr>))
      else Ret c)"

definition processInputBuffer :: "globals \<Rightarrow> session \<Rightarrow> (bool \<times> session) go" where
  "processInputBuffer g s =
     gobind (input_loop g s) (\<lambda>s1. gobind (on_client trim_query s1) (\<lambda>s2. Ret (True, s2)))"

section \<open>Inline requests\<close>

definition IndexByte :: "string \<Rightarrow> char \<Rightarrow> int" where
  "IndexByte s ch =
     (let before = takeWhile (\<lambda>c. c \<noteq> ch) s in if length before = length s then - 1 else int (length before))"

definition append_args :: "string list \<Rightarrow> session \<Rightarrow> session" where
  "append_args ws s =
     (let objs = st_objs (ss_store s);
          new = map (\<lambda>w. createObject StringType (AString w)) ws;
          ptrs = map Some [length objs ..< length objs + length ws];
          c = ss_client s in
      s\<lparr>ss_store := (ss_store s)\<lparr>st_objs := objs @ new\<rparr>,
        ss_client := c\<lparr>cl_argv := cl_argv c @ ptrs, cl_argc := cl_argc c + int (length ws),
          cl_argvLenSum := cl_argvLenSum c + int (sum_list (map length ws))\<rparr>\<rparr>)"

text \<open>
  The three parts of \<open>processInlineBuffer\<close>: the line end at \<open>p\<close> is looked for after the position in the buffer, but its
  byte before is read from the start of the buffer. \<open>now\<close> is the Unix time; the fields of \<open>strings.Fields\<close> are never
  a nil slice, so the branch for one is dead.
\<close>

definition inline_words :: "int64 \<Rightarrow> int \<Rightarrow> int \<Rightarrow> session \<Rightarrow> (bool \<times> session) go" where
  "inline_words now p linefeedChars s =
     (let c = ss_client s; pos = cl_queryPos c; queryLen = p - pos in
      gobind (slice_upto (cl_queryBuf c) (pos + queryLen)) (\<lambda>upto.
      gobind (slice_from upto pos) (\<lambda>aux.
        let argv = Fields aux;
            c1 = c\<lparr>cl_replAckTime := if queryLen = 0 \<and> cl_flags c = ClientSlave then now else cl_replAckTime c,
                   cl_queryPos := pos + queryLen + linefeedChars\<rparr>;
            c2 = (if argv \<noteq> [] then
                    c1\<lparr>cl_argvLen := int (length argv), cl_argv := replicate (length argv) None, cl_argvLenSum := 0\<rparr>
                  else c1) in
        Ret (True, append_args argv (s\<lparr>ss_client := c2\<rparr>)))))"

definition inline_line :: "int64 \<Rightarrow> int \<Rightarrow> session \<Rightarrow> (bool \<times> session) go" where
  "inline_line now p s =
     gobind (if p \<noteq> 0 then gobind (slice_get (cl_queryBuf (ss_client s)) (p - 1)) (\<lambda>ch. Ret (ch = CHR 0x0D)) else Ret False)
       (\<lambda>cr. if cr then inline_words now (p - 1) 2 s else inline_words now p 1 s)"

definition processInlineBuffer :: "int64 \<Rightarrow> session \<Rightarrow> (bool \<times> session) go" where
  "processInlineBuffer now s =
     gobind (slice_from (cl_queryBuf (ss_client s)) (cl_queryPos (ss_client s))) (\<lambda>unread.
     let p = IndexByte unread (CHR 0x0A) in
     gobind (if p = - 1 \<and> int (length (cl_queryBuf (ss_client s))) - cl_queryPos (ss_client s) \<ge> ProtoInlineMaxSize then
               gobind (on_client (AddReplyError ''Protocol error: too big inline request'') s) (\<lambda>s1.
                 Ret (s1\<lparr>ss_client := (ss_client s1)\<lparr>cl_queryBuf := [], cl_queryPos := 0\<rparr>\<rparr>))
             else Ret s) (inline_line now p))"

end
