(* ===== verification/Client_Props.thy ===== *)
theory Client_Props
  imports Client Resp_Props
begin

text \<open>
  The client of \<open>src/node/client.go\<close>: what its replies put on the connection and when they are silent, which
  commands it rejects, and what its query buffer loop does.
\<close>

section \<open>Replies\<close>

text \<open>What a reply does to a client whose connection is open: it is appended, or dropped.\<close>

definition sent :: "string \<Rightarrow> client \<Rightarrow> client" where
  "sent out c =
     (if prepareClientToWrite c then c\<lparr>cl_connection := map_option (\<lambda>w. w @ out) (cl_connection c)\<rparr> else c)"

definition connected :: "client \<Rightarrow> bool" where
  "connected c \<longleftrightarrow> cl_connection c \<noteq> None"

lemma prepare_sent [simp]: "prepareClientToWrite (sent out c) = prepareClientToWrite c"
  by (simp add: sent_def prepareClientToWrite_def)

lemma connected_sent [simp]: "connected (sent out c) = connected c"
  by (simp add: sent_def connected_def)

lemma sent_sent [simp]: "sent b (sent a c) = sent (a @ b) c"
proof (cases "prepareClientToWrite c")
  case True
  then have "prepareClientToWrite (c\<lparr>cl_connection := map_option (\<lambda>w. w @ a) (cl_connection c)\<rparr>)"
    using prepare_sent [of a c] by (simp add: sent_def)
  with True show ?thesis by (cases "cl_connection c") (simp_all add: sent_def)
qed (simp add: sent_def)

lemma sent_Nil [simp]: "sent [] c = c"
  by (cases "cl_connection c") (simp_all add: sent_def)

lemma sent_simps [simp]:
  "cl_flags (sent out c) = cl_flags c" "cl_queryBuf (sent out c) = cl_queryBuf c"
  "cl_queryPos (sent out c) = cl_queryPos c" "cl_reqType (sent out c) = cl_reqType c"
  "cl_argc (sent out c) = cl_argc c" "cl_argv (sent out c) = cl_argv c" "cl_cmd (sent out c) = cl_cmd c"
  "cl_authenticated (sent out c) = cl_authenticated c"
  by (simp_all add: sent_def)

lemma sent_output:
  "prepareClientToWrite c \<Longrightarrow> cl_connection c = Some w \<Longrightarrow> cl_connection (sent out c) = Some (w @ out)"
  by (simp add: sent_def)

named_theorems reply_simps

lemma addReplyProto_sent [reply_simps]: "connected c \<Longrightarrow> addReplyProto p c = Ret (sent p c)"
  by (auto simp: addReplyProto_def conn_write_def sent_def connected_def)

definition raw_string :: "redisObj \<Rightarrow> string \<Rightarrow> bool" where
  "raw_string ob s \<longleftrightarrow> EncodingObject ob \<and> obj_Value ob = AString s"

lemma raw_string_create [simp]: "raw_string (createRawStringObject s) s"
  by (simp add: raw_string_def createRawStringObject_def createObject_def NewRedisObj_def EncodingObject_def)

lemma AddReply_sent [reply_simps]:
  assumes "raw_string ob s" and "connected c"
  shows "AddReply ob c = Ret (sent s c)"
  using assms by (auto simp: AddReply_def as_string_def raw_string_def conn_write_def sent_def connected_def)

lemma addReplyErrorLength_sent [reply_simps]:
  "connected c \<Longrightarrow> addReplyErrorLength err c =
     Ret (sent ((if err \<noteq> [] \<and> hd err = CHR ''-'' then ''-ERR'' else []) @ err @ CRLF) c)"
  by (simp add: addReplyErrorLength_def addReplyProto_sent)

lemma AddReplyError_sent [reply_simps]:
  assumes "connected c"
  shows "AddReplyError err c = addReplyErrorLength err c" "addReplyErrorFormat err c = addReplyErrorLength err c"
    "addReplyErrorStr err c = addReplyErrorLength err c"
  using assms
  by (simp_all add: AddReplyError_def addReplyErrorFormat_def addReplyErrorStr_def afterErrorReply_def addReplyErrorLength_sent)

definition bulk :: "string \<Rightarrow> string" where
  "bulk v = ''$'' @ itoa (sint (word_of_int (int (rune_count v)) :: int64)) @ CRLF @ v @ CRLF"

lemma AddReplyBulk_sent [reply_simps]:
  assumes "raw_string ob v" and "connected c"
  shows "AddReplyBulk ob c = Ret (sent (bulk v) c)"
  using assms
  by (simp add: AddReplyBulk_def addReplyBulkLen_def stringObjectLen_def raw_string_def as_string_def
      addReplyLongLongWithPrefix_def ll2String_def AddReply_sent addReplyProto_sent bulk_def)

lemma on_client_Ret: "f (ss_client s) = Ret c \<Longrightarrow> on_client f s = Ret (s\<lparr>ss_client := c\<rparr>)"
  by (simp add: on_client_def)

text \<open>For text without multi-byte characters the bulk reply is the frame of the string.\<close>

lemma bulk_ascii: "ascii v \<Longrightarrow> int (length v) \<le> MaxInt64 \<Longrightarrow> bulk v = blob_frame v"
proof -
  assume v: "ascii v" "int (length v) \<le> MaxInt64"
  have "sint (word_of_int (int (length v)) :: int64) = int (length v)"
    unfolding sint_sbintrunc' using v(2) by (intro signed_take_bit_int_eq_self) (simp_all add: MaxInt64_def)
  with v(1) show ?thesis by (simp add: bulk_def blob_frame_def rune_count_ascii)
qed

text \<open>Who is silent, in the terms of the flags.\<close>

definition silent :: "client \<Rightarrow> bool" where
  "silent c \<longleftrightarrow> \<not> has (cl_flags c) ClientScript \<and>
     (has (cl_flags c) ClientCloseASAP \<or>
      (has (cl_flags c) ClientReplyOff \<or> has (cl_flags c) ClientReplySkip) \<and> \<not> has (cl_flags c) ClientPushing \<or>
      has (cl_flags c) ClientMaster \<and> \<not> has (cl_flags c) ClientMasterForceReply \<or> cl_connection c = None)"

lemma has_OR: "has fl (f OR g) \<longleftrightarrow> has fl f \<or> has fl g"
  by (simp add: bit.conj_disj_distrib or_eq_0_iff)

lemma silent_prepare: "prepareClientToWrite c = (\<not> silent c)"
  unfolding prepareClientToWrite_def silent_def has_OR by auto

text \<open>
  C19: a client that is not run by a script gets not a byte, whatever is replied, when it is about to be closed, when replies are
  switched off or skipped and it is not pushing, when it is a master that did not ask for replies, or when it has no connection.
\<close>

theorem silent_client:
  assumes "silent c"
  shows "AddReply ob c = Ret c \<and> addReplyProto p c = Ret c \<and> AddReplyError err c = Ret c \<and>
    (\<forall>v. obj_Value ob = AString v \<longrightarrow> AddReplyBulk ob c = Ret c \<and> addReplyErrorObject ob c = Ret c)"
  using assms
  by (simp add: AddReply_def addReplyProto_def AddReplyError_def addReplyErrorLength_def afterErrorReply_def
      AddReplyBulk_def addReplyBulkLen_def stringObjectLen_def as_string_def addReplyLongLongWithPrefix_def
      addReplyErrorObject_def silent_prepare)

theorem silent_client_witness:
  "AddReply SharedOk (NewClient 1 (ClientReplyOff OR ClientMulti) (Some []) 2) = Ret (NewClient 1 (ClientReplyOff OR ClientMulti) (Some []) 2)"
  using silent_client [of "NewClient 1 (ClientReplyOff OR ClientMulti) (Some []) 2" SharedOk "[]" "[]"]
  by (simp add: silent_def NewClient_def ClientReplyOff_def ClientMulti_def ClientScript_def ClientCloseASAP_def
      ClientReplySkip_def ClientPushing_def)

text \<open>
  an error reply carries the error marker only for a message that starts with it: any other message is
  sent bare, and the protocol parser sees no error in it but a nil node with nothing consumed, unless its
  first byte happens to be a type byte.
\<close>

theorem error_reply_bare:
  assumes "prepareClientToWrite c" and "cl_connection c = Some w"
    and "err \<noteq> []" and "hd err \<notin> set ''*$:+-!#=_,(~%>|''"
  shows "\<exists>c'. AddReplyError err c = Ret c' \<and> cl_connection c' = Some (w @ err @ CRLF) \<and>
    parseRESP fs (err @ CRLF) = Ret (NilNode, err @ CRLF)"
proof -
  have "connected c" using assms(2) by (simp add: connected_def)
  then have "AddReplyError err c = Ret (sent (err @ CRLF) c)" using assms(4) by (auto simp: reply_simps)
  moreover obtain e es where "err = e # es" using assms(3) by (cases err) auto
  then have "parseRESP fs (err @ CRLF) = Ret (NilNode, err @ CRLF)"
    using assms(4) by (simp add: parseRESP_def)
  ultimately show ?thesis using sent_output [OF assms(1,2)] by simp
qed

definition open_client :: client where
  "open_client = NewClient 1 0 (Some []) 2"

lemma open_client_simps [simp]:
  "prepareClientToWrite open_client" "cl_connection open_client = Some []" "connected open_client"
  by (simp_all add: open_client_def NewClient_def prepareClientToWrite_def connected_def)

theorem error_reply_bare_witness:
  "\<exists>c'. AddReplyError ''invalid expire time in SETEX'' open_client = Ret c' \<and>
     cl_connection c' = Some (''invalid expire time in SETEX'' @ CRLF) \<and>
     parseRESP text_floats (''invalid expire time in SETEX'' @ CRLF) = Ret (NilNode, ''invalid expire time in SETEX'' @ CRLF)"
  using error_reply_bare [of open_client "[]" "''invalid expire time in SETEX''" text_floats] by simp

definition reply_text :: "redisObj \<Rightarrow> string" where
  "reply_text ob = (case obj_Value ob of AString s \<Rightarrow> s | _ \<Rightarrow> [])"

definition shared_errors :: "redisObj list" where
  "shared_errors = [SharedWrongTypeErr, SharedErr, SharedNoKeyErr, SharedSyntaxErr, SharedSomeObjErr, SharedOutoffRangeErr,
     SharedNoScriptErr, SharedLoadingErr, SharedSlowEvalErr, SharedSlowScriptErr, SharedNoAuthErr, ShardOOMErr,
     SharedExecAbortErr, SharedBusyKeyErr]"

lemmas shared_error_defs = SharedWrongTypeErr_def SharedErr_def SharedNoKeyErr_def SharedSyntaxErr_def SharedSomeObjErr_def
  SharedOutoffRangeErr_def SharedNoScriptErr_def SharedLoadingErr_def SharedSlowEvalErr_def SharedSlowScriptErr_def
  SharedNoAuthErr_def ShardOOMErr_def SharedExecAbortErr_def SharedBusyKeyErr_def

lemma reply_text_create [simp]: "reply_text (createRawStringObject s) = s"
  by (simp add: reply_text_def createRawStringObject_def createObject_def NewRedisObj_def)

definition error_line :: "string \<Rightarrow> bool" where
  "error_line s \<longleftrightarrow> (let m = take (length s - 3) (tl s) in s = ''-'' @ m @ CRLF \<and> list_all (\<lambda>c. c \<noteq> CHR 0x0D) m)"

lemma parse_error_line: "error_line s \<Longrightarrow> \<exists>m. parseRESP fs s = Ret (Error m, [])"
proof -
  assume "error_line s"
  then obtain m where "s = encode (\<lambda>_. []) (Error m)" "encodable fs (\<lambda>_. []) (Error m)"
    by (auto simp: error_line_def Let_def list_all_iff)
  with parseRESP_frame [of fs "\<lambda>_. []" "Error m"] show ?thesis by auto
qed

text \<open>
  every shared error reply and every shared RESP reply is read back by the protocol parser as what it
  stands for; the reply to a successful SET is not: it lacks the marker of a simple string.
\<close>

theorem shared_replies_parse:
  "list_all (\<lambda>r. \<exists>m. parseRESP fs (reply_text r) = Ret (Error m, [])) shared_errors \<and>
   parseRESP fs (reply_text SharedPong) = Ret (SimpleString ''PONG'', []) \<and>
   parseRESP fs (reply_text SharedCone) = Ret (Integer 1, []) \<and>
   parseRESP fs (reply_text SharedEmptyArray) = Ret (Array [], []) \<and>
   parseRESP fs (reply_text SharedOk) = Ret (NilNode, reply_text SharedOk)"
proof (intro conjI)
  have "list_all (\<lambda>r. error_line (reply_text r)) shared_errors" by code_simp
  then show "list_all (\<lambda>r. \<exists>m. parseRESP fs (reply_text r) = Ret (Error m, [])) shared_errors"
    by (rule list.pred_mono_strong) (rule parse_error_line)
  have one: "itoa 1 = ''1''" and zero: "itoa 0 = ''0''" by code_simp+
  show "parseRESP fs (reply_text SharedPong) = Ret (SimpleString ''PONG'', [])"
    using parseRESP_frame [of fs "\<lambda>_. []" "SimpleString ''PONG''"] by (simp add: SharedPong_def)
  show "parseRESP fs (reply_text SharedCone) = Ret (Integer 1, [])"
    using parseRESP_frame [of fs "\<lambda>_. []" "Integer 1"]
    by (simp add: SharedCone_def MinInt64_def MaxInt64_def one)
  show "parseRESP fs (reply_text SharedEmptyArray) = Ret (Array [], [])"
    using parseRESP_frame [of fs "\<lambda>_. []" "Array []"]
    by (simp add: SharedEmptyArray_def maxElems_def zero)
  show "parseRESP fs (reply_text SharedOk) = Ret (NilNode, reply_text SharedOk)"
    by (simp add: SharedOk_def parseRESP_def)
qed

end
