(* ===== verification/Client_Input.thy ===== *)
theory Client_Input
  imports Client_Props
begin

text \<open>
  What a client's input goes through: which part of the session a command that is checked can change, and the loop
  over the query buffer, which never gets past unread bytes.
\<close>

section \<open>The query buffer\<close>

text \<open>A reply changes nothing of a client but its connection.\<close>

definition only_output :: "client \<Rightarrow> client \<Rightarrow> bool" where
  "only_output c c' \<longleftrightarrow> (\<exists>out. c' = c\<lparr>cl_connection := out\<rparr>)"

named_theorems output_intros

lemma only_output_refl [simp]: "only_output c c"
  unfolding only_output_def by (rule exI [of _ "cl_connection c"]) simp

lemma only_output_trans: "only_output a b \<Longrightarrow> only_output b c \<Longrightarrow> only_output a c"
  by (auto simp: only_output_def)

lemma conn_write_output [output_intros]: "conn_write d c = Ret c' \<Longrightarrow> only_output c c'"
  by (auto simp: conn_write_def only_output_def split: option.splits)

lemma addReplyProto_output [output_intros]: "addReplyProto p c = Ret c' \<Longrightarrow> only_output c c'"
  by (auto simp: addReplyProto_def split: if_splits intro: output_intros)

lemma AddReply_output [output_intros]: "AddReply ob c = Ret c' \<Longrightarrow> only_output c c'"
  by (auto simp: AddReply_def gobind_Ret_iff split: if_splits goany.splits intro: output_intros)

lemma addReplyErrorLength_output [output_intros]: "addReplyErrorLength err c = Ret c' \<Longrightarrow> only_output c c'"
  unfolding addReplyErrorLength_def gobind_Ret_iff
  by (auto split: if_splits dest!: addReplyProto_output intro: only_output_trans)

lemma error_output [output_intros]:
  "addReplyErrorFormat err c = Ret c' \<Longrightarrow> only_output c c'" "addReplyErrorStr err c = Ret c' \<Longrightarrow> only_output c c'"
  "execCommandAbort err c = Ret c' \<Longrightarrow> only_output c c'" "addReplyErrorObject ob c = Ret c' \<Longrightarrow> only_output c c'"
  by (auto simp: addReplyErrorFormat_def addReplyErrorStr_def execCommandAbort_def addReplyErrorObject_def
      afterErrorReply_def gobind_Ret_iff intro: output_intros)

text \<open>What a rejection keeps.\<close>

definition same_input :: "session \<Rightarrow> session \<Rightarrow> bool" where
  "same_input s s' \<longleftrightarrow>
     cl_queryBuf (ss_client s') = cl_queryBuf (ss_client s) \<and> cl_queryPos (ss_client s') = cl_queryPos (ss_client s) \<and>
     cl_reqType (ss_client s') = cl_reqType (ss_client s) \<and> cl_argc (ss_client s') = cl_argc (ss_client s) \<and>
     cl_flags (ss_client s') = cl_flags (ss_client s) \<and> ss_store s' = ss_store s"

lemma same_input_refl [simp]: "same_input s s"
  by (simp add: same_input_def)

lemma same_input_trans: "same_input a b \<Longrightarrow> same_input b c \<Longrightarrow> same_input a c"
  by (simp add: same_input_def)

lemma only_output_fields:
  "only_output c c' \<Longrightarrow> cl_queryBuf c' = cl_queryBuf c \<and> cl_queryPos c' = cl_queryPos c \<and> cl_reqType c' = cl_reqType c \<and>
     cl_argc c' = cl_argc c \<and> cl_flags c' = cl_flags c \<and> cl_cmd c' = cl_cmd c"
  by (auto simp: only_output_def)

lemma rejected_input:
  assumes "rejected reply s = Ret s'" and "\<And>cmd c c'. reply cmd c = Ret c' \<Longrightarrow> only_output c c'"
  shows "same_input s s'"
proof (cases "cl_cmd (ss_client s)")
  case None
  with assms(1) show ?thesis by (auto simp: rejected_def same_input_def)
next
  case (Some a)
  with assms(1) obtain cmd c' where "reply cmd ((ss_client s)\<lparr>cl_duration := 0\<rparr>) = Ret c'"
    "ss_client s' = c'" "ss_store s' = ss_store s"
    by (auto simp: rejected_def on_client_def gobind_Ret_iff)
  with only_output_fields [OF assms(2)] show ?thesis by (auto simp: same_input_def)
qed

lemma rejectCommandStr_input: "rejectCommandStr str s = Ret s' \<Longrightarrow> same_input s s'"
  unfolding rejectCommandStr_def by (erule rejected_input) (auto split: if_splits dest: error_output)

lemma rejectCommand_input:
  assumes "rejectCommand ob s = Ret s'"
  shows "same_input s s'"
  using assms unfolding rejectCommand_def
proof (rule rejected_input)
  fix cmd c c'
  assume "(if cmd_fullname cmd = ''ExecCommand'' then gobind (as_string (obj_Value ob)) (\<lambda>str. execCommandAbort str c)
      else addReplyErrorObject ob c) = Ret c'"
  then show "only_output c c'"
    by (cases "cmd_fullname cmd = ''ExecCommand''") (auto simp: gobind_Ret_iff dest: error_output)
qed

lemma rejectCommandFormat_input: "rejectCommandFormat f a s = Ret s' \<Longrightarrow> same_input s s'"
  unfolding rejectCommandFormat_def gobind_Ret_iff by (auto dest: rejectCommandStr_input)

lemmas reject_input = rejectCommandStr_input rejectCommand_input rejectCommandFormat_input

lemma check_new_command_input: "check_new_command g s = Ret (b, s') \<Longrightarrow> same_input s s'"
  unfolding check_new_command_def Let_def
  by (auto simp: gobind_Ret_iff same_input_def split: if_splits prod.splits dest!: reject_input)

lemma processCommand_input:
  assumes "processCommand g s = Ret (b, s')"
  shows "same_input s s'"
proof -
  from assms obtain name where run: "(if EqualFold name ''host:'' \<or> EqualFold name ''post'' then Ret (False, s)
      else gobind (if cl_cmd (ss_client s) = None then check_new_command g s else Ret (False, s)) (\<lambda>(rejected, s1).
        if rejected then Ret (True, s1)
        else gobind (authRequired g (ss_client s1)) (\<lambda>auth. gobind (the_cmd s1) (\<lambda>cmd.
          if auth \<and> \<not> has (cmd_flags cmd) CmdNoAuth then
            gobind (rejectCommand SharedNoAuthErr s1) (\<lambda>s2. Ret (True, s2))
          else if has (cl_flags (ss_client s1)) ClientMulti \<and> cmd_flags cmd = CmdNoMulti then
            gobind (rejectCommandFormat ''Command not allowed inside a transaction'' [] s1) (\<lambda>s2. Ret (True, s2))
          else Ret (False, s1))))) = Ret (b, s')"
    unfolding processCommand_def by (elim gobindE)
  show ?thesis
  proof (cases "EqualFold name ''host:'' \<or> EqualFold name ''post''")
    case False
    with run obtain rej s1 where
      pre: "(if cl_cmd (ss_client s) = None then check_new_command g s else Ret (False, s)) = Ret (rej, s1)"
      and rest: "(if rej then Ret (True, s1)
        else gobind (authRequired g (ss_client s1)) (\<lambda>auth. gobind (the_cmd s1) (\<lambda>cmd.
          if auth \<and> \<not> has (cmd_flags cmd) CmdNoAuth then
            gobind (rejectCommand SharedNoAuthErr s1) (\<lambda>s2. Ret (True, s2))
          else if has (cl_flags (ss_client s1)) ClientMulti \<and> cmd_flags cmd = CmdNoMulti then
            gobind (rejectCommandFormat ''Command not allowed inside a transaction'' [] s1) (\<lambda>s2. Ret (True, s2))
          else Ret (False, s1)))) = Ret (b, s')"
      by (auto elim: gobindE)
    have "same_input s s1" using pre by (auto split: if_splits dest: check_new_command_input)
    moreover have "same_input s1 s'"
      using rest by (auto split: if_splits elim!: gobindE dest: rejectCommand_input rejectCommandFormat_input)
    ultimately show ?thesis by (rule same_input_trans)
  qed (use run in simp)
qed

section \<open>The loop over the query buffer\<close>

text \<open>A client with unread bytes that no flag keeps from processing them.\<close>

definition pending :: "client \<Rightarrow> bool" where
  "pending c \<longleftrightarrow> cl_queryPos c < int (length (cl_queryBuf c)) \<and>
     \<not> has (cl_flags c) ClientBlocked \<and> \<not> has (cl_flags c) ClientPendingCommand \<and>
     \<not> has (cl_flags c) (ClientCloseAfterReply OR ClientCloseASAP)"

lemma has_clear: "\<not> has fl f \<Longrightarrow> \<not> has (clear k fl) f"
  by (metis (no_types, lifting) and.assoc and.commute and_zero_eq)

lemma has_or: "\<not> has fl f \<Longrightarrow> k AND f = 0 \<Longrightarrow> \<not> has (fl OR k) f"
  by (simp add: bit.conj_disj_distrib2)

lemma reset_flags:
  assumes "\<not> has fl f" and "ClientReplySkip AND f = 0"
  shows "\<not> has (reset_skip fl) f" and "\<not> has (reset_asking n fl) f"
proof -
  show "\<not> has (reset_skip fl) f"
    unfolding reset_skip_def Let_def
    by (cases "has (clear ClientReplySkip fl) ClientReplySkipNext")
      (simp_all only: if_True if_False has_clear has_or assms not_not simp_thms)
  show "\<not> has (reset_asking n fl) f"
    unfolding reset_asking_def Let_def
    by (cases "n = ''asking''"; cases "n = ''client''") (simp_all only: if_True if_False has_clear assms simp_thms)
qed

lemma resetClient_pending:
  assumes "resetClient s = Ret s'" and "pending (ss_client s)"
  shows "pending (ss_client s')"
proof -
  let ?fl = "clear ClientExecutingCommand (cl_flags (ss_client s))"
  from assms(1) obtain fl where
    pre: "(if has ?fl ClientMulti then Ret ?fl
      else gobind (the_cmd s) (\<lambda>prevCmd. Ret (reset_asking (cmd_fullname prevCmd) ?fl))) = Ret fl"
    and post: "Ret (s\<lparr>ss_client := (ss_client s)\<lparr>cl_reqType := ClientProtoTypeUnknown, cl_multiBulkLen := 0,
      cl_bulkLen := -1, cl_slot := -1, cl_flags := reset_skip fl\<rparr>\<rparr>) = Ret s'"
    unfolding resetClient_def Let_def by (rule gobindE)
  have fl: "fl = ?fl \<or> (\<exists>n. fl = reset_asking n ?fl)" using pre by (auto split: if_splits elim!: gobindE)
  have s': "cl_queryPos (ss_client s') = cl_queryPos (ss_client s)"
    "cl_queryBuf (ss_client s') = cl_queryBuf (ss_client s)" "cl_flags (ss_client s') = reset_skip fl"
    using post by auto
  have "\<not> has (reset_skip fl) f" if "\<not> has (cl_flags (ss_client s)) f" "ClientReplySkip AND f = 0" for f
    using fl reset_flags [OF has_clear [OF that(1)] that(2)] reset_flags(1) [OF _ that(2)] has_clear [OF that(1)] by blast
  moreover have "ClientReplySkip AND ClientBlocked = 0" "ClientReplySkip AND ClientPendingCommand = 0"
    "ClientReplySkip AND (ClientCloseAfterReply OR ClientCloseASAP) = 0"
    by (simp_all add: ClientReplySkip_def ClientBlocked_def ClientPendingCommand_def ClientCloseAfterReply_def
        ClientCloseASAP_def)
  ultimately show ?thesis using assms(2) unfolding pending_def s' by blast
qed

lemma pending_reqType [simp]: "pending (c\<lparr>cl_reqType := r\<rparr>) = pending c"
  by (simp add: pending_def)

lemma pending_same_input: "same_input s s' \<Longrightarrow> pending (ss_client s') = pending (ss_client s)"
  by (simp add: same_input_def pending_def)

text \<open>What one round does before the next one.\<close>

definition typed_request :: "char \<Rightarrow> session \<Rightarrow> session" where
  "typed_request ch s = s\<lparr>ss_client := (ss_client s)\<lparr>cl_reqType :=
     if ch = CHR ''*'' then ClientProtoTypeMultiBulk else ClientProtoTypeInline\<rparr>\<rparr>"

definition round_end :: "globals \<Rightarrow> char \<Rightarrow> session \<Rightarrow> session go" where
  "round_end g ch s = (if cl_argc (ss_client s) = 0 then resetClient (typed_request ch s)
     else processCommandAndResetClient g (typed_request ch s))"

lemma round_end_pending:
  assumes "pending (ss_client s)" and "round_end g ch s = Ret s2"
  shows "pending (ss_client s2)"
proof -
  have pend: "pending (ss_client (typed_request ch s))" using assms(1) by (simp add: typed_request_def)
  show ?thesis
  proof (cases "cl_argc (ss_client s) = 0")
    case True
    with assms(2) pend show ?thesis by (auto simp: round_end_def intro: resetClient_pending)
  next
    case False
    with assms(2) have "same_input (typed_request ch s) s2"
      by (auto simp: round_end_def processCommandAndResetClient_def elim!: gobindE dest: processCommand_input)
    with pend show ?thesis by (simp add: pending_same_input)
  qed
qed

lemma input_loop_stuck:
  assumes "input_loop g s = Some r"
  shows "pending (ss_client s) \<longrightarrow> (\<exists>p. r = Inl p)"
proof (rule input_loop.raw_induct [where P = "\<lambda>g s r. pending (ss_client s) \<longrightarrow> (\<exists>p. r = Inl p)", OF _ assms])
  fix rec :: "globals \<Rightarrow> session \<Rightarrow> session go" and g s r
  assume IH: "\<And>g s r. rec g s = Some r \<Longrightarrow> pending (ss_client s) \<longrightarrow> (\<exists>p. r = Inl p)"
    and body: "(let c = ss_client s in
      if cl_queryPos c < int (length (cl_queryBuf c)) then
        if has (cl_flags c) ClientBlocked \<or> has (cl_flags c) ClientPendingCommand then Ret s
        else if has (cl_flags c) (ClientCloseAfterReply OR ClientCloseASAP) then Ret s
        else if cl_reqType c = ClientProtoTypeUnknown then
          gobind (slice_get (cl_queryBuf c) (cl_queryPos c)) (\<lambda>ch.
          let s1 = s\<lparr>ss_client := c\<lparr>cl_reqType :=
                if ch = CHR ''*'' then ClientProtoTypeMultiBulk else ClientProtoTypeInline\<rparr>\<rparr> in
          gobind (if cl_argc c = 0 then resetClient s1 else processCommandAndResetClient g s1) (rec g))
        else Panics (Explicit ''Unknown client reqtype'')
      else Ret s) = Some r"
  show "pending (ss_client s) \<longrightarrow> (\<exists>p. r = Inl p)"
  proof
    assume pend: "pending (ss_client s)"
    show "\<exists>p. r = Inl p"
    proof (rule ccontr)
      assume "\<nexists>p. r = Inl p"
      then obtain s' where r: "r = Inr s'" by (cases r) auto
      have "cl_reqType (ss_client s) = ClientProtoTypeUnknown"
        using body pend unfolding r by (simp add: Let_def pending_def split: if_splits)
      with body pend have "gobind (slice_get (cl_queryBuf (ss_client s)) (cl_queryPos (ss_client s))) (\<lambda>ch.
          gobind (round_end g ch s) (rec g)) = Ret s'"
        unfolding r pending_def Let_def round_end_def typed_request_def by (simp only: if_True if_False simp_thms)
      then obtain ch where "gobind (round_end g ch s) (rec g) = Ret s'" by (rule gobindE)
      then obtain s2 where s2: "round_end g ch s = Ret s2" "rec g s2 = Ret s'" by (rule gobindE)
      have "pending (ss_client s2)" by (rule round_end_pending [OF pend s2(1)])
      with IH [OF s2(2)] show False by simp
    qed
  qed
qed

section \<open>Properties\<close>

definition no_globals :: globals where
  "no_globals = \<lparr>g_commands = None, g_defaultUser = None, g_fmtObj = (\<lambda>_ _. [])\<rparr>"

definition a_command :: "string \<Rightarrow> int \<Rightarrow> uint64 \<Rightarrow> baseCommand" where
  "a_command name arity fl =
     \<lparr>cmd_declaredName = name, cmd_fullname = name, cmd_group = RedisCommandGroupString, cmd_history = [],
      cmd_subCommands = None, cmd_args = [], cmd_arity = arity, cmd_aclCategories = 0, cmd_flags = fl, cmd_id = 0,
      cmd_microSeconds = 0, cmd_calls = 0, cmd_rejectedCalls = 0, cmd_failedCalls = 0, cmd_parent = None\<rparr>"

definition an_object :: "string \<Rightarrow> redisObj" where
  "an_object v = createRawStringObject v"

definition one_bucket :: "'v hashtable" where
  "one_bucket = \<lparr>ht_Entries = [], ht_Table = [None], ht_Size = 1, ht_RehashingIdx = -1, ht_RehashingSize = 0,
     ht_RehashingTbl = [], ht_Count = 0\<rparr>"

definition empty_store :: "redisObj list \<Rightarrow> store" where
  "empty_store objs =
     \<lparr>st_db = \<lparr>db_dict = one_bucket, db_expire = one_bucket, db_id = 0, db_avgTTL = 0, db_StatKeySpaceHits = 0,
        db_StatKeySpaceMisses = 0\<rparr>, st_objs = objs, st_mem = 0\<rparr>"

definition a_session :: "(client \<Rightarrow> client) \<Rightarrow> redisObj list \<Rightarrow> baseCommand list \<Rightarrow> session" where
  "a_session f objs cmds = \<lparr>ss_client = f open_client, ss_store = empty_store objs, ss_cmds = cmds\<rparr>"

text \<open>
  C33: a client with unread bytes that no flag keeps from processing them never comes back from
  \<open>processInputBuffer\<close>: the loop does not read a request, so it resets the client forever, or panics at the second round
  or because no command was set.
\<close>

theorem processInputBuffer_never_returns:
  assumes "pending (ss_client s)"
  shows "\<not> returns (processInputBuffer g s)"
proof
  assume "returns (processInputBuffer g s)"
  then obtain x where "processInputBuffer g s = Ret x" by (auto simp: returns_iff)
  then obtain s1 where "input_loop g s = Ret s1" unfolding processInputBuffer_def by (elim gobindE)
  with input_loop_stuck [of g s] assms show False by auto
qed

theorem processInputBuffer_never_returns_witness:
  "\<not> returns (processInputBuffer no_globals (a_session (\<lambda>c. c\<lparr>cl_queryBuf := ''*1''\<rparr>) [] []))"
  by (rule processInputBuffer_never_returns)
    (simp add: a_session_def pending_def open_client_def NewClient_def)

text \<open>
  an unknown command is rejected without a reply: the rejection is counted and written only when there is a
  command object, and an unknown command has none. Connection and database stay as they are.
\<close>

theorem processCommand_unknown_silent:
  assumes "arg_string s 0 = Ret name" and "\<not> EqualFold name ''host:''" and "\<not> EqualFold name ''post''"
    and "cl_cmd (ss_client s) = None" and "g_commands g = Some h" and "Get name h = Ret None"
  shows "\<exists>s'. processCommand g s = Ret (True, s') \<and> cl_connection (ss_client s') = cl_connection (ss_client s) \<and>
    ss_store s' = ss_store s \<and> ss_cmds s' = ss_cmds s"
proof -
  have map: "\<exists>str. mapChars err CRLF ''  '' = Ret str" for err by (simp add: CRLF_def)
  let ?s = "s\<lparr>ss_client := (ss_client s)\<lparr>cl_cmd := None, cl_lastCmd := None, cl_realCmd := None\<rparr>\<rparr>"
  have look: "lookupCommand g s = Ret None"
    using assms by (simp add: lookupCommand_def lookupCommandLogic_def commands_Get_def has_subcommands_def)
  have arg: "arg_string ?s 0 = Ret name" using assms(1) by (simp add: arg_string_def arg_obj_def)
  obtain err where "commandCheckExistence g ?s = Ret (err, False)"
    using assms(5,6) arg map
    by (auto simp: commandCheckExistence_def isContainerCommandBySds_def commands_Get_def has_subcommands_def Let_def
        CRLF_def)
  moreover have "rejectCommandStr err ?s = Ret (?s\<lparr>ss_client := (ss_client ?s)\<lparr>cl_duration := 0\<rparr>\<rparr>)"
    by (simp add: rejectCommandStr_def rejected_def)
  ultimately have "check_new_command g s = Ret (True, ?s\<lparr>ss_client := (ss_client ?s)\<lparr>cl_duration := 0\<rparr>\<rparr>)"
    by (simp add: check_new_command_def look)
  then show ?thesis using assms(1-4) by (simp add: processCommand_def)
qed

theorem processCommand_unknown_silent_witness:
  "\<exists>s'. processCommand (no_globals\<lparr>g_commands := Some one_bucket\<rparr>)
     (a_session (\<lambda>c. c\<lparr>cl_argv := [Some 0], cl_argc := 1\<rparr>) [an_object ''PING''] []) = Ret (True, s') \<and>
     cl_connection (ss_client s') = Some []"
proof -
  let ?s = "a_session (\<lambda>c. c\<lparr>cl_argv := [Some 0], cl_argc := 1\<rparr>) [an_object ''PING''] []"
  have arg: "arg_string ?s 0 = Ret ''PING''"
    by (simp add: arg_string_def arg_obj_def slice_get_def a_session_def empty_store_def deref_def an_object_def
        as_string_def createRawStringObject_def createObject_def NewRedisObj_def)
  have names: "\<not> EqualFold ''PING'' ''host:''" "\<not> EqualFold ''PING'' ''post''" by code_simp+
  have get: "Get ''PING'' (one_bucket :: cmdptr hashtable) = Ret None" by code_simp
  have "cl_cmd (ss_client ?s) = None" "cl_connection (ss_client ?s) = Some []"
    by (simp_all add: a_session_def open_client_def NewClient_def)
  with processCommand_unknown_silent [OF arg names _ _ get, of "no_globals\<lparr>g_commands := Some one_bucket\<rparr>"]
  show ?thesis by auto
qed

text \<open>
  the arity check rejects too few arguments of a command that takes a minimum, and accepts any number of
  arguments of a command that takes a fixed one.
\<close>

theorem commandCheckArity_rejects:
  assumes "the_cmd s = Ret cmd" and "0 \<le> cl_argc (ss_client s)"
  shows "\<exists>err. commandCheckArity s = Ret (err, \<not> (cmd_arity cmd < 0 \<and> cl_argc (ss_client s) < - cmd_arity cmd))"
  using assms by (auto simp: commandCheckArity_def)

theorem commandCheckArity_rejects_witness:
  "\<exists>err. commandCheckArity (a_session (\<lambda>c. c\<lparr>cl_cmd := Some 0, cl_argc := 7\<rparr>) [] [a_command ''get'' 2 0]) = Ret (err, True)"
  using commandCheckArity_rejects [of "a_session (\<lambda>c. c\<lparr>cl_cmd := Some 0, cl_argc := 7\<rparr>) [] [a_command ''get'' 2 0]"
      "a_command ''get'' 2 0"]
  by (simp add: a_session_def the_cmd_def cmd_of_def a_command_def)

text \<open>The condition under which a command is answered with the demand to authenticate.\<close>

definition auth_demanded :: "user \<Rightarrow> client \<Rightarrow> baseCommand \<Rightarrow> bool" where
  "auth_demanded u c cmd \<longleftrightarrow> us_flags u AND UserFlagNoPass \<noteq> 0 \<and> us_flags u AND UserFlagDisabled = 0 \<and>
     \<not> cl_authenticated c \<and> \<not> has (cmd_flags cmd) CmdNoAuth"


text \<open>GET of a client that has just connected, with a default user with the given flags.\<close>

definition get_session :: session where
  "get_session = a_session (\<lambda>c. c\<lparr>cl_argv := [Some 0], cl_argc := 1, cl_cmd := Some 0\<rparr>) [an_object ''GET''] [a_command ''get'' 2 0]"

definition a_default_user :: "8 word \<Rightarrow> user" where
  "a_default_user flags = \<lparr>us_name = ''default'', us_flags = flags, us_passwords = NewList, us_selectors = NewList, us_aclString = None\<rparr>"


text \<open>
  a command read from an inline request cannot be processed: the argument vector gets one nil pointer per word in
  front of the words, and \<open>processCommand\<close> reads the first of them.
\<close>

theorem inline_request_panics:
  assumes "cl_queryBuf (ss_client s) = line @ CHR 0x0A # rest" and "cl_queryPos (ss_client s) = 0"
    and "CHR 0x0A \<notin> set line" and "Fields (if line \<noteq> [] \<and> last line = CHR 0x0D then butlast line else line) = w # ws"
  shows "\<exists>s'. processInlineBuffer now s = Ret (True, s') \<and>
    cl_argv (ss_client s') = replicate (Suc (length ws)) None @ map Some [length (st_objs (ss_store s)) ..< length (st_objs (ss_store s)) + Suc (length ws)] \<and>
    processCommand g s' = Panics NilDeref"
proof -
  let ?c = "ss_client s" and ?cr = "line \<noteq> [] \<and> last line = CHR 0x0D"
  define aux where "aux = (if ?cr then butlast line else line)"
  have "takeWhile (\<lambda>c. c \<noteq> CHR 0x0A) (line @ CHR 0x0A # rest) = line"
    using assms(3) by (subst takeWhile_append2) auto
  then have p: "IndexByte (cl_queryBuf ?c) (CHR 0x0A) = int (length line)"
    by (simp add: IndexByte_def assms(1))
  have from0: "slice_from xs 0 = Ret xs" for xs :: string by (simp add: slice_from_def)
  have "processInlineBuffer now s = inline_line now (int (length line)) s"
    unfolding processInlineBuffer_def by (simp add: assms(2) from0 p Let_def)
  moreover have "inline_line now (int (length line)) s = inline_words now (int (length aux)) (if ?cr then 2 else 1) s"
    unfolding inline_line_def aux_def by (cases line rule: rev_cases) (auto simp: assms(1) slice_get_def nth_append)
  moreover have "slice_upto (cl_queryBuf ?c) (int (length aux)) = Ret aux"
  proof -
    have "take (length aux) (cl_queryBuf ?c) = aux"
      unfolding assms(1) aux_def by (cases line rule: rev_cases) auto
    moreover from this have "length aux \<le> length (cl_queryBuf ?c)" by (metis length_take min.cobounded1)
    ultimately show ?thesis by simp
  qed
  moreover have "Fields aux = w # ws" using assms(4) unfolding aux_def .
  ultimately obtain s1 where run: "processInlineBuffer now s = Ret (True, append_args (w # ws) s1)"
    and s1: "cl_argv (ss_client s1) = replicate (Suc (length ws)) None" "ss_store s1 = ss_store s"
    by (simp add: inline_words_def assms(2) from0 Let_def)
  let ?s' = "append_args (w # ws) s1"
  have argv: "cl_argv (ss_client ?s') = replicate (Suc (length ws)) None @
      map Some [length (st_objs (ss_store s)) ..< length (st_objs (ss_store s)) + Suc (length ws)]"
    using s1 by (simp add: append_args_def Let_def)
  then have "processCommand g ?s' = Panics NilDeref"
    by (simp add: processCommand_def arg_string_def arg_obj_def slice_get_def deref_def)
  with run argv show ?thesis by blast
qed

theorem inline_request_panics_witness:
  "\<exists>s'. processInlineBuffer 0 (a_session (\<lambda>c. c\<lparr>cl_queryBuf := ''GET key'' @ CRLF\<rparr>) [] []) = Ret (True, s') \<and>
     cl_argv (ss_client s') = [None, None, Some 0, Some 1] \<and> processCommand no_globals s' = Panics NilDeref"
proof -
  let ?s = "a_session (\<lambda>c. c\<lparr>cl_queryBuf := ''GET key'' @ CRLF\<rparr>) [] []"
  have "Fields ''GET key'' = [''GET'', ''key'']" by code_simp
  then show ?thesis
    using inline_request_panics [of ?s "''GET key'' @ [CHR 0x0D]" "[]" "''GET''" "[''key'']" 0 no_globals]
    by (simp add: a_session_def CRLF_def open_client_def NewClient_def empty_store_def upt_rec numeral_2_eq_2)
qed

end
