(* ===== verification/StrCmd.thy ===== *)
theory StrCmd
  imports Client
begin

text \<open>
  \<open>src/node/strcmd.go\<close>: the string commands on a session. The command object holds the client and its database, both part of
  the session. \<open>now\<close> is what \<open>mstime()\<close> returns.
\<close>

section \<open>Options of SET and GET\<close>

definition UintSeconds :: int where "UintSeconds = 0"
definition UintMilliseconds :: int where "UintMilliseconds = 1"

definition ObjNoFlags :: int64 where "ObjNoFlags = 0"
definition ObjSetNX :: int64 where "ObjSetNX = 1"
definition ObjSetXX :: int64 where "ObjSetXX = 2"
definition ObjSetEX :: int64 where "ObjSetEX = 4"
definition ObjSetPX :: int64 where "ObjSetPX = 8"
definition ObjSetKeepTTL :: int64 where "ObjSetKeepTTL = 16"
definition ObjSetGet :: int64 where "ObjSetGet = 32"
definition ObjEXAT :: int64 where "ObjEXAT = 64"
definition ObjPXAT :: int64 where "ObjPXAT = 128"
definition ObjPERSIST :: int64 where "ObjPERSIST = 256"

lemmas obj_flag_defs = ObjNoFlags_def ObjSetNX_def ObjSetXX_def ObjSetEX_def ObjSetPX_def ObjSetKeepTTL_def ObjSetGet_def
  ObjEXAT_def ObjPXAT_def ObjPERSIST_def

datatype CommandType = CommandSet | CommandGet

text \<open>What one option does: the new flags, whether it takes the next argument as the time, and the new unit.\<close>

datatype option_effect = OptSyntax | OptFlags int64 | OptExpire int64 "int option"

abbreviation none_of :: "int64 \<Rightarrow> int64 list \<Rightarrow> bool" where
  "none_of flags fs \<equiv> list_all (\<lambda>f. flags AND f = 0) fs"

definition option_step :: "string \<Rightarrow> int64 \<Rightarrow> CommandType \<Rightarrow> bool \<Rightarrow> option_effect" where
  "option_step opt flags ct has_next =
     (let fmtOpt = ToUpper opt in
      if fmtOpt = ''NX'' \<and> flags AND ObjSetXX = 0 \<and> ct = CommandSet then OptFlags (flags OR ObjSetNX)
      else if fmtOpt = ''XX'' \<and> flags AND ObjSetNX = 0 \<and> ct = CommandSet then OptFlags (flags OR ObjSetXX)
      else if fmtOpt = ''GET'' \<and> ct = CommandSet then OptFlags (flags OR ObjSetGet)
      else if EqualFold opt ''KEEPTTL'' \<and> none_of flags [ObjPERSIST, ObjSetEX, ObjEXAT, ObjSetPX, ObjPXAT] \<and> ct = CommandSet
      then OptFlags (flags OR ObjSetKeepTTL)
      else if EqualFold opt ''PERSIST'' \<and> none_of flags [ObjSetEX, ObjEXAT, ObjSetPX, ObjPXAT, ObjSetKeepTTL] \<and> ct = CommandGet
      then OptFlags (flags OR ObjPERSIST)
      else if fmtOpt = ''EX'' \<and> none_of flags [ObjSetKeepTTL, ObjPERSIST, ObjEXAT, ObjPXAT, ObjSetPX] \<and> has_next
      then OptExpire (flags OR ObjSetEX) None
      else if fmtOpt = ''PX'' \<and> none_of flags [ObjSetKeepTTL, ObjPERSIST, ObjSetEX, ObjEXAT, ObjPXAT] \<and> has_next
      then OptExpire (flags OR ObjSetPX) (Some UintMilliseconds)
      else if fmtOpt = ''EXAT'' \<and> none_of flags [ObjSetKeepTTL, ObjPERSIST, ObjSetEX, ObjPXAT, ObjSetPX] \<and> has_next
      then OptExpire (flags OR ObjEXAT) None
      else if fmtOpt = ''PXAT'' \<and> none_of flags [ObjSetKeepTTL, ObjPERSIST, ObjSetEX, ObjEXAT, ObjSetPX] \<and> has_next
      then OptExpire (flags OR ObjPXAT) (Some UintMilliseconds)
      else OptSyntax)"

record parsed_options =
  po_flags :: int64
  po_expire :: objptr
  po_unit :: int
  po_ok :: bool

text \<open>The option at \<open>j\<close>, unless it is no string, and the argument after it (nil for the last one).\<close>

definition option_at :: "session \<Rightarrow> int \<Rightarrow> (string \<times> objptr) option go" where
  "option_at s j =
     gobind (arg_obj s j) (\<lambda>ob.
       case obj_Value ob of
         AString opt \<Rightarrow>
           gobind (if j = cl_argc (ss_client s) - 1 then Ret None else slice_get (cl_argv (ss_client s)) (j + 1))
             (\<lambda>next. Ret (Some (opt, next)))
       | _ \<Rightarrow> Ret None)"

definition options_syntax :: "parsed_options \<Rightarrow> session \<Rightarrow> (parsed_options \<times> session) go" where
  "options_syntax po s = gobind (on_client (AddReply SharedSyntaxErr) s) (\<lambda>s1. Ret (po, s1))"

text \<open>
  The loop over the options. The result \<open>ok\<close> is the one the type assertion of the last option assigned: a
  syntax error returns without clearing it.
\<close>

function options_loop :: "CommandType \<Rightarrow> int \<Rightarrow> int64 \<Rightarrow> objptr \<Rightarrow> int \<Rightarrow> session \<Rightarrow> (parsed_options \<times> session) go" where
  "options_loop ct j flags expire unit s =
     (if \<not> j < cl_argc (ss_client s) then Ret (\<lparr>po_flags = flags, po_expire = expire, po_unit = unit, po_ok = True\<rparr>, s)
      else
        gobind (option_at s j) (\<lambda>r.
          case r of
            None \<Rightarrow> options_syntax \<lparr>po_flags = flags, po_expire = expire, po_unit = unit, po_ok = False\<rparr> s
          | Some (opt, next) \<Rightarrow>
              (case option_step opt flags ct (next \<noteq> None) of
                 OptFlags fl \<Rightarrow> options_loop ct (j + 1) fl expire unit s
               | OptExpire fl un \<Rightarrow> options_loop ct (j + 2) fl next (case un of None \<Rightarrow> unit | Some u \<Rightarrow> u) s
               | OptSyntax \<Rightarrow>
                   options_syntax \<lparr>po_flags = flags, po_expire = expire, po_unit = unit, po_ok = True\<rparr> s)))"
  by pat_completeness auto
termination
  by (relation "measure (\<lambda>(ct, j, flags, expire, unit, s). nat (cl_argc (ss_client s) - j))") auto

declare options_loop.simps [simp del]

definition parseExtendedStringArgumentsOrReply :: "int64 \<Rightarrow> CommandType \<Rightarrow> session \<Rightarrow> (parsed_options \<times> session) go" where
  "parseExtendedStringArgumentsOrReply flags ct s =
     options_loop ct (if ct = CommandGet then 2 else 3) flags None 0 s"

section \<open>Expire times\<close>

definition getExpireMillisecondsOrReply :: "objptr \<Rightarrow> int64 \<Rightarrow> int \<Rightarrow> session \<Rightarrow> ((uint64 \<times> bool) \<times> session) go" where
  "getExpireMillisecondsOrReply expire flags unit s =
     gobind (case expire of None \<Rightarrow> Ret None
             | Some a \<Rightarrow> gobind (deref (st_objs (ss_store s)) expire) (\<lambda>ob. Ret (Some ob))) (\<lambda>ob.
     gobind (getLongLongFromObject ob) (\<lambda>ret.
       if ret = 0 then
         gobind (on_client (AddReplyError ''invalid expire time in SETEX'') s) (\<lambda>s1. Ret ((0, False), s1))
       else if (unit = UintSeconds \<and> ret > 9223372036) \<or> (unit = UintMilliseconds \<and> ret > 9223372036854775) then
         gobind (AddReplyErrorExpireTime s) (\<lambda>s1. Ret ((0, False), s1))
       else Ret ((if unit = UintSeconds then ret * 1000 else ret, True), s)))"

section \<open>SET and GET\<close>

text \<open>A database operation in a session.\<close>

definition on_store :: "(store \<Rightarrow> ('a \<times> store) go) \<Rightarrow> session \<Rightarrow> ('a \<times> session) go" where
  "on_store f s = gobind (f (ss_store s)) (\<lambda>(x, st). Ret (x, s\<lparr>ss_store := st\<rparr>))"

definition setkey_flags :: "int64 \<Rightarrow> objptr \<Rightarrow> bool \<Rightarrow> 8 word" where
  "setkey_flags flags expire exist =
     (if flags AND ObjSetKeepTTL \<noteq> 0 \<or> expire = None then SetKeyKeepTTL else 0) OR
     (if exist then SetKeyAlreadyExists else SetKeyDoesNotExist)"

definition setGenericCommand :: "int64 \<Rightarrow> int64 \<Rightarrow> string \<Rightarrow> objptr \<Rightarrow> objptr \<Rightarrow> int \<Rightarrow> session \<Rightarrow> session go" where
  "setGenericCommand now flags key val expire unit s =
     gobind (if expire \<noteq> None then getExpireMillisecondsOrReply expire flags unit s else Ret ((0, True), s))
       (\<lambda>((milliseconds, ok), s1).
       if \<not> ok then Ret s1
       else
         gobind (on_store (LookupKeyWrite now key) s1) (\<lambda>((_, exist), s2).
           if (flags AND ObjSetXX \<noteq> 0 \<and> \<not> exist) \<or> (flags AND ObjSetNX \<noteq> 0 \<and> exist) then
             (if flags AND ObjSetGet = 0 then on_client (AddReply SharedNull3) s2 else Ret s2)
           else
             gobind (SetKey now key val (setkey_flags flags expire exist) (ss_store s2)) (\<lambda>st3.
             gobind (if expire \<noteq> None then SetExpire key milliseconds st3 else Ret st3) (\<lambda>st4.
             let s4 = s2\<lparr>ss_store := st4\<rparr> in
             if flags AND ObjSetGet = 0 then on_client (AddReply SharedOk) s4 else Ret s4))))"

abbreviation argp :: "session \<Rightarrow> int \<Rightarrow> objptr go" where
  "argp s i \<equiv> slice_get (cl_argv (ss_client s)) i"

definition cmd_Set :: "int64 \<Rightarrow> session \<Rightarrow> session go" where
  "cmd_Set now s =
     gobind (parseExtendedStringArgumentsOrReply ObjNoFlags CommandSet s) (\<lambda>(po, s1).
       if \<not> po_ok po then Ret s1
       else gobind (arg_string s1 1) (\<lambda>key. gobind (argp s1 2) (\<lambda>val.
         setGenericCommand now (po_flags po) key val (po_expire po) (po_unit po) s1)))"

definition cmd_SetNx :: "int64 \<Rightarrow> session \<Rightarrow> session go" where
  "cmd_SetNx now s =
     gobind (arg_string s 1) (\<lambda>key. gobind (argp s 2) (\<lambda>val. setGenericCommand now ObjSetNX key val None 0 s))"

definition cmd_SetEx :: "int64 \<Rightarrow> session \<Rightarrow> session go" where
  "cmd_SetEx now s =
     gobind (arg_string s 1) (\<lambda>key. gobind (argp s 3) (\<lambda>val. gobind (argp s 2) (\<lambda>expire.
       setGenericCommand now ObjSetEX key val expire UintSeconds s)))"

definition cmd_PSetEx :: "int64 \<Rightarrow> session \<Rightarrow> session go" where
  "cmd_PSetEx now s =
     gobind (arg_string s 1) (\<lambda>key. gobind (argp s 3) (\<lambda>val. gobind (argp s 2) (\<lambda>expire.
       setGenericCommand now ObjSetPX key val expire UintMilliseconds s)))"

definition getGenericCommand :: "int64 \<Rightarrow> session \<Rightarrow> (bool \<times> session) go" where
  "getGenericCommand now s =
     gobind (arg_string s 1) (\<lambda>key.
     gobind (on_store (LookupKeyRead now key) s) (\<lambda>((ob, exist), s1).
       if \<not> exist then gobind (on_client (AddReply SharedNull3) s1) (\<lambda>s2. Ret (False, s2))
       else gobind (deref (st_objs (ss_store s1)) ob) (\<lambda>v.
         gobind (on_client (AddReplyBulk v) s1) (\<lambda>s2. Ret (True, s2)))))"

definition cmd_Get :: "int64 \<Rightarrow> session \<Rightarrow> session go" where
  "cmd_Get now s = gobind (getGenericCommand now s) (\<lambda>(_, s1). Ret s1)"

declare options_loop.simps [code]

end
