(* ===== verification/StrCmd_Props.thy ===== *)
theory StrCmd_Props
  imports StrCmd Client_Input
begin

text \<open>
  The string commands of \<open>src/node/strcmd.go\<close>: SET, SETNX, SETEX, PSETEX and GET as steps on the two maps of the
  keyspace, with the replies they send; the options of SET; and the times they accept.
\<close>

section \<open>Lookups in a session\<close>

lemma raw_string_contents:
  assumes "contents objs = contents objs'" and "a < length objs" and "raw_string (objs ! a) v"
  shows "raw_string (objs' ! a) v"
proof -
  have "content (objs ! a) = content (objs' ! a)"
    using assms(1,2) contents_length [OF assms(1)] unfolding contents_def by (metis nth_map)
  with assms(3) show ?thesis by (simp add: content_def raw_string_def EncodingObject_def)
qed

lemma LookupKeyWrite_rep:
  assumes "db_rep st D E"
  shows "\<exists>st'. LookupKeyWrite now key st = Ret (case D key of None \<Rightarrow> (None, False) | Some p \<Rightarrow> (p, True), st') \<and>
    db_rep st' D E \<and> contents (st_objs st') = contents (st_objs st) \<and>
    db_dict (st_db st') = db_dict (st_db st) \<and> db_expire (st_db st') = db_expire (st_db st)"
  unfolding LookupKeyWrite_def lookupKeyWriteWithFlags_def
  using lookupKey_rep [OF assms, of now key "LookupNone OR LookupWrite"] by blast

lemma LookupKeyRead_rep:
  assumes "db_rep st D E"
  shows "\<exists>st'. LookupKeyRead now key st = Ret (case D key of None \<Rightarrow> (None, False) | Some p \<Rightarrow> (p, True), st') \<and>
    db_rep st' D E \<and> contents (st_objs st') = contents (st_objs st)"
  unfolding LookupKeyRead_def lookupKeyReadWithFlags_def using lookupKey_rep [OF assms, of now key LookupNone] by blast

definition null_reply :: string where
  "null_reply = ''_'' @ CRLF"

definition ok_reply :: string where
  "ok_reply = ''OK'' @ CRLF"

lemma raw_shared [simp]: "raw_string SharedNull3 null_reply" "raw_string SharedOk ok_reply"
  "raw_string SharedSyntaxErr (''-ERR syntax error'' @ CRLF)"
  using raw_string_create by (simp_all add: SharedNull3_def SharedOk_def SharedSyntaxErr_def null_reply_def ok_reply_def)

lemma reply_in_session:
  assumes "raw_string ob v" and "connected (ss_client s)"
  shows "on_client (AddReply ob) s = Ret (s\<lparr>ss_client := sent v (ss_client s)\<rparr>)"
  by (rule on_client_Ret) (rule AddReply_sent [OF assms])

section \<open>An empty keyspace\<close>

lemma one_bucket_rep: "represents (one_bucket :: 'v hashtable) Map.empty 0"
  using NewHashTable_represents [of 1, where ?'a = 'v] by (auto simp: NewHashTable_def one_bucket_def)

lemma vacant_store_rep: "db_rep (empty_store objs) Map.empty Map.empty"
  "ht_RehashingIdx (db_dict (st_db (empty_store objs))) = -1"
proof -
  show "db_rep (empty_store objs) Map.empty Map.empty"
    unfolding db_rep_def empty_store_def by (auto intro: exI one_bucket_rep)
  show "ht_RehashingIdx (db_dict (st_db (empty_store objs))) = -1" by (simp add: empty_store_def one_bucket_def)
qed

text \<open>A session for concrete runs: an open client, an empty keyspace and the given arguments.\<close>

definition text_session :: "string list \<Rightarrow> session" where
  "text_session ws = a_session (\<lambda>c. c\<lparr>cl_argv := map Some [0 ..< length ws], cl_argc := int (length ws)\<rparr>)
     (map an_object ws) []"

lemma text_session_rep:
  "db_rep (ss_store (text_session ws)) Map.empty Map.empty"
  "ht_RehashingIdx (db_dict (st_db (ss_store (text_session ws)))) < 0"
  "st_objs (ss_store (text_session ws)) = map an_object ws"
  using vacant_store_rep [of "map an_object ws"] by (simp_all add: text_session_def a_session_def) (simp add: empty_store_def)

lemma text_session_client:
  "connected (ss_client (text_session ws))" "cl_argc (ss_client (text_session ws)) = int (length ws)"
  "cl_argv (ss_client (text_session ws)) = map Some [0 ..< length ws]"
  "prepareClientToWrite (ss_client (text_session ws))" "cl_connection (ss_client (text_session ws)) = Some []"
  by (simp_all add: text_session_def a_session_def connected_def open_client_def NewClient_def prepareClientToWrite_def)

lemma text_session_arg:
  "i < length ws \<Longrightarrow> arg_string (text_session ws) (int i) = Ret (ws ! i)"
  by (simp add: arg_string_def arg_obj_def text_session_client text_session_rep deref_def an_object_def as_string_def
      createRawStringObject_def createObject_def NewRedisObj_def)

lemma an_object_raw [simp]: "raw_string (an_object v) v"
  by (simp add: an_object_def)

section \<open>GET\<close>

lemma get_rep:
  assumes rep: "db_rep (ss_store s) D E" and arg: "arg_string s 1 = Ret key" and con: "connected (ss_client s)"
    and val: "\<And>a. D key = Some (Some a) \<Longrightarrow> raw_string (st_objs (ss_store s) ! a) (v a)"
  shows "\<exists>s'. getGenericCommand now s = Ret (D key \<noteq> None, s') \<and> db_rep (ss_store s') D E \<and>
    contents (st_objs (ss_store s')) = contents (st_objs (ss_store s)) \<and>
    ss_client s' = sent (case D key of Some (Some a) \<Rightarrow> bulk (v a) | _ \<Rightarrow> null_reply) (ss_client s)"
proof -
  from LookupKeyRead_rep [OF rep, of now key] obtain st' where
    look: "LookupKeyRead now key (ss_store s) = Ret (case D key of None \<Rightarrow> (None, False) | Some p \<Rightarrow> (p, True), st')"
    and st': "db_rep st' D E" "contents (st_objs st') = contents (st_objs (ss_store s))" by blast
  let ?s1 = "s\<lparr>ss_store := st'\<rparr>"
  have con1: "connected (ss_client ?s1)" using con by simp
  show ?thesis
  proof (cases "D key")
    case None
    then show ?thesis
      using look st' reply_in_session [OF raw_shared(1) con1]
      by (simp add: getGenericCommand_def arg on_store_def)
  next
    case (Some p)
    with rep obtain a where a: "p = Some a" "a < length (st_objs (ss_store s))"
      by (auto simp: db_rep_def valid_ptr_def)
    have a': "a < length (st_objs st')" using a(2) contents_length [OF st'(2)] by simp
    have raw: "raw_string (st_objs st' ! a) (v a)"
      by (rule raw_string_contents [OF st'(2) [symmetric] a(2)]) (use val Some a in simp)
    have "on_client (AddReplyBulk (st_objs st' ! a)) ?s1 = Ret (?s1\<lparr>ss_client := sent (bulk (v a)) (ss_client ?s1)\<rparr>)"
      by (rule on_client_Ret) (rule AddReplyBulk_sent [OF raw con1])
    with look st' Some a a' show ?thesis
      by (simp add: getGenericCommand_def arg on_store_def deref_def)
  qed
qed



section \<open>SET\<close>

definition blocked :: "int64 \<Rightarrow> bool \<Rightarrow> bool" where
  "blocked flags exist \<longleftrightarrow> (flags AND ObjSetXX \<noteq> 0 \<and> \<not> exist) \<or> (flags AND ObjSetNX \<noteq> 0 \<and> exist)"

definition set_reply :: "int64 \<Rightarrow> bool \<Rightarrow> string" where
  "set_reply flags exist =
     (if flags AND ObjSetGet \<noteq> 0 then [] else if blocked flags exist then null_reply else ok_reply)"

text \<open>The flags \<open>setGenericCommand\<close> passes on, as \<open>SetKey_rep\<close> needs them.\<close>

lemma setkey_flags_facts:
  "setkey_flags fl e exist AND SetKeyAddOrUpdated = 0"
  "setkey_flags fl e exist AND SetKeyAlreadyExists \<noteq> 0 \<longleftrightarrow> exist"
  "setkey_flags fl e exist AND SetKeyDoesNotExist = 0 \<longleftrightarrow> exist"
  "setkey_flags fl e exist AND SetKeyKeepTTL = 0 \<longleftrightarrow> \<not> (fl AND ObjSetKeepTTL \<noteq> 0 \<or> e = None)"
  by (auto simp: setkey_flags_def SetKeyAddOrUpdated_def SetKeyAlreadyExists_def SetKeyDoesNotExist_def SetKeyKeepTTL_def
      bit.conj_disj_distrib2)

lemma set_step:
  assumes rep: "db_rep (ss_store s) D E" and val: "valid_ptr (st_objs (ss_store s)) val"
    and con: "connected (ss_client s)" and idle: "D key = None \<Longrightarrow> ht_RehashingIdx (db_dict (st_db (ss_store s))) < 0"
    and time: "(if expire \<noteq> None then getExpireMillisecondsOrReply expire flags unit s else Ret ((0, True), s)) = Ret ((ms, True), s)"
    and keep: "expire \<noteq> None \<Longrightarrow> flags AND ObjSetKeepTTL = 0"
  shows "\<exists>s'. setGenericCommand now flags key val expire unit s = Ret s' \<and>
    db_rep (ss_store s') (if blocked flags (D key \<noteq> None) then D else D(key \<mapsto> val))
      (if blocked flags (D key \<noteq> None) \<or> expire = None then E else E(key \<mapsto> ms)) \<and>
    contents (st_objs (ss_store s')) = contents (st_objs (ss_store s)) \<and>
    ss_client s' = sent (set_reply flags (D key \<noteq> None)) (ss_client s)"
proof -
  let ?exist = "D key \<noteq> None"
  from LookupKeyWrite_rep [OF rep, of now key] obtain st2 where
    look: "LookupKeyWrite now key (ss_store s) = Ret (case D key of None \<Rightarrow> (None, False) | Some p \<Rightarrow> (p, True), st2)"
    and st2: "db_rep st2 D E" "contents (st_objs st2) = contents (st_objs (ss_store s))"
      "db_dict (st_db st2) = db_dict (st_db (ss_store s))" by blast
  let ?s2 = "s\<lparr>ss_store := st2\<rparr>"
  have look': "on_store (LookupKeyWrite now key) s = Ret ((case D key of None \<Rightarrow> None | Some p \<Rightarrow> p, ?exist), ?s2)"
    using look by (cases "D key") (simp_all add: on_store_def)
  have con2: "connected (ss_client (s\<lparr>ss_store := st\<rparr>))" for st using con by simp
  show ?thesis
  proof (cases "blocked flags ?exist")
    case True
    then show ?thesis
      using look' time st2 reply_in_session [OF raw_shared(1) con2, of st2]
      by (cases "flags AND ObjSetGet = 0") (auto simp: setGenericCommand_def blocked_def set_reply_def)
  next
    case False
    let ?fl = "setkey_flags flags expire ?exist"
    have val2: "valid_ptr (st_objs st2) val" using val valid_ptr_contents [OF st2(2)] by simp
    obtain st3 where st3: "SetKey now key val ?fl st2 = Ret st3" "contents (st_objs st3) = contents (st_objs st2)"
      "db_rep st3 (D(key \<mapsto> val)) (if expire = None then E else E(key := None))"
    proof -
      have "\<exists>st3. SetKey now key val ?fl st2 = Ret st3 \<and> contents (st_objs st3) = contents (st_objs st2) \<and>
          db_rep st3 (D(key \<mapsto> val)) (if ?fl AND SetKeyKeepTTL = 0 then E(key := None) else E)"
        by (rule SetKey_rep [OF st2(1) val2])
          (use idle st2(3) in \<open>auto simp: setkey_flags_facts taken_as_existing_def\<close>)
      moreover have "?fl AND SetKeyKeepTTL = 0 \<longleftrightarrow> expire \<noteq> None"
        unfolding setkey_flags_facts using keep by auto
      ultimately show ?thesis using that by (cases "expire = None") auto
    qed
    obtain st4 where st4: "(if expire \<noteq> None then SetExpire key ms st3 else Ret st3) = Ret st4"
      "st_objs st4 = st_objs st3" "db_rep st4 (D(key \<mapsto> val)) (if expire = None then E else E(key \<mapsto> ms))"
    proof (cases "expire = None")
      case True
      with st3 that show ?thesis by simp
    next
      case False
      with st3(3) have "db_rep st3 (D(key \<mapsto> val)) (E(key := None))" by simp
      from SetExpire_rep [OF this, of key ms] False that show ?thesis by auto
    qed
    show ?thesis
      using False look' time st2 st3 st4 reply_in_session [OF raw_shared(2) con2, of st4]
      by (cases "flags AND ObjSetGet = 0") (auto simp: setGenericCommand_def blocked_def set_reply_def)
  qed
qed

text \<open>
  C9: SET without a time, of a valid object and on an open client, binds the key to the value, unless NX meets a key that is there or XX
  one that is not; it answers with the ok reply or the null of RESP3, or nothing under GET; an expire time the key had stays, with or without
  KEEPTTL. A key that is not there yet is only covered outside a rehash (see \<open>Dict_Hang\<close> for what an addition does within one).
\<close>

theorem setGenericCommand_sets:
  assumes "db_rep (ss_store s) D E" and "valid_ptr (st_objs (ss_store s)) val" and "connected (ss_client s)"
    and "D key = None \<Longrightarrow> ht_RehashingIdx (db_dict (st_db (ss_store s))) < 0"
  shows "\<exists>s'. setGenericCommand now flags key val None unit s = Ret s' \<and>
    db_rep (ss_store s') (if blocked flags (D key \<noteq> None) then D else D(key \<mapsto> val)) E \<and>
    contents (st_objs (ss_store s')) = contents (st_objs (ss_store s)) \<and>
    ss_client s' = sent (set_reply flags (D key \<noteq> None)) (ss_client s)"
  using set_step [OF assms, where key = key and expire = None and flags = flags and unit = unit and ms = 0 and now = now] by simp

theorem setGenericCommand_sets_witness:
  "\<exists>s'. setGenericCommand 0 ObjSetNX ''k'' (Some 2) None 0 (text_session [''SETNX'', ''k'', ''v'']) = Ret s' \<and>
     db_rep (ss_store s') [''k'' \<mapsto> Some 2] Map.empty \<and> cl_connection (ss_client s') = Some ok_reply"
proof -
  let ?s = "text_session [''SETNX'', ''k'', ''v'']"
  have "valid_ptr (st_objs (ss_store ?s)) (Some 2)" by (simp add: valid_ptr_def text_session_rep)
  moreover have "\<not> blocked ObjSetNX False" "set_reply ObjSetNX False = ok_reply"
    by (simp_all add: blocked_def set_reply_def obj_flag_defs)
  ultimately show ?thesis
    using setGenericCommand_sets [OF text_session_rep(1) _ text_session_client(1), where val = "Some 2" and key = "''k''"
        and now = 0 and flags = ObjSetNX and unit = 0]
    by (fastforce simp: text_session_rep(2) text_session_client sent_output)
qed

section \<open>Expire times\<close>

text \<open>The time an object gives, in milliseconds, when it is accepted.\<close>

definition accepted_time :: "int \<Rightarrow> uint64 \<Rightarrow> bool" where
  "accepted_time unit n \<longleftrightarrow> n \<noteq> 0 \<and> \<not> (unit = UintSeconds \<and> n > 9223372036) \<and>
     \<not> (unit = UintMilliseconds \<and> n > 9223372036854775)"

definition in_milliseconds :: "int \<Rightarrow> uint64 \<Rightarrow> uint64" where
  "in_milliseconds unit n = (if unit = UintSeconds then n * 1000 else n)"

lemma expire_number:
  assumes "a < length (st_objs (ss_store s))" and "EncodingObject (st_objs (ss_store s) ! a)"
    and "obj_Value (st_objs (ss_store s) ! a) = AUint64 n" and "accepted_time unit n"
  shows "getExpireMillisecondsOrReply (Some a) flags unit s = Ret ((in_milliseconds unit n, True), s)"
  using assms by (auto simp: getExpireMillisecondsOrReply_def deref_def getLongLongFromObject_def accepted_time_def
      in_milliseconds_def)

lemma expire_text:
  assumes "a < length (st_objs (ss_store s))" and "raw_string (st_objs (ss_store s) ! a) v" and "connected (ss_client s)"
  shows "getExpireMillisecondsOrReply (Some a) flags unit s =
    Ret ((0, False), s\<lparr>ss_client := sent (''invalid expire time in SETEX'' @ CRLF) (ss_client s)\<rparr>)"
  using assms by (simp add: getExpireMillisecondsOrReply_def deref_def getLongLongFromObject_def raw_string_def
      on_client_def reply_simps)

text \<open>
  SET with a time given as a number of the right range stores the value and the time, in milliseconds, in place of
  any time the key had.
\<close>

theorem setGenericCommand_expire:
  assumes "db_rep (ss_store s) D E" and "valid_ptr (st_objs (ss_store s)) val" and "connected (ss_client s)"
    and "D key = None \<Longrightarrow> ht_RehashingIdx (db_dict (st_db (ss_store s))) < 0"
    and "a < length (st_objs (ss_store s))" and "EncodingObject (st_objs (ss_store s) ! a)"
    and "obj_Value (st_objs (ss_store s) ! a) = AUint64 n" and "accepted_time unit n"
    and "flags AND ObjSetKeepTTL = 0" and "\<not> blocked flags (D key \<noteq> None)"
  shows "\<exists>s'. setGenericCommand now flags key val (Some a) unit s = Ret s' \<and>
    db_rep (ss_store s') (D(key \<mapsto> val)) (E(key \<mapsto> in_milliseconds unit n)) \<and>
    ss_client s' = sent (set_reply flags (D key \<noteq> None)) (ss_client s)"
  using set_step [OF assms(1-4), where key = key and expire = "Some a" and flags = flags and unit = unit
      and ms = "in_milliseconds unit n" and now = now] expire_number [OF assms(5-8), of flags] assms(9,10) by auto

theorem setGenericCommand_expire_witness:
  "\<exists>s'. setGenericCommand 0 ObjSetEX ''k'' (Some 0) (Some 0) UintSeconds
       (a_session id [an_object ''v''\<lparr>obj_Value := AUint64 10\<rparr>] []) = Ret s' \<and>
     db_rep (ss_store s') [''k'' \<mapsto> Some 0] [''k'' \<mapsto> 10000]"
proof -
  let ?s = "a_session id [an_object ''v''\<lparr>obj_Value := AUint64 10\<rparr>] []"
  have rep: "db_rep (ss_store ?s) Map.empty Map.empty" "ht_RehashingIdx (db_dict (st_db (ss_store ?s))) < 0"
    using vacant_store_rep by (simp_all add: a_session_def)
  have ok: "valid_ptr (st_objs (ss_store ?s)) (Some 0)" "connected (ss_client ?s)" "0 < length (st_objs (ss_store ?s))"
    "EncodingObject (st_objs (ss_store ?s) ! 0)" "obj_Value (st_objs (ss_store ?s) ! 0) = AUint64 10"
    by (simp_all add: a_session_def empty_store_def valid_ptr_def an_object_def createRawStringObject_def createObject_def
        NewRedisObj_def EncodingObject_def)
  have time: "accepted_time UintSeconds 10" "in_milliseconds UintSeconds 10 = 10000"
    "ObjSetEX AND ObjSetKeepTTL = 0" "\<not> blocked ObjSetEX False"
    by (simp_all add: accepted_time_def in_milliseconds_def blocked_def obj_flag_defs UintSeconds_def UintMilliseconds_def)
  from setGenericCommand_expire [OF rep(1) ok(1,2) _ ok(3-5) time(1) time(3), where key = "''k''" and now = 0] rep(2) time show ?thesis by fastforce
qed

lemma getLongLong_number:
  "getLongLongFromObject p = Ret n \<Longrightarrow> n \<noteq> 0 \<Longrightarrow> \<exists>ob. p = Some ob \<and> obj_Value ob = AUint64 n"
  by (auto simp: getLongLongFromObject_def split: option.splits if_splits goany.splits)

text \<open>
  C17: a time is only accepted from an object that holds a positive number (no text a client sends is one, see
  \<open>SetEx_rejects_text\<close>); an accepted one is converted exactly, the product does not wrap, and it is at most
  9223372036854775 milliseconds, so that it is positive as a signed number too.
\<close>

theorem getExpireMilliseconds_bounds:
  assumes "getExpireMillisecondsOrReply expire flags unit s = Ret ((ms, True), s')"
    and "unit = UintSeconds \<or> unit = UintMilliseconds"
  shows "s' = s \<and>
    (\<exists>a n. expire = Some a \<and> obj_Value (st_objs (ss_store s) ! a) = AUint64 n \<and> accepted_time unit n \<and>
       unat ms = unat n * (if unit = UintSeconds then 1000 else 1)) \<and>
    0 < unat ms \<and> unat ms \<le> 9223372036854775"
proof -
  from assms(1) obtain ob n where ob: "(case expire of None \<Rightarrow> Ret None
      | Some a \<Rightarrow> gobind (deref (st_objs (ss_store s)) expire) (\<lambda>ob. Ret (Some ob))) = Ret ob"
    and ret: "getLongLongFromObject ob = Ret n"
    and n: "accepted_time unit n" and s': "s' = s" and ms: "ms = in_milliseconds unit n"
    unfolding getExpireMillisecondsOrReply_def accepted_time_def in_milliseconds_def
    by (elim gobindE) (auto split: if_splits elim!: gobindE)
  obtain a where a: "expire = Some a" "obj_Value (st_objs (ss_store s) ! a) = AUint64 n"
    using ob getLongLong_number [OF ret] n by (auto simp: deref_def accepted_time_def split: option.splits if_splits)
  have sec: "unat n \<le> 9223372036" if "unit = UintSeconds"
    using n that by (simp add: accepted_time_def word_less_nat_alt)
  have msec: "unat n \<le> 9223372036854775" if "unit = UintMilliseconds"
    using n that by (simp add: accepted_time_def word_less_nat_alt)
  have "unat ms = unat n * (if unit = UintSeconds then 1000 else 1)"
    using sec unfolding ms in_milliseconds_def
    by (cases "unit = UintSeconds") (simp_all add: unat_word_ariths)
  moreover have "0 < unat n" using n by (simp add: accepted_time_def unat_gt_0)
  ultimately show ?thesis using a n s' sec msec assms(2) by auto
qed

text \<open>The greatest time in seconds; one more is answered with an error.\<close>

definition number_session :: "uint64 \<Rightarrow> session" where
  "number_session n = a_session id [an_object ''v''\<lparr>obj_Value := AUint64 n\<rparr>] []"

theorem getExpireMilliseconds_bounds_witness:
  "\<exists>ms. getExpireMillisecondsOrReply (Some 0) 0 UintSeconds (number_session 9223372036) = Ret ((ms, True), number_session 9223372036) \<and>
     unat ms = 9223372036000 \<and> unat ms \<le> 9223372036854775"
proof -
  let ?s = "number_session 9223372036"
  have val: "obj_Value (st_objs (ss_store ?s) ! 0) = AUint64 9223372036"
    by (simp add: number_session_def a_session_def empty_store_def an_object_def)
  have run: "getExpireMillisecondsOrReply (Some 0) 0 UintSeconds ?s = Ret ((in_milliseconds UintSeconds 9223372036, True), ?s)"
    by (rule expire_number) (simp_all add: val, simp_all add: number_session_def a_session_def empty_store_def an_object_def
        createRawStringObject_def createObject_def NewRedisObj_def EncodingObject_def accepted_time_def UintSeconds_def UintMilliseconds_def)
  from getExpireMilliseconds_bounds [OF run] val have "unat (in_milliseconds UintSeconds 9223372036) = 9223372036000"
    "unat (in_milliseconds UintSeconds 9223372036) \<le> 9223372036854775" by auto
  with run show ?thesis by blast
qed

text \<open>
  a time that comes from a client is text, and no text is accepted: SETEX and PSETEX answer with an error and leave the
  database as it is, whatever number the text spells.
\<close>

theorem SetEx_rejects_text:
  assumes "arg_string s 1 = Ret key" and "slice_get (cl_argv (ss_client s)) 2 = Ret (Some a)"
    and "slice_get (cl_argv (ss_client s)) 3 = Ret val"
    and "a < length (st_objs (ss_store s))" and "raw_string (st_objs (ss_store s) ! a) v" and "connected (ss_client s)"
  shows "\<exists>s'. cmd_SetEx now s = Ret s' \<and> cmd_PSetEx now s = Ret s' \<and> ss_store s' = ss_store s \<and>
    ss_client s' = sent (''invalid expire time in SETEX'' @ CRLF) (ss_client s)"
  using assms expire_text [OF assms(4-6)]
  by (simp add: cmd_SetEx_def cmd_PSetEx_def setGenericCommand_def)

theorem SetEx_rejects_text_witness:
  "\<exists>s'. cmd_SetEx 0 (text_session [''SETEX'', ''k'', ''10'', ''v'']) = Ret s' \<and>
     cl_connection (ss_client s') = Some (''invalid expire time in SETEX'' @ CRLF)"
proof -
  let ?s = "text_session [''SETEX'', ''k'', ''10'', ''v'']"
  have args: "arg_string ?s 1 = Ret ''k''" "slice_get (cl_argv (ss_client ?s)) 2 = Ret (Some 2)"
    "slice_get (cl_argv (ss_client ?s)) 3 = Ret (Some 3)"
    using text_session_arg [of 1 "[''SETEX'', ''k'', ''10'', ''v'']"]
    by (simp_all add: text_session_client slice_get_def)
  have "2 < length (st_objs (ss_store ?s))" "raw_string (st_objs (ss_store ?s) ! 2) ''10''"
    by (simp_all add: text_session_rep)
  from SetEx_rejects_text [OF args this text_session_client(1), of 0] show ?thesis
    by (auto simp: sent_output text_session_client)
qed

section \<open>Options\<close>

text \<open>At most one of the options on the time to live, and not both NX and XX.\<close>

definition ttl_options :: "int64 list" where
  "ttl_options = [ObjSetKeepTTL, ObjPERSIST, ObjSetEX, ObjSetPX, ObjEXAT, ObjPXAT]"

definition compatible :: "int64 \<Rightarrow> bool" where
  "compatible flags \<longleftrightarrow> (flags AND ObjSetNX = 0 \<or> flags AND ObjSetXX = 0) \<and>
     length (filter (\<lambda>f. flags AND f \<noteq> 0) ttl_options) \<le> 1"

lemma flag_on:
  "(flags AND ObjSetNX = 0) = (\<not> bit flags 0)"
  "(flags AND ObjSetXX = 0) = (\<not> bit flags 1)"
  "(flags AND ObjSetEX = 0) = (\<not> bit flags 2)"
  "(flags AND ObjSetPX = 0) = (\<not> bit flags 3)"
  "(flags AND ObjSetKeepTTL = 0) = (\<not> bit flags 4)"
  "(flags AND ObjSetGet = 0) = (\<not> bit flags 5)"
  "(flags AND ObjEXAT = 0) = (\<not> bit flags 6)"
  "(flags AND ObjPXAT = 0) = (\<not> bit flags 7)"
  "(flags AND ObjPERSIST = 0) = (\<not> bit flags 8)"
  for flags :: int64
  using and_exp_eq_0_iff_not_bit [of flags 0] and_exp_eq_0_iff_not_bit [of flags 1] and_exp_eq_0_iff_not_bit [of flags 2]
    and_exp_eq_0_iff_not_bit [of flags 3] and_exp_eq_0_iff_not_bit [of flags 4] and_exp_eq_0_iff_not_bit [of flags 5]
    and_exp_eq_0_iff_not_bit [of flags 6] and_exp_eq_0_iff_not_bit [of flags 7] and_exp_eq_0_iff_not_bit [of flags 8]
  by (simp_all add: obj_flag_defs)

lemma pow_bit: "n < 64 \<Longrightarrow> bit ((2 :: int64) ^ n) k = (k = n)"
  by (auto simp: bit_exp_iff possible_bit_def)

lemma flag_pow: "ObjSetNX = 2 ^ 0" "ObjSetXX = 2 ^ 1" "ObjSetEX = 2 ^ 2" "ObjSetPX = 2 ^ 3" "ObjSetKeepTTL = 2 ^ 4"
  "ObjSetGet = 2 ^ 5" "ObjEXAT = 2 ^ 6" "ObjPXAT = 2 ^ 7" "ObjPERSIST = 2 ^ 8"
  by (simp_all add: obj_flag_defs)

lemma flag_bit:
  "bit ObjSetNX k = (k = 0)"
  "bit ObjSetXX k = (k = 1)"
  "bit ObjSetEX k = (k = 2)"
  "bit ObjSetPX k = (k = 3)"
  "bit ObjSetKeepTTL k = (k = 4)"
  "bit ObjSetGet k = (k = 5)"
  "bit ObjEXAT k = (k = 6)"
  "bit ObjPXAT k = (k = 7)"
  "bit ObjPERSIST k = (k = 8)"
  unfolding flag_pow by (rule pow_bit, simp)+

text \<open>The flags of an effect stay compatible; branch by branch, from the guard of the branch alone.\<close>

definition effect_ok :: "option_effect \<Rightarrow> bool" where
  "effect_ok r = (case r of OptSyntax \<Rightarrow> True | OptFlags fl \<Rightarrow> compatible fl | OptExpire fl _ \<Rightarrow> compatible fl)"

lemma effect_ok_simps [simp]:
  "effect_ok OptSyntax" "effect_ok (OptFlags fl) = compatible fl" "effect_ok (OptExpire fl un) = compatible fl"
  by (simp_all add: effect_ok_def)

lemma effect_ok_if: "(b \<Longrightarrow> effect_ok x) \<Longrightarrow> effect_ok y \<Longrightarrow> effect_ok (if b then x else y)"
  by simp

lemma compatible_bits:
  "compatible flags \<longleftrightarrow> (\<not> bit flags 0 \<or> \<not> bit flags 1) \<and> length (filter (bit flags) [4, 8, 2, 3, 6, 7]) \<le> 1"
  unfolding compatible_def ttl_options_def filter.simps flag_on by simp

lemma none_of_bits:
  "none_of flags [] = True" "none_of flags (f # fs) = (flags AND f = 0 \<and> none_of flags fs)"
  by simp_all

lemma option_step_compatible: "compatible flags \<Longrightarrow> effect_ok (option_step opt flags ct b)"
  unfolding option_step_def Let_def none_of_bits
  by (intro effect_ok_if; (elim conjE)?; simp add: flag_on compatible_bits bit_or_iff flag_bit split: if_splits)

text \<open>One round of the loop over the options: it ends with the flags it has, or goes on with those of an option.\<close>

lemma options_loopE:
  assumes "options_loop ct j flags expire unit s = Ret (po, s')"
  obtains (ends) "po_flags po = flags"
  | (flags) opt fl b where "j < cl_argc (ss_client s)" "option_step opt flags ct b = OptFlags fl"
      "options_loop ct (j + 1) fl expire unit s = Ret (po, s')"
  | (expire) opt fl un b nx where "j < cl_argc (ss_client s)" "option_step opt flags ct b = OptExpire fl un"
      "options_loop ct (j + 2) fl nx (case un of None \<Rightarrow> unit | Some u \<Rightarrow> u) s = Ret (po, s')"
proof (cases "j < cl_argc (ss_client s)")
  case False
  with assms have "po = \<lparr>po_flags = flags, po_expire = expire, po_unit = unit, po_ok = True\<rparr>"
    by (subst (asm) options_loop.simps) simp
  then show thesis using ends by simp
next
  case True
  have syn: "options_syntax q s = Ret (po, s') \<Longrightarrow> po = q" for q by (auto simp: options_syntax_def elim!: gobindE)
  from True show thesis
    using assms ends flags expire
    by (subst (asm) (1) options_loop.simps) (auto elim!: gobindE dest!: syn split: option.splits option_effect.splits)
qed

lemma options_loop_compatible:
  "compatible flags \<Longrightarrow> options_loop ct j flags expire unit s = Ret (po, s') \<Longrightarrow> compatible (po_flags po)"
proof (induction "nat (cl_argc (ss_client s) - j)" arbitrary: j flags expire unit rule: less_induct)
  case less
  note effect = option_step_compatible [OF less.prems(1)]
  from less.prems(2) show ?case
  proof (cases rule: options_loopE)
    case ends
    with less.prems(1) show ?thesis by simp
  next
    case (flags opt fl b)
    with effect [of opt ct b] have "compatible fl" by simp
    from less.hyps [OF _ this flags(3)] flags(1) show ?thesis by simp
  next
    case (expire opt fl un b nx)
    with effect [of opt ct b] have "compatible fl" by simp
    from less.hyps [OF _ this expire(3)] expire(1) show ?thesis by simp
  qed
qed

text \<open>
  C18: the options of SET and GET are parsed into compatible flags, in every order and number: never NX with XX, and at
  most one of EX, PX, EXAT, PXAT, KEEPTTL and PERSIST; also what was read before a syntax error.
\<close>

theorem parse_options_compatible:
  assumes "parseExtendedStringArgumentsOrReply flags ct s = Ret (po, s')" and "compatible flags"
  shows "compatible (po_flags po)"
  using options_loop_compatible [OF assms(2)] assms(1) unfolding parseExtendedStringArgumentsOrReply_def by blast

theorem parse_options_compatible_witness:
  "\<exists>po s'. parseExtendedStringArgumentsOrReply ObjNoFlags CommandSet (text_session [''SET'', ''k'', ''v'', ''nx'', ''Ex'', ''10'', ''GET'']) = Ret (po, s') \<and>
     po_flags po = ObjSetNX OR ObjSetEX OR ObjSetGet \<and> po_expire po = Some 5 \<and> compatible (po_flags po)"
proof -
  let ?run = "parseExtendedStringArgumentsOrReply ObjNoFlags CommandSet (text_session [''SET'', ''k'', ''v'', ''nx'', ''Ex'', ''10'', ''GET''])"
  have "(case ?run of Some (Inr (po, s')) \<Rightarrow> po_flags po = ObjSetNX OR ObjSetEX OR ObjSetGet \<and> po_expire po = Some 5 | _ \<Rightarrow> False) \<and>
      compatible ObjNoFlags"
    by code_simp
  then obtain po s' where run: "?run = Ret (po, s')" "po_flags po = ObjSetNX OR ObjSetEX OR ObjSetGet" "po_expire po = Some 5"
    and "compatible ObjNoFlags" by (auto split: option.splits sum.splits)
  with parse_options_compatible [OF run(1)] show ?thesis by blast
qed

end
