(* ===== verification/StrCmd_Options.thy ===== *)
theory StrCmd_Options
  imports StrCmd_Props
begin

text \<open>
  The options of SET in \<open>src/node/strcmd.go\<close>: what a list of options means, stated without flags, the loop over the options as an
  implementation of that meaning, and SET with any options on a client whose arguments are text.
\<close>

section \<open>What the options mean\<close>

text \<open>
  The options of SET as a value that cannot hold contradicting ones, read from the words after the value: NX and XX, GET,
  and at most one option on the time to live; reading stops at the first word that is no option there, which is a syntax error.
\<close>

datatype set_condition = Always | OnlyNew | OnlyOld

datatype ttl_option = NoTtl | KeepTtl | ExTtl | PxTtl | ExAtTtl | PxAtTtl

record set_options =
  so_condition :: set_condition
  so_get :: bool
  so_ttl :: ttl_option
  so_error :: bool

definition plain_set :: set_options where
  "plain_set = \<lparr>so_condition = Always, so_get = False, so_ttl = NoTtl, so_error = False\<rparr>"

definition time_option :: "string \<Rightarrow> ttl_option" where
  "time_option w =
     (if ToUpper w = ''EX'' then ExTtl else if ToUpper w = ''PX'' then PxTtl
      else if ToUpper w = ''EXAT'' then ExAtTtl else if ToUpper w = ''PXAT'' then PxAtTtl else NoTtl)"

fun read_options :: "string list \<Rightarrow> set_options \<Rightarrow> set_options" where
  "read_options [] so = so"
| "read_options (w # ws) so =
     (if ToUpper w = ''NX'' \<and> so_condition so \<noteq> OnlyOld then read_options ws (so\<lparr>so_condition := OnlyNew\<rparr>)
      else if ToUpper w = ''XX'' \<and> so_condition so \<noteq> OnlyNew then read_options ws (so\<lparr>so_condition := OnlyOld\<rparr>)
      else if ToUpper w = ''GET'' then read_options ws (so\<lparr>so_get := True\<rparr>)
      else if EqualFold w ''KEEPTTL'' \<and> so_ttl so \<in> {NoTtl, KeepTtl} then read_options ws (so\<lparr>so_ttl := KeepTtl\<rparr>)
      else if time_option w \<noteq> NoTtl \<and> so_ttl so \<in> {NoTtl, time_option w} \<and> ws \<noteq> []
      then read_options (tl ws) (so\<lparr>so_ttl := time_option w\<rparr>)
      else so\<lparr>so_error := True\<rparr>)"

declare read_options.simps(2) [simp del]
declare read_options.simps [code]

definition takes_time :: "set_options \<Rightarrow> bool" where
  "takes_time so \<longleftrightarrow> so_ttl so \<notin> {NoTtl, KeepTtl}"

definition refused :: "set_options \<Rightarrow> bool \<Rightarrow> bool" where
  "refused so exist \<longleftrightarrow> so_condition so = OnlyNew \<and> exist \<or> so_condition so = OnlyOld \<and> \<not> exist"

definition set_answer :: "set_options \<Rightarrow> bool \<Rightarrow> string" where
  "set_answer so exist = (if so_get so then [] else if refused so exist then null_reply else ok_reply)"

definition syntax_reply :: string where
  "syntax_reply = ''-ERR syntax error'' @ CRLF"

definition time_reply :: string where
  "time_reply = ''invalid expire time in SETEX'' @ CRLF"

text \<open>The flags of the code stand for such a value.\<close>

definition flags_mean :: "int64 \<Rightarrow> set_options \<Rightarrow> bool" where
  "flags_mean fl so \<longleftrightarrow> (bit fl 0 \<longleftrightarrow> so_condition so = OnlyNew) \<and> (bit fl 1 \<longleftrightarrow> so_condition so = OnlyOld) \<and>
     (bit fl 5 \<longleftrightarrow> so_get so) \<and> (bit fl 4 \<longleftrightarrow> so_ttl so = KeepTtl) \<and> (bit fl 2 \<longleftrightarrow> so_ttl so = ExTtl) \<and>
     (bit fl 3 \<longleftrightarrow> so_ttl so = PxTtl) \<and> (bit fl 6 \<longleftrightarrow> so_ttl so = ExAtTtl) \<and> (bit fl 7 \<longleftrightarrow> so_ttl so = PxAtTtl) \<and> \<not> bit fl 8"

lemma flags_mean_plain: "flags_mean ObjNoFlags plain_set"
  by (simp add: flags_mean_def plain_set_def ObjNoFlags_def)

lemma flags_mean_blocked: "flags_mean fl so \<Longrightarrow> blocked fl = refused so"
  by (auto simp: flags_mean_def blocked_def refused_def flag_on fun_eq_iff)

lemma flags_mean_answer: "flags_mean fl so \<Longrightarrow> set_reply fl = set_answer so"
  by (auto simp: set_reply_def set_answer_def flags_mean_blocked flag_on fun_eq_iff) (simp_all add: flags_mean_def)

text \<open>One option: the effect of the code is the one the meaning has.\<close>

definition effect_means :: "option_effect \<Rightarrow> string \<Rightarrow> string list \<Rightarrow> set_options \<Rightarrow> bool" where
  "effect_means r w ws so =
     (case r of
        OptSyntax \<Rightarrow> read_options (w # ws) so = so\<lparr>so_error := True\<rparr>
      | OptFlags fl \<Rightarrow> \<exists>so'. flags_mean fl so' \<and> read_options (w # ws) so = read_options ws so' \<and>
          so_error so' = so_error so \<and> takes_time so' = takes_time so
      | OptExpire fl un \<Rightarrow> \<exists>so'. flags_mean fl so' \<and> ws \<noteq> [] \<and> read_options (w # ws) so = read_options (tl ws) so' \<and>
          so_error so' = so_error so \<and> takes_time so')"

lemma effect_means_if:
  "(b \<Longrightarrow> effect_means x w ws so) \<Longrightarrow> (\<not> b \<Longrightarrow> effect_means y w ws so) \<Longrightarrow> effect_means (if b then x else y) w ws so"
  by simp

lemma flags_mean_guards:
  assumes "flags_mean fl so"
  shows "fl AND ObjSetXX = 0 \<longleftrightarrow> so_condition so \<noteq> OnlyOld" "fl AND ObjSetNX = 0 \<longleftrightarrow> so_condition so \<noteq> OnlyNew"
    "none_of fl [ObjPERSIST, ObjSetEX, ObjEXAT, ObjSetPX, ObjPXAT] \<longleftrightarrow> so_ttl so \<in> {NoTtl, KeepTtl}"
    "none_of fl [ObjSetKeepTTL, ObjPERSIST, ObjEXAT, ObjPXAT, ObjSetPX] \<longleftrightarrow> so_ttl so \<in> {NoTtl, ExTtl}"
    "none_of fl [ObjSetKeepTTL, ObjPERSIST, ObjSetEX, ObjEXAT, ObjPXAT] \<longleftrightarrow> so_ttl so \<in> {NoTtl, PxTtl}"
    "none_of fl [ObjSetKeepTTL, ObjPERSIST, ObjSetEX, ObjPXAT, ObjSetPX] \<longleftrightarrow> so_ttl so \<in> {NoTtl, ExAtTtl}"
    "none_of fl [ObjSetKeepTTL, ObjPERSIST, ObjSetEX, ObjEXAT, ObjSetPX] \<longleftrightarrow> so_ttl so \<in> {NoTtl, PxAtTtl}"
  using assms unfolding flags_mean_def none_of_bits flag_on by (cases "so_ttl so"; auto)+

lemma flags_mean_set:
  assumes "flags_mean fl so"
  shows "so_condition so \<noteq> OnlyOld \<Longrightarrow> flags_mean (fl OR ObjSetNX) (so\<lparr>so_condition := OnlyNew\<rparr>)"
    "so_condition so \<noteq> OnlyNew \<Longrightarrow> flags_mean (fl OR ObjSetXX) (so\<lparr>so_condition := OnlyOld\<rparr>)"
    "flags_mean (fl OR ObjSetGet) (so\<lparr>so_get := True\<rparr>)"
    "so_ttl so \<in> {NoTtl, KeepTtl} \<Longrightarrow> flags_mean (fl OR ObjSetKeepTTL) (so\<lparr>so_ttl := KeepTtl\<rparr>)"
    "so_ttl so \<in> {NoTtl, ExTtl} \<Longrightarrow> flags_mean (fl OR ObjSetEX) (so\<lparr>so_ttl := ExTtl\<rparr>)"
    "so_ttl so \<in> {NoTtl, PxTtl} \<Longrightarrow> flags_mean (fl OR ObjSetPX) (so\<lparr>so_ttl := PxTtl\<rparr>)"
    "so_ttl so \<in> {NoTtl, ExAtTtl} \<Longrightarrow> flags_mean (fl OR ObjEXAT) (so\<lparr>so_ttl := ExAtTtl\<rparr>)"
    "so_ttl so \<in> {NoTtl, PxAtTtl} \<Longrightarrow> flags_mean (fl OR ObjPXAT) (so\<lparr>so_ttl := PxAtTtl\<rparr>)"
  using assms by (cases "so_ttl so"; simp add: flags_mean_def bit_or_iff flag_bit)+

lemma effect_flags:
  assumes "flags_mean fl so'" and "read_options (w # ws) so = read_options ws so'"
    and "so_error so' = so_error so" and "takes_time so' = takes_time so"
  shows "effect_means (OptFlags fl) w ws so"
  using assms by (auto simp: effect_means_def)

lemma effect_expire:
  assumes "flags_mean fl so'" and "ws \<noteq> []" and "read_options (w # ws) so = read_options (tl ws) so'"
    and "so_error so' = so_error so" and "takes_time so'"
  shows "effect_means (OptExpire fl un) w ws so"
  using assms by (auto simp: effect_means_def)

lemma effect_syntax: "read_options (w # ws) so = so\<lparr>so_error := True\<rparr> \<Longrightarrow> effect_means OptSyntax w ws so"
  by (simp add: effect_means_def)

lemma option_step_means:
  assumes "flags_mean fl so"
  shows "effect_means (option_step w fl CommandSet (ws \<noteq> [])) w ws so"
  unfolding option_step_def Let_def flags_mean_guards [OF assms]
  by (intro effect_means_if effect_syntax flags_mean_set(1-3) [OF assms, THEN effect_flags] flags_mean_set(4) [OF assms, THEN effect_flags]
        flags_mean_set(5-8) [OF assms, THEN effect_expire];
      (elim conjE)?; simp add: read_options.simps(2) time_option_def takes_time_def; auto?)

section \<open>SET with any options\<close>

text \<open>The arguments of the client are the words \<open>ws\<close>.\<close>

definition text_ptr :: "redisObj list \<Rightarrow> objptr \<Rightarrow> string \<Rightarrow> bool" where
  "text_ptr objs p v \<longleftrightarrow> (\<exists>a. p = Some a \<and> a < length objs \<and> raw_string (objs ! a) v)"

definition text_args :: "session \<Rightarrow> string list \<Rightarrow> bool" where
  "text_args s ws \<longleftrightarrow> cl_argc (ss_client s) = int (length ws) \<and> list_all2 (text_ptr (st_objs (ss_store s))) (cl_argv (ss_client s)) ws"

lemma text_args_arg:
  assumes "text_args s ws" and "i < length ws"
  shows "slice_get (cl_argv (ss_client s)) (int i) = Ret (cl_argv (ss_client s) ! i)"
    and "text_ptr (st_objs (ss_store s)) (cl_argv (ss_client s) ! i) (ws ! i)"
    and "\<exists>ob. arg_obj s (int i) = Ret ob \<and> obj_Value ob = AString (ws ! i)"
    and "arg_string s (int i) = Ret (ws ! i)"
proof -
  show ptr: "text_ptr (st_objs (ss_store s)) (cl_argv (ss_client s) ! i) (ws ! i)"
    using assms by (auto simp: text_args_def list_all2_conv_all_nth)
  show get: "slice_get (cl_argv (ss_client s)) (int i) = Ret (cl_argv (ss_client s) ! i)"
    using assms by (auto simp: text_args_def slice_get_def dest: list_all2_lengthD)
  show "\<exists>ob. arg_obj s (int i) = Ret ob \<and> obj_Value ob = AString (ws ! i)"
    using ptr by (auto simp: arg_obj_def get text_ptr_def deref_def raw_string_def)
  then show "arg_string s (int i) = Ret (ws ! i)"
    by (auto simp: arg_string_def as_string_def)
qed

lemma text_args_option:
  assumes "text_args s ws" and "j < length ws"
  shows "option_at s (int j) = Ret (Some (ws ! j, if Suc j < length ws then cl_argv (ss_client s) ! Suc j else None))"
proof -
  obtain ob where ob: "arg_obj s (int j) = Ret ob" "obj_Value ob = AString (ws ! j)"
    using text_args_arg(3) [OF assms] by blast
  have "cl_argc (ss_client s) = int (length ws)" using assms(1) by (simp add: text_args_def)
  with ob assms(2) text_args_arg(1) [OF assms(1), of "Suc j"] show ?thesis
    by (auto simp: option_at_def add.commute)
qed

definition parsed :: "session \<Rightarrow> set_options \<Rightarrow> (parsed_options \<times> session) go \<Rightarrow> bool" where
  "parsed s so r \<longleftrightarrow> (\<exists>po. r = Ret (po, s\<lparr>ss_client := sent (if so_error so then syntax_reply else []) (ss_client s)\<rparr>) \<and>
     po_ok po \<and> flags_mean (po_flags po) so \<and>
     (if takes_time so then \<exists>v. text_ptr (st_objs (ss_store s)) (po_expire po) v else po_expire po = None))"

lemma flags_mean_error [simp]: "flags_mean fl (so\<lparr>so_error := b\<rparr>) = flags_mean fl so" "takes_time (so\<lparr>so_error := b\<rparr>) = takes_time so"
  by (simp_all add: flags_mean_def takes_time_def)

lemma options_loop_parsed:
  assumes args: "text_args s ws" and con: "connected (ss_client s)"
  shows "j \<le> length ws \<Longrightarrow> flags_mean fl so \<Longrightarrow> \<not> so_error so \<Longrightarrow>
    (if takes_time so then \<exists>v. text_ptr (st_objs (ss_store s)) expire v else expire = None) \<Longrightarrow>
    parsed s (read_options (drop j ws) so) (options_loop CommandSet (int j) fl expire unit s)"
proof (induction "length ws - j" arbitrary: j fl so expire unit rule: less_induct)
  case less
  have argc: "cl_argc (ss_client s) = int (length ws)" using args by (simp add: text_args_def)
  show ?case
  proof (cases "j < length ws")
    case False
    with less.prems argc show ?thesis by (subst options_loop.simps) (simp add: parsed_def)
  next
    case True
    let ?next = "if Suc j < length ws then cl_argv (ss_client s) ! Suc j else None"
    have drop: "drop j ws = ws ! j # drop (Suc j) ws" using True by (simp add: Cons_nth_drop_Suc)
    have next_ptr: "text_ptr (st_objs (ss_store s)) ?next (ws ! Suc j)" if "drop (Suc j) ws \<noteq> []"
      using that text_args_arg(2) [OF args, of "Suc j"] by simp
    have "?next \<noteq> None \<longleftrightarrow> drop (Suc j) ws \<noteq> []"
      using text_args_arg(2) [OF args, of "Suc j"] by (auto simp: text_ptr_def)
    with option_step_means [OF less.prems(2), of "ws ! j" "drop (Suc j) ws"]
    have means: "effect_means (option_step (ws ! j) fl CommandSet (?next \<noteq> None)) (ws ! j) (drop (Suc j) ws) so" by simp
    show ?thesis
    proof (cases "option_step (ws ! j) fl CommandSet (?next \<noteq> None)")
      case OptSyntax
      have "options_syntax po s = Ret (po, s\<lparr>ss_client := sent syntax_reply (ss_client s)\<rparr>)" for po
        using reply_in_session [OF raw_shared(3) con] by (simp add: options_syntax_def syntax_reply_def)
      then have "options_loop CommandSet (int j) fl expire unit s =
          Ret (\<lparr>po_flags = fl, po_expire = expire, po_unit = unit, po_ok = True\<rparr>, s\<lparr>ss_client := sent syntax_reply (ss_client s)\<rparr>)"
        using True OptSyntax by (subst options_loop.simps) (simp add: argc text_args_option [OF args True])
      moreover have "read_options (drop j ws) so = so\<lparr>so_error := True\<rparr>" using means unfolding OptSyntax by (simp add: effect_means_def drop)
      ultimately show ?thesis using less.prems by (simp add: parsed_def)
    next
      case (OptFlags fl')
      with means obtain so' where so': "flags_mean fl' so'" "read_options (drop j ws) so = read_options (drop (Suc j) ws) so'"
        "so_error so' = so_error so" "takes_time so' = takes_time so" by (auto simp: effect_means_def drop)
      have "options_loop CommandSet (int j) fl expire unit s = options_loop CommandSet (int (Suc j)) fl' expire unit s"
        using True OptFlags by (subst options_loop.simps) (simp add: argc text_args_option [OF args True] add.commute)
      with less.hyps [of "Suc j" fl' so' expire unit] True so' less.prems show ?thesis by simp
    next
      case (OptExpire fl' un)
      with means obtain so' where so': "flags_mean fl' so'" "drop (Suc j) ws \<noteq> []"
        "read_options (drop j ws) so = read_options (drop (Suc (Suc j)) ws) so'"
        "so_error so' = so_error so" "takes_time so'" by (auto simp: effect_means_def drop tl_drop drop_Suc)
      have "options_loop CommandSet (int j) fl expire unit s =
          options_loop CommandSet (int (Suc (Suc j))) fl' ?next (case un of None \<Rightarrow> unit | Some u \<Rightarrow> u) s"
        using True OptExpire by (subst options_loop.simps) (simp add: argc text_args_option [OF args True] add.commute)
      moreover have "Suc (Suc j) \<le> length ws" "length ws - Suc (Suc j) < length ws - j" using so'(2) by auto
      moreover have "\<exists>v. text_ptr (st_objs (ss_store s)) ?next v" using next_ptr so'(2) by blast
      ultimately show ?thesis using less.hyps [of "Suc (Suc j)" fl' so' ?next] so' less.prems(3) by simp
    qed
  qed
qed

text \<open>
  SET is its generic part with the flags of its options; a syntax error is sent first and stops nothing, a time ends it.
\<close>

lemma cmd_Set_options:
  assumes args: "text_args s ws" and con: "connected (ss_client s)" and "3 \<le> length ws"
    and so: "so = read_options (drop 3 ws) plain_set"
  shows "\<exists>fl unit. flags_mean fl so \<and> cmd_Set now s =
    (let s1 = s\<lparr>ss_client := sent (if so_error so then syntax_reply else []) (ss_client s)\<rparr> in
     if takes_time so then Ret (s1\<lparr>ss_client := sent time_reply (ss_client s1)\<rparr>)
     else setGenericCommand now fl (ws ! 1) (cl_argv (ss_client s) ! 2) None unit s1)"
proof -
  let ?s1 = "s\<lparr>ss_client := sent (if so_error so then syntax_reply else []) (ss_client s)\<rparr>"
  have "parsed s so (options_loop CommandSet (int 3) ObjNoFlags None 0 s)"
    unfolding so by (rule options_loop_parsed [OF args con])
      (use assms(3) flags_mean_plain in \<open>simp_all add: plain_set_def takes_time_def\<close>)
  then obtain po where po: "parseExtendedStringArgumentsOrReply ObjNoFlags CommandSet s = Ret (po, ?s1)" "po_ok po"
      "flags_mean (po_flags po) so"
      "if takes_time so then \<exists>v. text_ptr (st_objs (ss_store s)) (po_expire po) v else po_expire po = None"
    by (auto simp: parsed_def parseExtendedStringArgumentsOrReply_def)
  have args1: "text_args ?s1 ws" using args by (simp add: text_args_def)
  have "arg_string ?s1 1 = Ret (ws ! 1)" "argp ?s1 2 = Ret (cl_argv (ss_client s) ! 2)"
    using text_args_arg(4) [OF args1, of 1] text_args_arg(1) [OF args1, of 2] assms(3) by simp_all
  then have run: "cmd_Set now s = setGenericCommand now (po_flags po) (ws ! 1) (cl_argv (ss_client s) ! 2) (po_expire po) (po_unit po) ?s1"
    unfolding cmd_Set_def po(1) by (simp add: po(2) del: sent_sent)
  show ?thesis
  proof (cases "takes_time so")
    case False
    with po(3,4) run show ?thesis by (auto simp: Let_def)
  next
    case True
    with po(4) obtain a v where a: "po_expire po = Some a" "a < length (st_objs (ss_store ?s1))" "raw_string (st_objs (ss_store ?s1) ! a) v"
      by (auto simp: text_ptr_def)
    have "connected (ss_client ?s1)" using con by simp
    from run expire_text [OF a(2,3) this, of "po_flags po" "po_unit po"] po(3) True show ?thesis
      by (auto simp: Let_def setGenericCommand_def a(1) time_reply_def)
  qed
qed

lemma text_session_args: "text_args (text_session ws) ws"
  by (auto simp: text_args_def text_session_client text_session_rep text_ptr_def list_all2_conv_all_nth)

text \<open>
  C38: a syntax error does not stop SET. The options before the first word that is none (or not allowed there) are in force, the
  error is sent, and then the key is set and the ok reply follows, unless an NX or XX before the error refuses that (the
  null reply follows the error then). GET before the error silences the second reply; a time before it is the other case, in which nothing is set.
\<close>

theorem Set_syntax_error_still_sets:
  assumes "db_rep (ss_store s) D E" and "connected (ss_client s)" and "text_args s ws" and "3 \<le> length ws"
    and "so = read_options (drop 3 ws) plain_set" and "so_error so" and "\<not> takes_time so"
    and "D (ws ! 1) = None \<Longrightarrow> ht_RehashingIdx (db_dict (st_db (ss_store s))) < 0"
  shows "\<exists>s'. cmd_Set now s = Ret s' \<and>
    db_rep (ss_store s') (if refused so (D (ws ! 1) \<noteq> None) then D else D(ws ! 1 \<mapsto> cl_argv (ss_client s) ! 2)) E \<and>
    contents (st_objs (ss_store s')) = contents (st_objs (ss_store s)) \<and>
    ss_client s' = sent (syntax_reply @ set_answer so (D (ws ! 1) \<noteq> None)) (ss_client s)"
proof -
  let ?s1 = "s\<lparr>ss_client := sent syntax_reply (ss_client s)\<rparr>"
  obtain fl unit where fl: "flags_mean fl so"
    and run: "cmd_Set now s = setGenericCommand now fl (ws ! 1) (cl_argv (ss_client s) ! 2) None unit ?s1"
    using cmd_Set_options [OF assms(3,2,4,5), of now] assms(6,7) by (auto simp: Let_def)
  have "valid_ptr (st_objs (ss_store ?s1)) (cl_argv (ss_client s) ! 2)"
    using text_args_arg(2) [OF assms(3), of 2] assms(4) by (auto simp: text_ptr_def valid_ptr_def)
  from set_step [OF _ this, of D E "ws ! 1" None fl unit 0 now] assms(1,2,8) show ?thesis
    unfolding run by (simp add: flags_mean_blocked [OF fl] flags_mean_answer [OF fl])
qed

theorem Set_syntax_error_still_sets_witness:
  "\<exists>s'. cmd_Set 0 (text_session [''SET'', ''k'', ''v'', ''nx'', ''FOO'', ''XX'']) = Ret s' \<and>
     db_rep (ss_store s') [''k'' \<mapsto> Some 2] Map.empty \<and>
     cl_connection (ss_client s') = Some (''-ERR syntax error'' @ CRLF @ ok_reply)"
proof -
  let ?ws = "[''SET'', ''k'', ''v'', ''nx'', ''FOO'', ''XX'']"
  let ?so = "read_options (drop 3 ?ws) plain_set"
  have so: "so_error ?so \<and> so_condition ?so = OnlyNew \<and> \<not> so_get ?so \<and> so_ttl ?so = NoTtl" by code_simp
  then have "so_error ?so" "\<not> takes_time ?so" "\<not> refused ?so False" "set_answer ?so False = ok_reply"
    by (simp_all add: takes_time_def refused_def set_answer_def)
  with Set_syntax_error_still_sets [OF text_session_rep(1) text_session_client(1) text_session_args, where ws = ?ws and so = ?so and now = 0]
  show ?thesis
    by (fastforce simp: text_session_rep(2) text_session_client sent_output syntax_reply_def numeral_2_eq_2)
qed

end
