(* ===== verification/Dict_Hang.thy ===== *)
theory Dict_Hang
  imports Dict_Props
begin

text \<open>
  What raw insertion does in the middle of a rehash. The entry is linked into both bucket arrays; the step that moves the old bucket finds it
  at the head of the new one and makes it its own successor. From then on every chain loop over that bucket that does not find its key there
  goes on for ever.
\<close>

section \<open>A rehash with one entry in both arrays\<close>

lemma raw_scan_returns:
  assumes "raw_scan n key es cnt m p = Some y"
  shows "ent_Next (es ! a) = Some a \<longrightarrow> key_of es a \<noteq> key \<longrightarrow> p \<noteq> Some a"
proof (rule raw_scan.raw_induct [where
      P = "\<lambda>n key es cnt m p y. ent_Next (es ! a) = Some a \<longrightarrow> key_of es a \<noteq> key \<longrightarrow> p \<noteq> Some a", OF _ assms])
  fix f :: "nat \<Rightarrow> string \<Rightarrow> 'a entry list \<Rightarrow> int \<Rightarrow> int64 \<Rightarrow> nat option \<Rightarrow> (panic + nat option \<times> 'a entry list \<times> int \<times> int64) option"
    and n key es cnt m p y
  assume IH: "\<And>n key es cnt m p y. f n key es cnt m p = Some y \<Longrightarrow>
      ent_Next (es ! a) = Some a \<longrightarrow> key_of es a \<noteq> key \<longrightarrow> p \<noteq> Some a"
    and "(case p of None \<Rightarrow> Ret (None, es, cnt, m)
      | Some a \<Rightarrow>
          if ent_Key (es ! a) = key then Ret (Some a, es, cnt, m)
          else if ent_Next (es ! a) = None then
            let es' = es[a := (es ! a)\<lparr>ent_Next := Some n\<rparr>] in
            f n key es' (cnt + 1) (IncreaseUsedMemory (AString key) m) (ent_Next (es' ! a))
          else f n key es cnt m (ent_Next (es ! a))) = Some y"
  then show "ent_Next (es ! a) = Some a \<longrightarrow> key_of es a \<noteq> key \<longrightarrow> p \<noteq> Some a"
    using IH [of n key es cnt m "Some a" y] by (auto split: option.splits if_splits)
qed

lemma chain_locate_returns:
  assumes "chain_locate es key p = Some y"
  shows "ent_Next (es ! a) = Some a \<longrightarrow> key_of es a \<noteq> key \<longrightarrow> p \<noteq> a"
proof (rule chain_locate.raw_induct [where
      P = "\<lambda>es key p y. ent_Next (es ! a) = Some a \<longrightarrow> key_of es a \<noteq> key \<longrightarrow> p \<noteq> a", OF _ assms])
  fix f :: "'a entry list \<Rightarrow> string \<Rightarrow> nat \<Rightarrow> (panic + (nat + nat)) option" and es key p y
  assume IH: "\<And>es key p y. f es key p = Some y \<Longrightarrow> ent_Next (es ! a) = Some a \<longrightarrow> key_of es a \<noteq> key \<longrightarrow> p \<noteq> a"
    and "(if ent_Key (es ! p) = key then Ret (Inl p)
      else case ent_Next (es ! p) of None \<Rightarrow> Ret (Inr p) | Some b \<Rightarrow> f es key b) = Some y"
  then show "ent_Next (es ! a) = Some a \<longrightarrow> key_of es a \<noteq> key \<longrightarrow> p \<noteq> a"
    using IH [of es key a y] by (auto split: option.splits if_splits)
qed

lemma self_loop_diverges:
  assumes "ent_Next (es ! a) = Some a" and "key_of es a \<noteq> key"
  shows "raw_scan n key es cnt m (Some a) = Diverges" "chain_locate es key a = Diverges"
  using raw_scan_returns [of n key es cnt m "Some a" _ a] chain_locate_returns [of es key a _ a] assms
  by (metis not_None_eq)+

lemma migrate_None: "migrate es tbl sz None = Ret (es, tbl)"
  by (subst migrate.simps) simp

lemma migrate_frame:
  assumes "chain es p as" and "distinct as" and "n \<notin> set as" and "j < length tbl"
    and "\<forall>a \<in> set as. hidx (key_of es a) (length tbl) \<noteq> j"
    and "migrate es tbl (int (length tbl)) p = Ret (es', tbl')"
  shows "migrate (es[n := e]) (tbl[j := q]) (int (length tbl)) p = Ret (es'[n := e], tbl'[j := q]) \<and>
    tbl' ! j = tbl ! j \<and> es' ! n = es ! n \<and> length tbl' = length tbl \<and> length es' = length es"
  using assms
proof (induction as arbitrary: es tbl p)
  case Nil
  then show ?case by (simp add: migrate_None)
next
  case (Cons a as)
  let ?i = "hidx (key_of es a) (length tbl)"
  let ?es = "es[a := (es ! a)\<lparr>ent_Next := tbl ! ?i\<rparr>]" and ?tbl = "tbl[?i := Some a]"
  from Cons.prems have p: "p = Some a" "a < length es" "n \<noteq> a" and ch: "chain ?es (ent_Next (es ! a)) as" by auto
  have "0 < length tbl" using Cons.prems(4) by linarith
  then have n: "0 < length tbl" "?i < length tbl" "?i \<noteq> j" using Cons.prems(5) by auto
  have keys: "key_of ?es b = key_of es b" for b by (cases "b = a") (simp_all add: p)
  have run: "migrate ?es ?tbl (int (length ?tbl)) (ent_Next (es ! a)) = Ret (es', tbl')"
    using Cons.prems(6) n by (subst (asm) migrate.simps) (simp add: p Let_def Hash_nat)
  have "migrate (?es[n := e]) (?tbl[j := q]) (int (length ?tbl)) (ent_Next (es ! a)) = Ret (es'[n := e], tbl'[j := q]) \<and>
    tbl' ! j = ?tbl ! j \<and> es' ! n = ?es ! n \<and> length tbl' = length ?tbl \<and> length es' = length ?es"
    by (rule Cons.IH [OF ch _ _ _ _ run]) (use Cons.prems keys in auto)
  moreover have "migrate (es[n := e]) (tbl[j := q]) (int (length tbl)) p =
      migrate (?es[n := e]) (?tbl[j := q]) (int (length ?tbl)) (ent_Next (es ! a))"
    using n p by (subst migrate.simps) (simp add: Let_def Hash_nat list_update_swap [of n a] list_update_swap [of j ?i])
  ultimately show ?case using n p by simp
qed

definition twin :: "nat \<Rightarrow> nat \<Rightarrow> nat \<Rightarrow> 'v hashtable \<Rightarrow> 'v hashtable" where
  "twin n i j h = h\<lparr>ht_Table := (ht_Table h)[i := Some n], ht_RehashingTbl := (ht_RehashingTbl h)[j := Some n]\<rparr>"

definition looped :: "nat \<Rightarrow> nat \<Rightarrow> 'v hashtable \<Rightarrow> 'v hashtable" where
  "looped n j h = h\<lparr>ht_Entries := (ht_Entries h)[n := (ht_Entries h ! n)\<lparr>ent_Next := Some n\<rparr>],
     ht_RehashingTbl := (ht_RehashingTbl h)[j := Some n]\<rparr>"

text \<open>A rehash in progress to twice the size, with an entry \<open>n\<close> in no chain, and buckets \<open>i\<close> and \<open>j\<close> of its key that are empty.\<close>

definition roomy :: "'v hashtable \<Rightarrow> nat \<Rightarrow> nat \<Rightarrow> nat \<Rightarrow> bool" where
  "roomy h n i j \<longleftrightarrow> (\<exists>A B. shape h A B \<and> n \<notin> set (concat A @ concat B)) \<and> 0 \<le> ht_RehashingIdx h \<and>
     length (ht_RehashingTbl h) = 2 * length (ht_Table h) \<and> n < length (ht_Entries h) \<and> ent_Next (ht_Entries h ! n) = None \<and>
     i = hidx (key_of (ht_Entries h) n) (length (ht_Table h)) \<and> j = hidx (key_of (ht_Entries h) n) (length (ht_RehashingTbl h)) \<and>
     ht_Table h ! i = None \<and> ht_RehashingTbl h ! j = None"

lemma hidx_double: "hidx key (2 * n) mod n = hidx key n"
proof (cases "n = 0")
  case False
  then have "int (hidx key (2 * n) mod n) = int (hidx key n)"
    by (simp add: hidx_def zmod_int mod_mod_cancel)
  then show ?thesis by simp
qed (simp add: hidx_def)

text \<open>One round of the loop that moves buckets, on such a table and on the two that also link \<open>n\<close>.\<close>

definition moved :: "'v entry list \<Rightarrow> nat option list \<Rightarrow> 'v hashtable \<Rightarrow> 'v hashtable" where
  "moved es tbl h = h\<lparr>ht_Entries := es, ht_Table := (ht_Table h)[nat (ht_RehashingIdx h) := None], ht_RehashingTbl := tbl,
     ht_RehashingIdx := ht_RehashingIdx h + 1\<rparr>"

lemma roomy_round:
  assumes room: "roomy h n i j" and idx: "ht_RehashingIdx h < ht_Size h"
  obtains es tbl where "roomy (moved es tbl h) n i j" "es ! n = ht_Entries h ! n"
    "\<And>e q. migrate ((ht_Entries h)[n := e]) ((ht_RehashingTbl h)[j := q]) (ht_RehashingSize h)
       (ht_Table h ! nat (ht_RehashingIdx h)) = Ret (es[n := e], tbl[j := q])"
    "migrate (ht_Entries h) (ht_RehashingTbl h) (ht_RehashingSize h) (ht_Table h ! nat (ht_RehashingIdx h)) = Ret (es, tbl)"
proof -
  let ?r = "nat (ht_RehashingIdx h)" and ?es = "ht_Entries h" and ?t = "ht_Table h" and ?u = "ht_RehashingTbl h"
  obtain A B where sh: "shape h A B" "n \<notin> set (concat A @ concat B)" and r0: "0 \<le> ht_RehashingIdx h"
    and len: "length ?u = 2 * length ?t" and n: "n < length ?es" "ent_Next (?es ! n) = None"
    and ij: "i = hidx (key_of ?es n) (length ?t)" "j = hidx (key_of ?es n) (length ?u)" and free: "?t ! i = None" "?u ! j = None"
    using room unfolding roomy_def by blast
  from sh(1) r0 have rep: "rep_table ?es ?t A" and rs: "ht_RehashingSize h = int (length ?u)"
    and sz: "ht_Size h = int (length ?t)" and dist: "distinct (concat A)" by (auto simp: shape_def)
  have r: "?r < length ?t" "length A = length ?t" "0 < length ?u"
    using idx r0 sz rep_table_length [OF rep] rep_table_pos [OF rep] len by linarith+
  have ch: "chain ?es (?t ! ?r) (A ! ?r)" by (rule rep_table_chain [OF rep r(1)])
  have sub: "set (A ! ?r) \<subseteq> set (concat A)" using set_concat_nth [of ?r A] r(1,2) by auto
  have dA: "distinct (A ! ?r)" using dist r(1,2) by (simp add: distinct_concat_iff)
  have j: "j < length ?u" unfolding ij(2) by (rule hidx_less [OF r(3)])
  have "hidx (key_of ?es a) (length ?u) \<noteq> j" if a: "a \<in> set (A ! ?r)" for a
  proof
    assume "hidx (key_of ?es a) (length ?u) = j"
    then have "hidx (key_of ?es a) (length ?t) = i" unfolding ij len using hidx_double by metis
    moreover have "hidx (key_of ?es a) (length ?t) = ?r" using rep a r(1,2) by (auto simp: rep_table_def)
    ultimately have "?t ! ?r = None" using free(1) by simp
    with ch a show False by simp
  qed
  moreover from rehash_iteration [OF sh(1) r0 idx] obtain es tbl A1 B1 where
    run: "migrate ?es ?u (int (length ?u)) (?t ! ?r) = Ret (es, tbl)" and sh1: "shape (moved es tbl h) A1 B1"
    and kv: "kv es = kv ?es" and ms: "mset (concat A1 @ concat B1) = mset (concat A @ concat B)"
    unfolding Let_def moved_def rs by blast
  ultimately have frame: "migrate (?es[n := e]) (?u[j := q]) (int (length ?u)) (?t ! ?r) = Ret (es[n := e], tbl[j := q]) \<and>
      tbl ! j = ?u ! j \<and> es ! n = ?es ! n \<and> length tbl = length ?u \<and> length es = length ?es" for e q
    by (intro migrate_frame [OF ch dA _ j _ run]) (use sub sh(2) in auto)
  have "n \<notin> set (concat A1 @ concat B1)" using sh(2) ms by (metis set_mset_mset)
  moreover have "?t[?r := None] ! i = None" using free(1) r(1) by (cases "i = ?r") auto
  ultimately have "roomy (moved es tbl h) n i j"
    unfolding roomy_def using sh1 frame r0 len n ij free by (auto simp: moved_def simp del: set_append)
  with frame run show thesis by (intro that [of es tbl]) (simp_all add: rs)
qed

lemma rehash_loop_moves:
  assumes "0 \<le> ht_RehashingIdx h" and "ht_RehashingIdx h < ht_Size h" and "ht_Size h = int (length (ht_Table h))"
    and "migrate (ht_Entries h) (ht_RehashingTbl h) (ht_RehashingSize h) (ht_Table h ! nat (ht_RehashingIdx h)) = Ret (es, tbl)"
  shows "rehash_loop (Suc m) h = rehash_loop m (moved es tbl h)"
  using assms by (simp add: slice_get_def slice_set_def moved_def)

lemma roomy_facts:
  assumes "roomy h n i j"
  shows "0 \<le> ht_RehashingIdx h" "ht_Size h = int (length (ht_Table h))" "ht_RehashingSize h = int (length (ht_RehashingTbl h))"
    "i < length (ht_Table h)" "j < length (ht_RehashingTbl h)" "ht_Table h ! i = None" "ht_RehashingTbl h ! j = None"
    "n < length (ht_Entries h)" "ent_Next (ht_Entries h ! n) = None"
    "j = hidx (key_of (ht_Entries h) n) (length (ht_RehashingTbl h))"
proof -
  obtain A B where "shape h A B" "0 \<le> ht_RehashingIdx h" using assms by (auto simp: roomy_def)
  moreover from this have "0 < length (ht_Table h)" "0 < length (ht_RehashingTbl h)"
    by (auto simp: shape_def dest: rep_table_pos)
  ultimately show "0 \<le> ht_RehashingIdx h" "ht_Size h = int (length (ht_Table h))" "ht_RehashingSize h = int (length (ht_RehashingTbl h))"
    "i < length (ht_Table h)" "j < length (ht_RehashingTbl h)" "ht_Table h ! i = None" "ht_RehashingTbl h ! j = None"
    "n < length (ht_Entries h)" "ent_Next (ht_Entries h ! n) = None"
    "j = hidx (key_of (ht_Entries h) n) (length (ht_RehashingTbl h))"
    using assms by (auto simp: roomy_def shape_def)
qed

lemma loop_looped:
  assumes "roomy h n i j"
  shows "\<exists>h'. rehash_loop m h = Ret h' \<and> rehash_loop m (looped n j h) = Ret (looped n j h') \<and> roomy h' n i j \<and>
    ht_RehashingIdx h' = min (ht_RehashingIdx h + int m) (ht_Size h) \<and> ht_Size h' = ht_Size h \<and>
    ht_RehashingSize h' = ht_RehashingSize h \<and> ht_Entries h' ! n = ht_Entries h ! n"
  using assms
proof (induction m arbitrary: h)
  case 0
  then have "ht_RehashingIdx h \<le> ht_Size h" by (auto simp: roomy_def shape_def)
  with 0 show ?case by simp
next
  case (Suc m)
  note facts = roomy_facts [OF Suc.prems]
  show ?case
  proof (cases "ht_RehashingIdx h < ht_Size h")
    case False
    moreover have "ht_RehashingIdx h \<le> ht_Size h" using Suc.prems facts(1) by (auto simp: roomy_def shape_def)
    ultimately show ?thesis using Suc.prems by (simp add: looped_def)
  next
    case True
    obtain es tbl where room: "roomy (moved es tbl h) n i j" and n: "es ! n = ht_Entries h ! n"
      and run: "\<And>e q. migrate ((ht_Entries h)[n := e]) ((ht_RehashingTbl h)[j := q]) (ht_RehashingSize h)
         (ht_Table h ! nat (ht_RehashingIdx h)) = Ret (es[n := e], tbl[j := q])"
      and run0: "migrate (ht_Entries h) (ht_RehashingTbl h) (ht_RehashingSize h)
        (ht_Table h ! nat (ht_RehashingIdx h)) = Ret (es, tbl)"
      using roomy_round [OF Suc.prems True] by blast
    have "rehash_loop (Suc m) h = rehash_loop m (moved es tbl h)"
      by (rule rehash_loop_moves [OF facts(1) True facts(2) run0])
    moreover have "rehash_loop (Suc m) (looped n j h) =
        rehash_loop m (moved (es[n := (es ! n)\<lparr>ent_Next := Some n\<rparr>]) (tbl[j := Some n]) (looped n j h))"
      by (rule rehash_loop_moves) (use facts True run in \<open>simp_all add: looped_def n\<close>)
    moreover have "moved (es[n := (es ! n)\<lparr>ent_Next := Some n\<rparr>]) (tbl[j := Some n]) (looped n j h) = looped n j (moved es tbl h)"
      by (simp add: moved_def looped_def)
    ultimately show ?thesis using Suc.IH [OF room] n by (auto simp: moved_def)
  qed
qed

lemma loop_twin:
  assumes "roomy h n i j" and "ht_RehashingIdx h \<le> int i" and "int i < ht_RehashingIdx h + int m"
  shows "\<exists>h'. rehash_loop m (twin n i j h) = Ret (looped n j h') \<and> roomy h' n i j \<and>
    ht_RehashingIdx h' = min (ht_RehashingIdx h + int m) (ht_Size h) \<and> ht_Size h' = ht_Size h \<and>
    ht_RehashingSize h' = ht_RehashingSize h \<and> ht_Entries h' ! n = ht_Entries h ! n"
  using assms
proof (induction m arbitrary: h)
  case 0
  then show ?case by simp
next
  case (Suc m)
  note facts = roomy_facts [OF Suc.prems(1)]
  have True: "ht_RehashingIdx h < ht_Size h" using Suc.prems(2) facts(2,4) by linarith
  obtain es tbl where room: "roomy (moved es tbl h) n i j" and n: "es ! n = ht_Entries h ! n"
    and run: "\<And>e q. migrate ((ht_Entries h)[n := e]) ((ht_RehashingTbl h)[j := q]) (ht_RehashingSize h)
       (ht_Table h ! nat (ht_RehashingIdx h)) = Ret (es[n := e], tbl[j := q])"
    and run0: "migrate (ht_Entries h) (ht_RehashingTbl h) (ht_RehashingSize h)
      (ht_Table h ! nat (ht_RehashingIdx h)) = Ret (es, tbl)"
    using roomy_round [OF Suc.prems(1) True] by blast
  show ?case
  proof (cases "ht_RehashingIdx h = int i")
    case False
    have run1: "migrate (ht_Entries h) ((ht_RehashingTbl h)[j := Some n]) (ht_RehashingSize h)
        (ht_Table h ! nat (ht_RehashingIdx h)) = Ret (es, tbl[j := Some n])"
      using run [of "ht_Entries h ! n" "Some n"] n list_update_id [of es n] by simp
    have "rehash_loop (Suc m) (twin n i j h) = rehash_loop m (moved es (tbl[j := Some n]) (twin n i j h))"
      by (rule rehash_loop_moves) (use facts True run1 False in \<open>simp_all add: twin_def\<close>)
    moreover have "moved es (tbl[j := Some n]) (twin n i j h) = twin n i j (moved es tbl h)"
      using False facts(1) by (simp add: moved_def twin_def list_update_swap)
    moreover have "ht_RehashingIdx (moved es tbl h) \<le> int i" "int i < ht_RehashingIdx (moved es tbl h) + int m"
      using Suc.prems(2,3) False by (simp_all add: moved_def)
    ultimately show ?thesis using Suc.IH [OF room] n by (auto simp: moved_def)
  next
    case i: True
    then have "es = ht_Entries h" "tbl = ht_RehashingTbl h"
      using run0 facts(6) by (simp_all add: migrate_None)
    note room = room [unfolded this]
    have hash: "Hash (key_of (ht_Entries h) n) (ht_RehashingSize h) = Ret (int j)"
    proof -
      have "0 < length (ht_RehashingTbl h)" using facts(5) by linarith
      then show ?thesis by (simp add: facts(3,10) Hash_nat)
    qed
    let ?es = "(ht_Entries h)[n := (ht_Entries h ! n)\<lparr>ent_Next := Some n\<rparr>]"
    have "migrate (ht_Entries h) ((ht_RehashingTbl h)[j := Some n]) (ht_RehashingSize h) (Some n) =
        Ret (?es, (ht_RehashingTbl h)[j := Some n])"
      using facts hash by (subst migrate.simps) (simp add: Let_def migrate_None slice_get_def slice_set_def)
    then have "rehash_loop (Suc m) (twin n i j h) = rehash_loop m (moved ?es ((ht_RehashingTbl h)[j := Some n]) (twin n i j h))"
      by (intro rehash_loop_moves) (use facts True i in \<open>simp_all add: twin_def\<close>)
    moreover have "moved ?es ((ht_RehashingTbl h)[j := Some n]) (twin n i j h) = looped n j (moved (ht_Entries h) (ht_RehashingTbl h) h)"
      using i by (simp add: moved_def twin_def looped_def)
    ultimately show ?thesis using loop_looped [OF room, of m] by (auto simp: moved_def)
  qed
qed

section \<open>Later insertions\<close>

lemma roomy_alloc:
  assumes "roomy h n i j"
  shows "roomy (h\<lparr>ht_Entries := ht_Entries h @ [e]\<rparr>) n i j"
proof -
  have "\<exists>A B. shape (h\<lparr>ht_Entries := ht_Entries h @ [e]\<rparr>) A B \<and> n \<notin> set (concat A @ concat B)"
    using assms shape_alloc unfolding roomy_def by blast
  with assms show ?thesis unfolding roomy_def by (elim conjE, intro conjI) (assumption | simp add: nth_append)+
qed

lemma roomy_count: "roomy (h\<lparr>ht_Count := c\<rparr>) n i j = roomy h n i j"
  by (simp add: roomy_def shape_def)

text \<open>The array a key of bucket \<open>j\<close> is looked for in first, after the step: it leads to an entry of another key that is its own successor.\<close>

definition stuck :: "'v hashtable \<Rightarrow> string \<Rightarrow> bool" where
  "stuck h key \<longleftrightarrow> (let tbl = (if 0 \<le> ht_RehashingIdx h then ht_RehashingTbl h else ht_Table h) in
     (if 0 \<le> ht_RehashingIdx h then ht_RehashingSize h else ht_Size h) = int (length tbl) \<and> tbl \<noteq> [] \<and>
     (\<exists>n. tbl ! hidx key (length tbl) = Some n \<and> ent_Next (ht_Entries h ! n) = Some n \<and> key_of (ht_Entries h) n \<noteq> key))"

lemma raw_insert_stuck:
  assumes "tbl \<noteq> []" and "tbl ! hidx key (length tbl) = Some a" and "ent_Next (es ! a) = Some a" and "key_of es a \<noteq> key"
  shows "raw_insert n key (int (length tbl)) tbl es cnt m = Diverges"
  using assms by (simp add: raw_insert_def Hash_nat self_loop_diverges)

lemma Set_stuck:
  assumes "stuck h key"
  shows "(if 0 \<le> ht_RehashingIdx h then set_rehashing V key v h m else set_main V key v h m) = Diverges"
  using assms by (auto simp: stuck_def Let_def set_rehashing_def set_main_def Hash_nat self_loop_diverges split: if_splits)

lemma looped_stuck:
  assumes "roomy x n i j" and "hidx key (length (ht_RehashingTbl x)) = j" and "key \<noteq> key_of (ht_Entries x) n"
  shows "stuck (rehash_finish (looped n j x)) key"
  using assms(2,3) roomy_facts [OF assms(1)] by (auto simp: stuck_def rehash_finish_def looped_def Let_def)

lemma step_stuck:
  assumes room: "roomy x n i j" and idx: "ht_RehashingIdx x \<le> int i" "int i < ht_RehashingIdx x + int rehashingBuckets"
    and key: "hidx key (length (ht_RehashingTbl x)) = j" "key \<noteq> key_of (ht_Entries x) n"
  shows "\<exists>h'. rehashStep (twin n i j x) = Ret h' \<and> stuck h' key"
proof -
  obtain x' where x': "rehash_loop rehashingBuckets (twin n i j x) = Ret (looped n j x')" "roomy x' n i j"
    "ht_RehashingSize x' = ht_RehashingSize x" "ht_Entries x' ! n = ht_Entries x ! n"
    using loop_twin [OF room idx] by blast
  have "stuck (rehash_finish (looped n j x')) key"
    by (rule looped_stuck [OF x'(2)]) (use x' key roomy_facts(3) [OF room] roomy_facts(3) [OF x'(2)] in simp_all)
  with x'(1) show ?thesis by (simp add: rehashStep_def)
qed

lemma twin_hangs:
  assumes room: "roomy x n i j" and idx: "ht_RehashingIdx x \<le> int i" "int i < ht_RehashingIdx x + int rehashingBuckets"
    and key: "hidx key (length (ht_RehashingTbl x)) = j" "key \<noteq> key_of (ht_Entries x) n"
  shows "AddRaw V key (twin n i j x) m = Diverges \<and> ht_Set V key v (twin n i j x) m = Diverges"
proof (rule conjI)
  have pos: "0 \<le> ht_RehashingIdx (twin n i j x)" using roomy_facts(1) [OF room] by (simp add: twin_def)
  obtain h where h: "rehashStep (twin n i j x) = Ret h" "stuck h key" using step_stuck [OF assms] by blast
  show "ht_Set V key v (twin n i j x) m = Diverges"
    unfolding ht_Set_def using pos h(1) Set_stuck [OF h(2), of V v m] by simp
  let ?e = "\<lparr>ent_Key = key, ent_Value = vt_zero V, ent_Next = None\<rparr>"
  let ?x = "x\<lparr>ht_Entries := ht_Entries x @ [?e]\<rparr>"
  have alloc: "(twin n i j x)\<lparr>ht_Entries := ht_Entries (twin n i j x) @ [?e]\<rparr> = twin n i j ?x" by (simp add: twin_def)
  obtain h' where h': "rehashStep (twin n i j ?x) = Ret h'" "stuck h' key"
    using step_stuck [OF roomy_alloc [OF room, of ?e]] idx key roomy_facts(8) [OF room] by (fastforce simp: nth_append)
  have pos': "0 \<le> ht_RehashingIdx (twin n i j ?x)" using pos by (simp add: twin_def)
  show "AddRaw V key (twin n i j x) m = Diverges"
    unfolding AddRaw_def findPositionForInsert_def Let_def alloc using pos' h'
    by (auto simp: stuck_def Let_def raw_insert_stuck split: if_splits)
qed

text \<open>
  C31: raw insertion in the middle of a rehash leads to a hang. A new key whose two buckets are empty, the old one not moved by this call
  but by the next, is added; then the addition of any other key of the same new bucket, raw or by \<open>Set\<close>, never returns.
\<close>

theorem AddRaw_mid_rehash_hangs:
  assumes rep: "represents h M d" and "0 \<le> ht_RehashingIdx h" and "length (ht_RehashingTbl h) = 2 * length (ht_Table h)"
    and "ht_Table h ! hidx k (length (ht_Table h)) = None" and "ht_RehashingTbl h ! hidx k (length (ht_RehashingTbl h)) = None"
    and "ht_RehashingIdx h + int rehashingBuckets \<le> int (hidx k (length (ht_Table h)))"
    and "int (hidx k (length (ht_Table h))) < ht_RehashingIdx h + 2 * int rehashingBuckets"
  shows "\<exists>e h1 m1. AddRaw V k h m = Ret (e, False, h1, m1) \<and>
    (\<forall>key v m'. key \<noteq> k \<longrightarrow> hidx key (length (ht_RehashingTbl h)) = hidx k (length (ht_RehashingTbl h)) \<longrightarrow>
      AddRaw V key h1 m' = Diverges \<and> ht_Set V key v h1 m' = Diverges)"
proof -
  let ?n = "length (ht_Entries h)" and ?i = "hidx k (length (ht_Table h))" and ?j = "hidx k (length (ht_RehashingTbl h))"
  let ?x = "h\<lparr>ht_Entries := ht_Entries h @ [\<lparr>ent_Key = k, ent_Value = vt_zero V, ent_Next = None\<rparr>]\<rparr>"
  obtain A B where sh: "shape h A B" using rep by (auto simp: represents_def)
  have "?n \<notin> set (concat A @ concat B)" using shape_bound [OF sh, of ?n] by blast
  with shape_alloc [OF sh] have room: "roomy ?x ?n ?i ?j"
    unfolding roomy_def using assms(2-5) by (intro conjI exI [of _ A] exI [of _ B]) simp_all
  from loop_looped [OF this, of rehashingBuckets] obtain x1 where x1: "rehash_loop rehashingBuckets ?x = Ret x1" "roomy x1 ?n ?i ?j"
    "ht_RehashingIdx x1 = min (ht_RehashingIdx h + int rehashingBuckets) (ht_Size h)" "ht_Size x1 = ht_Size h"
    "ht_RehashingSize x1 = ht_RehashingSize h" "key_of (ht_Entries x1) ?n = k" by (auto simp: nth_append)
  note facts = roomy_facts [OF x1(2)]
  have len: "length (ht_RehashingTbl x1) = length (ht_RehashingTbl h)" "length (ht_Table x1) = length (ht_Table h)"
    using facts(2,3) x1(4,5) roomy_facts(2,3) [OF room] by simp_all
  have idx: "ht_RehashingIdx x1 = ht_RehashingIdx h + int rehashingBuckets" "ht_RehashingIdx x1 < ht_Size x1"
    using x1(3,4) facts(2,4) assms(6) by linarith+
  then have step: "rehashStep ?x = Ret x1" using x1(1) by (simp add: rehashStep_def rehash_finish_def)
  have pos: "0 < length (ht_RehashingTbl x1)" "0 < length (ht_Table x1)" using facts(4,5) by linarith+
  let ?x1 = "x1\<lparr>ht_Count := ht_Count x1 + 2\<rparr>"
  have "AddRaw V k h m = Ret (?n, False, twin ?n ?i ?j ?x1, IncreaseUsedMemory (AString k) (IncreaseUsedMemory (AString k) m))"
    unfolding AddRaw_def findPositionForInsert_def Let_def using assms(2) step facts pos len
    by (simp add: raw_insert_def Hash_nat slice_get_def slice_set_def twin_def deferred_check_def startRehashing_def)
  moreover have "AddRaw V key (twin ?n ?i ?j ?x1) m' = Diverges \<and> ht_Set V key v (twin ?n ?i ?j ?x1) m' = Diverges"
    if "key \<noteq> k" "hidx key (length (ht_RehashingTbl h)) = ?j" for key v m'
    using twin_hangs [where x = ?x1 and n = ?n and i = ?i and j = ?j and key = key and V = V and m = m' and v = v] x1(2,6) idx(1) assms(6,7) that len by (simp add: roomy_count)
  ultimately show ?thesis by blast
qed

definition twelve_pairs :: "(string \<times> string) list" where
  "twelve_pairs = map (\<lambda>c. ([c], [])) ''abcdefghijkl''"

theorem AddRaw_mid_rehash_hangs_witness:
  "\<exists>s e h1 m1. gobind (NewHashTable 16) (\<lambda>h. put_all (mt_put string_values) twelve_pairs (h, 0)) = Ret s \<and>
     AddRaw string_values ''o'' (fst s) (snd s) = Ret (e, False, h1, m1) \<and> AddRaw string_values ''O'' h1 m1 = Diverges"
proof -
  obtain h where h: "NewHashTable 16 = Ret h" and rep: "mt_rep (h, 0) (Map.empty :: string \<rightharpoonup> string)"
    using NewHashTable_mt_rep [of 16 0] by auto
  have "\<exists>s. put_all (mt_put string_values) twelve_pairs (h, 0) = Ret s \<and> mt_rep s (Map.empty ++ map_of twelve_pairs)"
    by (rule ht.put_all_rep [OF rep]) (simp_all add: twelve_pairs_def)
  then obtain s where s: "gobind (NewHashTable 16) (\<lambda>h. put_all (mt_put string_values) twelve_pairs (h, 0)) = Ret s"
    "mt_rep s (map_of twelve_pairs)" using h by auto
  then obtain d where d: "represents (fst s) (map_of twelve_pairs) d" by (auto simp: mt_rep_def)
  have "gobind (gobind (NewHashTable 16) (\<lambda>h. put_all (mt_put string_values) twelve_pairs (h, 0)))
      (\<lambda>s. let h = fst s in Ret (ht_RehashingIdx h, length (ht_Table h), length (ht_RehashingTbl h), ht_Table h ! 14, ht_RehashingTbl h ! 30)) =
    Ret (0, 16, 32, None, None)"
    by code_simp
  then have st: "ht_RehashingIdx (fst s) = 0" "length (ht_Table (fst s)) = 16" "length (ht_RehashingTbl (fst s)) = 32"
    "ht_Table (fst s) ! 14 = None" "ht_RehashingTbl (fst s) ! 30 = None"
    unfolding s(1) by (simp_all add: Let_def)
  have hash: "hidx ''o'' 16 = 14 \<and> hidx ''o'' 32 = 30 \<and> hidx ''O'' 32 = 30" by code_simp
  then have "hidx ''o'' 16 = 14" "hidx ''o'' 32 = 30" "hidx ''O'' 32 = 30" by blast+
  with AddRaw_mid_rehash_hangs [OF d, where k = "''o''" and V = string_values and m = "snd s"] st s(1) show ?thesis
    by (fastforce simp: rehashingBuckets_def)
qed

end
