(* ===== verification/Simulation.thy ===== *)
theory Simulation
  imports Prelude
begin

text \<open>
  Runs of operations on a state that may panic or not return, the runs of a specification that answers each operation with
  output, and the interface between the two: a relation every single operation keeps is kept by every run.
\<close>

fun go_run :: "('op \<Rightarrow> 's \<Rightarrow> 's go) \<Rightarrow> 'op list \<Rightarrow> 's \<Rightarrow> 's go" where
  "go_run step [] s = Ret s"
| "go_run step (op # ops) s = gobind (step op s) (go_run step ops)"

fun spec_run :: "('op \<Rightarrow> 'a \<Rightarrow> 'o list \<times> 'a) \<Rightarrow> 'op list \<Rightarrow> 'a \<Rightarrow> 'o list \<times> 'a" where
  "spec_run step [] a = ([], a)"
| "spec_run step (op # ops) a =
     (case step op a of (out, a1) \<Rightarrow> (case spec_run step ops a1 of (out2, a2) \<Rightarrow> (out @ out2, a2)))"

lemma go_run_append: "go_run step (xs @ ys) s = gobind (go_run step xs s) (go_run step ys)"
proof (induction xs arbitrary: s)
  case (Cons x xs)
  have "go_run step (xs @ ys) = (\<lambda>s. gobind (go_run step xs s) (go_run step ys))" using Cons.IH by (rule ext)
  then show ?case by (cases "step x s") (auto simp: gobind_def split: sum.splits)
qed simp

text \<open>The code panics nowhere, appends the output of the specification, and stays related to it.\<close>

locale simulation =
  fixes R :: "'s \<Rightarrow> 'a \<Rightarrow> bool" and allowed :: "'op \<Rightarrow> bool" and step :: "'op \<Rightarrow> 's \<Rightarrow> 's go"
    and spec :: "'op \<Rightarrow> 'a \<Rightarrow> 'o list \<times> 'a" and written :: "'s \<Rightarrow> 'o list"
  assumes step_sim: "R s a \<Longrightarrow> allowed op \<Longrightarrow>
    \<exists>s'. step op s = Ret s' \<and> R s' (snd (spec op a)) \<and> written s' = written s @ fst (spec op a)"
begin

lemma run_sim:
  assumes "R s a" and "list_all allowed ops"
  shows "\<exists>s'. go_run step ops s = Ret s' \<and> R s' (snd (spec_run spec ops a)) \<and>
    written s' = written s @ fst (spec_run spec ops a)"
  using assms
proof (induction ops arbitrary: s a)
  case Nil
  then show ?case by simp
next
  case (Cons op ops)
  obtain out a1 where a1: "spec op a = (out, a1)" by (cases "spec op a")
  obtain s1 where s1: "step op s = Ret s1" "R s1 a1" "written s1 = written s @ out"
    using step_sim [OF Cons.prems(1), of op] Cons.prems(2) a1 by auto
  obtain s2 where s2: "go_run step ops s1 = Ret s2" "R s2 (snd (spec_run spec ops a1))"
      "written s2 = written s1 @ fst (spec_run spec ops a1)"
    using Cons.IH [OF s1(2)] Cons.prems(2) by auto
  show ?case using a1 s1 s2 by (cases "spec_run spec ops a1") simp
qed

end

end
