(* ===== verification/Kv_Session.thy ===== *)
theory Kv_Session
  imports StrCmd_Options Dict_Hang Simulation
begin

text \<open>
  The components together: a client, the string commands of \<open>src/node/strcmd.go\<close>, the keyspace and the hash table. The
  commands are type safe on a keyspace of strings, and a session that stays below the size at which the hash table starts
  its first rehash is a session with a map from strings to strings, byte for byte in its replies.
\<close>

section \<open>Well-typed sessions\<close>

text \<open>A pointer to a string object.\<close>

definition string_ptr :: "redisObj list \<Rightarrow> objptr \<Rightarrow> bool" where
  "string_ptr objs p \<longleftrightarrow> (\<exists>a v. p = Some a \<and> a < length objs \<and> raw_string (objs ! a) v)"

lemma string_ptr_valid: "string_ptr objs p \<Longrightarrow> valid_ptr objs p"
  by (auto simp: string_ptr_def valid_ptr_def)

lemma string_ptr_contents:
  assumes "contents objs' = contents objs" and "string_ptr objs p"
  shows "string_ptr objs' p"
  using assms raw_string_contents [OF assms(1) [symmetric]] contents_length [OF assms(1)]
  unfolding string_ptr_def by auto

definition typed_args :: "session \<Rightarrow> bool" where
  "typed_args s \<longleftrightarrow> cl_argc (ss_client s) = int (length (cl_argv (ss_client s))) \<and>
     list_all (string_ptr (st_objs (ss_store s))) (cl_argv (ss_client s))"

text \<open>An open client, arguments that are strings, and a keyspace of strings, with any expire times.\<close>

definition typed :: "session \<Rightarrow> bool" where
  "typed s \<longleftrightarrow> connected (ss_client s) \<and> typed_args s \<and>
     (\<exists>D E. db_rep (ss_store s) D E \<and> (\<forall>k p. D k = Some p \<longrightarrow> string_ptr (st_objs (ss_store s)) p))"

definition no_rehash :: "session \<Rightarrow> bool" where
  "no_rehash s \<longleftrightarrow> ht_RehashingIdx (db_dict (st_db (ss_store s))) < 0"

lemma typed_sent:
  assumes "typed s" and "ss_client s' = sent out (ss_client s)" and "contents (st_objs (ss_store s')) = contents (st_objs (ss_store s))"
    and "db_rep (ss_store s') D E" and "\<And>k p. D k = Some p \<Longrightarrow> string_ptr (st_objs (ss_store s)) p"
  shows "typed s'"
proof -
  have "typed_args s'"
    using assms(1,2) string_ptr_contents [OF assms(3)] by (auto simp: typed_def typed_args_def list_all_iff)
  moreover have "string_ptr (st_objs (ss_store s')) p" if "D k = Some p" for k p
    using string_ptr_contents [OF assms(3) assms(5) [OF that]] .
  ultimately show ?thesis using assms(1,2,4) unfolding typed_def by auto
qed

lemma typed_reply: "typed s \<Longrightarrow> typed (s\<lparr>ss_client := sent out (ss_client s)\<rparr>)"
  by (auto simp: typed_def typed_args_def)

lemma typed_arg:
  assumes "typed s" and "0 \<le> i" and "i < cl_argc (ss_client s)"
  obtains p where "slice_get (cl_argv (ss_client s)) i = Ret p" "string_ptr (st_objs (ss_store s)) p"
    "p \<in> set (cl_argv (ss_client s))"
proof -
  have n: "nat i < length (cl_argv (ss_client s))" using assms by (auto simp: typed_def typed_args_def)
  then have "slice_get (cl_argv (ss_client s)) i = Ret (cl_argv (ss_client s) ! nat i)"
    using assms(2) by (simp add: slice_get_def)
  moreover have "cl_argv (ss_client s) ! nat i \<in> set (cl_argv (ss_client s))" using n by simp
  ultimately show thesis using that assms(1) by (simp add: typed_def typed_args_def list_all_iff)
qed

lemma typed_arg_string:
  assumes "typed s" and "0 \<le> i" and "i < cl_argc (ss_client s)"
  shows "\<exists>v. arg_string s i = Ret v"
proof -
  obtain p where p: "slice_get (cl_argv (ss_client s)) i = Ret p" "string_ptr (st_objs (ss_store s)) p"
    using typed_arg [OF assms] by blast
  then show ?thesis
    by (auto simp: arg_string_def arg_obj_def string_ptr_def deref_def raw_string_def as_string_def)
qed

section \<open>Type safety\<close>

text \<open>GET in a typed session, from any expire times.\<close>

lemma get_typed:
  assumes "typed s" and "2 \<le> cl_argc (ss_client s)"
  shows "\<exists>s'. cmd_Get now s = Ret s' \<and> typed s'"
proof -
  obtain D E where rep: "db_rep (ss_store s) D E" and str: "\<And>k p. D k = Some p \<Longrightarrow> string_ptr (st_objs (ss_store s)) p"
    using assms(1) by (auto simp: typed_def)
  obtain key where key: "arg_string s 1 = Ret key" using typed_arg_string [OF assms(1), of 1] assms(2) by auto
  have con: "connected (ss_client s)" using assms(1) by (simp add: typed_def)
  define v where "v a = (SOME w. raw_string (st_objs (ss_store s) ! a) w)" for a
  have val: "raw_string (st_objs (ss_store s) ! a) (v a)" if "D key = Some (Some a)" for a
    using str [OF that] unfolding v_def string_ptr_def by (auto intro: someI)
  from get_rep [OF rep key con val, of now] obtain s' where s': "getGenericCommand now s = Ret (D key \<noteq> None, s')"
    "db_rep (ss_store s') D E" "contents (st_objs (ss_store s')) = contents (st_objs (ss_store s))"
    "ss_client s' = sent (case D key of Some (Some a) \<Rightarrow> bulk (v a) | _ \<Rightarrow> null_reply) (ss_client s)" by blast
  have "typed s'" by (rule typed_sent [OF assms(1) s'(4,3,2) str])
  with s'(1) show ?thesis by (simp add: cmd_Get_def)
qed

text \<open>The common part of the writing commands: a time is text here, so it is rejected.\<close>

lemma set_typed:
  assumes "typed s" and "no_rehash s" and "string_ptr (st_objs (ss_store s)) val"
    and "expire = None \<or> string_ptr (st_objs (ss_store s)) expire"
  shows "\<exists>s'. setGenericCommand now flags key val expire unit s = Ret s' \<and> typed s'"
proof -
  obtain D E where rep: "db_rep (ss_store s) D E" and str: "\<And>k p. D k = Some p \<Longrightarrow> string_ptr (st_objs (ss_store s)) p"
    using assms(1) by (auto simp: typed_def)
  have con: "connected (ss_client s)" using assms(1) by (simp add: typed_def)
  show ?thesis
  proof (cases expire)
    case None
    from set_step [OF rep string_ptr_valid [OF assms(3)] con, of key None flags unit 0 now] None assms(2)
    obtain s' where s': "setGenericCommand now flags key val expire unit s = Ret s'"
      "db_rep (ss_store s') (if blocked flags (D key \<noteq> None) then D else D(key \<mapsto> val)) E"
      "contents (st_objs (ss_store s')) = contents (st_objs (ss_store s))"
      "ss_client s' = sent (set_reply flags (D key \<noteq> None)) (ss_client s)" by (auto simp: no_rehash_def)
    have "typed s'"
      by (rule typed_sent [OF assms(1) s'(4,3,2)]) (use str assms(3) in \<open>auto split: if_splits\<close>)
    with s'(1) show ?thesis by blast
  next
    case (Some a)
    with assms(4) obtain v where "a < length (st_objs (ss_store s))" "raw_string (st_objs (ss_store s) ! a) v"
      by (auto simp: string_ptr_def)
    from expire_text [OF this con, of flags unit] Some show ?thesis
      using typed_reply [OF assms(1)] by (simp add: setGenericCommand_def)
  qed
qed

text \<open>The options are read without a panic, whatever they are; a time among them is one of the arguments.\<close>

definition options_result :: "session \<Rightarrow> parsed_options \<Rightarrow> session \<Rightarrow> bool" where
  "options_result s po s' \<longleftrightarrow> (po_expire po = None \<or> po_expire po \<in> set (cl_argv (ss_client s))) \<and>
     (\<exists>out. s' = s\<lparr>ss_client := sent out (ss_client s)\<rparr>)"

lemma options_syntax_result:
  assumes "connected (ss_client s)" and "po_expire po = None \<or> po_expire po \<in> set (cl_argv (ss_client s))"
  shows "\<exists>s'. options_syntax po s = Ret (po, s') \<and> options_result s po s'"
  using assms reply_in_session [OF raw_shared(3) assms(1)] by (auto simp: options_syntax_def options_result_def)

lemma option_at_typed:
  assumes "typed s" and "0 \<le> j" and "j < cl_argc (ss_client s)"
  shows "\<exists>opt nx. option_at s j = Ret (Some (opt, nx)) \<and> (nx = None \<or> nx \<in> set (cl_argv (ss_client s)))"
proof -
  obtain p where p: "slice_get (cl_argv (ss_client s)) j = Ret p" "string_ptr (st_objs (ss_store s)) p"
    using typed_arg [OF assms] by blast
  then obtain opt where ob: "arg_obj s j = Ret ob \<Longrightarrow> obj_Value ob = AString opt" "\<exists>ob. arg_obj s j = Ret ob" for ob
    by (auto simp: arg_obj_def string_ptr_def deref_def raw_string_def)
  show ?thesis
  proof (cases "j = cl_argc (ss_client s) - 1")
    case True
    then show ?thesis using ob by (auto simp: option_at_def)
  next
    case False
    then obtain q where "slice_get (cl_argv (ss_client s)) (j + 1) = Ret q" "q \<in> set (cl_argv (ss_client s))"
      using typed_arg [OF assms(1), of "j + 1"] assms(2,3) by auto
    with False show ?thesis using ob by (auto simp: option_at_def)
  qed
qed

lemma options_typed:
  assumes "typed s"
  shows "0 \<le> j \<Longrightarrow> expire = None \<or> expire \<in> set (cl_argv (ss_client s)) \<Longrightarrow>
    \<exists>po s'. options_loop ct j flags expire unit s = Ret (po, s') \<and> options_result s po s'"
proof (induction "nat (cl_argc (ss_client s) - j)" arbitrary: j flags expire unit rule: less_induct)
  case less
  have con: "connected (ss_client s)" using assms by (simp add: typed_def)
  show ?case
  proof (cases "j < cl_argc (ss_client s)")
    case False
    then show ?thesis
      using less.prems(2) by (subst options_loop.simps) (simp add: options_result_def, metis sent_Nil session.surjective session.update_convs(1))
  next
    case True
    obtain opt nx where at: "option_at s j = Ret (Some (opt, nx))" "nx = None \<or> nx \<in> set (cl_argv (ss_client s))"
      using option_at_typed [OF assms less.prems(1) True] by blast
    show ?thesis
    proof (cases "option_step opt flags ct (nx \<noteq> None)")
      case OptSyntax
      with True at options_syntax_result [OF con, of "\<lparr>po_flags = flags, po_expire = expire, po_unit = unit, po_ok = True\<rparr>"]
      show ?thesis using less.prems(2) by (subst options_loop.simps) auto
    next
      case (OptFlags fl)
      with True at less.hyps [of "j + 1" expire fl unit] less.prems show ?thesis by (subst options_loop.simps) simp
    next
      case (OptExpire fl un)
      with True at less.hyps [of "j + 2" nx fl "case un of None \<Rightarrow> unit | Some u \<Rightarrow> u"] less.prems
      show ?thesis by (subst options_loop.simps) simp
    qed
  qed
qed


datatype string_command = CmdSet | CmdSetNx | CmdSetEx | CmdPSetEx | CmdGet

fun run_string_command :: "string_command \<Rightarrow> int64 \<Rightarrow> session \<Rightarrow> session go" where
  "run_string_command CmdSet = cmd_Set"
| "run_string_command CmdSetNx = cmd_SetNx"
| "run_string_command CmdSetEx = cmd_SetEx"
| "run_string_command CmdPSetEx = cmd_PSetEx"
| "run_string_command CmdGet = cmd_Get"

fun least_args :: "string_command \<Rightarrow> int" where
  "least_args CmdSet = 3"
| "least_args CmdSetNx = 3"
| "least_args CmdSetEx = 4"
| "least_args CmdPSetEx = 4"
| "least_args CmdGet = 2"

lemma cmd_Set_typed:
  assumes "typed s" and "no_rehash s" and "3 \<le> cl_argc (ss_client s)"
  shows "\<exists>s'. cmd_Set now s = Ret s' \<and> typed s'"
proof -
  obtain po s1 where parse: "parseExtendedStringArgumentsOrReply ObjNoFlags CommandSet s = Ret (po, s1)"
    and res: "options_result s po s1"
    using options_typed [OF assms(1), of 3 None CommandSet ObjNoFlags 0]
    by (auto simp: parseExtendedStringArgumentsOrReply_def)
  obtain out where s1: "s1 = s\<lparr>ss_client := sent out (ss_client s)\<rparr>" using res by (auto simp: options_result_def)
  have typed1: "typed s1" "no_rehash s1" "3 \<le> cl_argc (ss_client s1)"
    using typed_reply [OF assms(1)] assms(2,3) by (simp_all add: s1 no_rehash_def)
  obtain key where key: "arg_string s1 1 = Ret key" using typed_arg_string [OF typed1(1), of 1] typed1(3) by auto
  obtain val where val: "slice_get (cl_argv (ss_client s1)) 2 = Ret val" "string_ptr (st_objs (ss_store s1)) val"
    using typed_arg [OF typed1(1), of 2] typed1(3) by auto
  have "po_expire po = None \<or> string_ptr (st_objs (ss_store s1)) (po_expire po)"
    using res typed1(1) by (auto simp: options_result_def s1 typed_def typed_args_def list_all_iff)
  from set_typed [OF typed1(1,2) val(2) this, of now "po_flags po" key "po_unit po"] show ?thesis
    using parse key val(1) typed1(1) by (auto simp: cmd_Set_def)
qed

lemma set_args_typed:
  assumes "typed s" and "no_rehash s" and "0 \<le> i" and "i < cl_argc (ss_client s)" and "2 \<le> cl_argc (ss_client s)"
    and "expire = None \<or> string_ptr (st_objs (ss_store s)) expire"
  shows "\<exists>s'. gobind (arg_string s 1) (\<lambda>key. gobind (argp s i) (\<lambda>val.
      setGenericCommand now flags key val expire unit s)) = Ret s' \<and> typed s'"
proof -
  obtain key where key: "arg_string s 1 = Ret key" using typed_arg_string [OF assms(1), of 1] assms(5) by auto
  obtain val where val: "argp s i = Ret val" "string_ptr (st_objs (ss_store s)) val"
    using typed_arg [OF assms(1,3,4)] by blast
  from set_typed [OF assms(1,2) val(2) assms(6)] show ?thesis by (simp add: key val(1))
qed

lemma setex_args_typed:
  assumes "typed s" and "no_rehash s" and "4 \<le> cl_argc (ss_client s)"
  shows "\<exists>s'. gobind (arg_string s 1) (\<lambda>key. gobind (argp s 3) (\<lambda>val. gobind (argp s 2) (\<lambda>expire.
      setGenericCommand now flags key val expire unit s))) = Ret s' \<and> typed s'"
proof -
  obtain expire where "argp s 2 = Ret expire" "string_ptr (st_objs (ss_store s)) expire"
    using typed_arg [OF assms(1), of 2] assms(3) by auto
  with set_args_typed [OF assms(1,2), of 3 expire now flags unit] assms(3) show ?thesis by simp
qed


lemma text_session_typed: "typed (text_session ws)" "no_rehash (text_session ws)"
proof -
  have "string_ptr (map an_object ws) (Some i)" if "i < length ws" for i
    unfolding string_ptr_def using that by (intro exI [of _ i] exI [of _ "ws ! i"]) simp
  then have "list_all (string_ptr (map an_object ws)) (map Some [0 ..< length ws])" by (simp add: list_all_iff)
  then show "typed (text_session ws)"
    using text_session_rep(1) by (auto simp: typed_def typed_args_def text_session_client text_session_rep(3))
  show "no_rehash (text_session ws)" using text_session_rep(2) by (simp add: no_rehash_def)
qed



section \<open>The hash table below its first rehash\<close>

text \<open>The keyspace as \<open>New\<close> made it, nothing deleted, and at most the last of the keys \<open>D\<close> started a rehash.\<close>

definition small :: "store \<Rightarrow> (string \<rightharpoonup> objptr) \<Rightarrow> bool" where
  "small st D \<longleftrightarrow> represents (db_dict (st_db st)) D 0 \<and> ht_Size (db_dict (st_db st)) = INITIAL_DB_SIZE \<and>
     (ht_RehashingIdx (db_dict (st_db st)) < 0 \<or> 12 \<le> card (dom D))"

text \<open>A raw insertion outside a rehash leaves the sizes alone; only the check of the load can start a rehash.\<close>

lemma AddRaw_frame:
  assumes "AddRaw V key h m = Ret (e, b, h', m')" and "ht_RehashingIdx h < 0"
  shows "\<exists>h1. h' = deferred_check h1 \<and> ht_Size h1 = ht_Size h \<and> ht_RehashingIdx h1 = ht_RehashingIdx h"
  using assms by (auto simp: AddRaw_def findPositionForInsert_def Let_def elim!: gobindE split: option.splits)

lemma deferred_check_frame:
  "ht_Size (deferred_check h) = ht_Size h" "ht_Count (deferred_check h) = ht_Count h"
  "ht_RehashingIdx h < 0 \<Longrightarrow> ht_RehashingIdx (deferred_check h) < 0 \<or> 10 * ht_Count h > 7 * ht_Size h"
  by (auto simp: deferred_check_def startRehashing_def load_exceeded_def)

lemma dict_SetVal_dict:
  "db_dict (st_db (dict_SetVal (Some e) val st)) = fst (SetVal objptr_type (Some e) val (db_dict (st_db st)) (st_mem st))"
  by (simp add: dict_SetVal_def split: prod.split)

lemma SetVal_frame:
  "ht_Size (fst (SetVal V (Some e) val h m)) = ht_Size h"
  "ht_RehashingIdx (fst (SetVal V (Some e) val h m)) = ht_RehashingIdx h"
  by (simp_all add: SetVal_def)

lemma small_add:
  assumes "small st D" and "ht_RehashingIdx (db_dict (st_db st)) < 0" and "add now key val st = Ret st'" and "valid_ptr (st_objs st) val"
  shows "small st' (D(key \<mapsto> val))"
proof -
  let ?h = "db_dict (st_db st)" and ?D = "if D key = None then D(key \<mapsto> vt_zero objptr_type) else D"
  have rd: "represents ?h D 0" "ht_Size ?h = 16" using assms(1) by (simp_all add: small_def INITIAL_DB_SIZE_def)
  obtain e h m where raw: "AddRaw objptr_type key ?h (st_mem st) = Ret (e, bucket_used ?h D key, h, m)"
    and ent: "rep_entry h ?D 0 key e"
    using AddRaw_represents [OF rd(1) assms(2), of objptr_type key "st_mem st"] by auto
  let ?st1 = "st\<lparr>st_db := (st_db st)\<lparr>db_dict := h\<rparr>, st_mem := m\<rparr>"
  have v1: "valid_ptr (st_objs ?st1) val" using assms(4) by simp
  have st': "st' = dict_SetVal (Some e) val (touched val 100 ?st1)"
    using assms(3) by (simp add: add_def addInternal_def raw initObjectLRUOrLFU_def set_LRU_valid [OF v1])
  let ?h' = "db_dict (st_db st')"
  have h': "?h' = fst (SetVal objptr_type (Some e) val h m)" by (simp add: st' dict_SetVal_dict)
  have rep': "represents ?h' (D(key \<mapsto> val)) 0"
    using rep_entry_represents [OF SetVal_rep_entry [OF ent, of objptr_type val m]] unfolding h'
    by (simp split: if_splits)
  obtain h1 where h1: "h = deferred_check h1" "ht_Size h1 = 16" "ht_RehashingIdx h1 < 0"
    using AddRaw_frame [OF raw assms(2)] rd(2) assms(2) by auto
  have cnt: "ht_Count h1 = int (card (dom (D(key \<mapsto> val))))"
    using represents_card [OF rep'] by (simp add: h' h1(1) ht_Len_def SetVal_def deferred_check_frame)
  have "ht_RehashingIdx h < 0 \<or> 12 \<le> card (dom (D(key \<mapsto> val)))"
    using deferred_check_frame(3) [OF h1(3)] unfolding h1(1) cnt h1(2) by linarith
  moreover have "ht_Size h = 16" by (simp add: h1 deferred_check_frame)
  ultimately show ?thesis using rep' by (simp add: small_def h' SetVal_frame INITIAL_DB_SIZE_def)
qed

lemma small_setValue:
  assumes "small st D" and "D key \<noteq> None" and "setValue key val None st = Ret st'"
  shows "small st' (D(key \<mapsto> val))"
proof -
  have rd: "represents (db_dict (st_db st)) D 0" using assms(1) by (simp add: small_def)
  obtain e where e: "GetEntry key (db_dict (st_db st)) = Ret (Some e)" and ent: "rep_entry (db_dict (st_db st)) D 0 key e"
    using GetEntry_rep_entry [OF rd, of key] assms(2) by (auto split: option.splits)
  from assms(3) obtain st1 where st': "st' = dict_SetVal (Some e) val st1" and st1: "db_dict (st_db st1) = db_dict (st_db st)"
    by (auto simp: setValue_def e Let_def set_LRU_def elim!: gobindE split: option.splits)
  have "represents (db_dict (st_db st')) (D(key \<mapsto> val)) 0"
    using rep_entry_represents [OF SetVal_rep_entry [OF ent]] by (simp add: st' dict_SetVal_dict st1)
  moreover have "card (dom D) \<le> card (dom (D(key \<mapsto> val)))"
    using represents_card [OF rd] by (simp add: card_insert_if)
  ultimately show ?thesis using assms(1) by (auto simp: small_def st' dict_SetVal_dict SetVal_frame st1)
qed

lemma small_SetKey:
  assumes "small st D" and "db_rep st D E" and "valid_ptr (st_objs st) val"
    and "D key = None \<Longrightarrow> ht_RehashingIdx (db_dict (st_db st)) < 0"
    and "SetKey now key val (setkey_flags flags expire (D key \<noteq> None)) st = Ret st'"
  shows "small st' (D(key \<mapsto> val))"
proof -
  let ?fl = "setkey_flags flags expire (D key \<noteq> None)"
  note facts = setkey_flags_facts [of flags expire "D key \<noteq> None"]
  from assms(5) obtain st2 where
    st2: "(if D key = None then add now key val st else setValue key val None st) = Ret st2"
    and st': "(if ?fl AND SetKeyKeepTTL = 0 then RmExpire key st2 else Ret st2) = Ret st'"
    using facts by (auto simp: SetKey_def key_found_def elim!: gobindE split: if_splits)
  have s2: "small st2 (D(key \<mapsto> val))"
    using small_add [OF assms(1) _ _ assms(3)] small_setValue [OF assms(1)] st2 assms(4) by (auto split: if_splits)
  obtain E2 where "db_rep st2 (D(key \<mapsto> val)) E2"
  proof (cases "D key")
    case None
    with st2 assms(4) add_rep [OF assms(2) _ assms(3), of now key] that show ?thesis by auto
  next
    case (Some p)
    with st2 setValue_rep [OF assms(2) Some assms(3)] that show ?thesis by auto
  qed
  from RmExpire_rep [OF this, of key] st' s2 show ?thesis by (auto simp: small_def split: if_splits)
qed


lemma set_small:
  assumes "small (ss_store s) D" and "db_rep (ss_store s) D E" and "valid_ptr (st_objs (ss_store s)) val"
    and "connected (ss_client s)" and "D key = None \<Longrightarrow> ht_RehashingIdx (db_dict (st_db (ss_store s))) < 0"
    and "setGenericCommand now flags key val None unit s = Ret s'"
  shows "small (ss_store s') (if blocked flags (D key \<noteq> None) then D else D(key \<mapsto> val))"
proof -
  from LookupKeyWrite_rep [OF assms(2), of now key] obtain st2 where
    look: "LookupKeyWrite now key (ss_store s) = Ret (case D key of None \<Rightarrow> (None, False) | Some p \<Rightarrow> (p, True), st2)"
    and st2: "db_rep st2 D E" "contents (st_objs st2) = contents (st_objs (ss_store s))"
      "db_dict (st_db st2) = db_dict (st_db (ss_store s))" by blast
  have s2: "small st2 D" using assms(1) by (simp add: small_def st2(3))
  have look': "on_store (LookupKeyWrite now key) s =
      Ret ((case D key of None \<Rightarrow> None | Some p \<Rightarrow> p, D key \<noteq> None), s\<lparr>ss_store := st2\<rparr>)"
    using look by (cases "D key") (simp_all add: on_store_def)
  have store: "on_client f u = Ret u' \<Longrightarrow> ss_store u' = ss_store u" for f u u' by (auto simp: on_client_def elim!: gobindE)
  show ?thesis
  proof (cases "blocked flags (D key \<noteq> None)")
    case True
    then have "ss_store s' = st2"
      using assms(6) store by (fastforce simp: setGenericCommand_def look' blocked_def split: if_splits)
    with s2 True show ?thesis by simp
  next
    case False
    let ?fl = "setkey_flags flags None (D key \<noteq> None)"
    have val2: "valid_ptr (st_objs st2) val" using assms(3) valid_ptr_contents [OF st2(2)] by simp
    from assms(6) False obtain st3 where st3: "SetKey now key val ?fl st2 = Ret st3" "ss_store s' = st3"
      using store by (fastforce simp: setGenericCommand_def look' blocked_def Let_def elim!: gobindE split: if_splits)
    have "D key = None \<Longrightarrow> ht_RehashingIdx (db_dict (st_db st2)) < 0" using assms(5) by (simp add: st2(3))
    from small_SetKey [OF s2 st2(1) val2 this st3(1)] False st3(2) show ?thesis by simp
  qed
qed

lemma get_small:
  assumes "small (ss_store s) D" and "db_rep (ss_store s) D E" and "connected (ss_client s)"
    and "getGenericCommand now s = Ret (b, s')"
  shows "small (ss_store s') D"
proof -
  have store: "on_client f u = Ret u' \<Longrightarrow> ss_store u' = ss_store u" for f u u' by (auto simp: on_client_def elim!: gobindE)
  from assms(4) obtain key r st1 where look: "LookupKeyRead now key (ss_store s) = Ret (r, st1)"
    and st1: "ss_store s' = st1"
    using store by (fastforce simp: getGenericCommand_def on_store_def elim!: gobindE split: if_splits)
  have "db_dict (st_db st1) = db_dict (st_db (ss_store s))"
    using lookupKey_rep [OF assms(2), of now key LookupNone] look
    by (auto simp: LookupKeyRead_def lookupKeyReadWithFlags_def)
  with assms(1) st1 show ?thesis by (simp add: small_def)
qed

section \<open>A session and its specification\<close>

text \<open>The commands of \<open>src/node/strcmd.go\<close>; SET with the words after the value, whatever they are.\<close>

datatype kv_cmd = KvGet string | KvSet string string "string list" | KvSetNx string string | KvSetEx string string string
  | KvPSetEx string string string

fun kv_key :: "kv_cmd \<Rightarrow> string" where
  "kv_key (KvGet k) = k"
| "kv_key (KvSet k v opts) = k"
| "kv_key (KvSetNx k v) = k"
| "kv_key (KvSetEx k t v) = k"
| "kv_key (KvPSetEx k t v) = k"

text \<open>
  The specification: a map from strings to strings, and the bytes of each reply. SET answers a syntax error first and does what the
  options before it say; a time, in whatever option or command, is text here and refused.
\<close>

fun kv_step :: "kv_cmd \<Rightarrow> (string \<rightharpoonup> string) \<Rightarrow> string \<times> (string \<rightharpoonup> string)" where
  "kv_step (KvGet k) M = (case M k of None \<Rightarrow> null_reply | Some v \<Rightarrow> bulk v, M)"
| "kv_step (KvSet k v opts) M =
     (let so = read_options opts plain_set; exist = M k \<noteq> None in
      ((if so_error so then syntax_reply else []) @ (if takes_time so then time_reply else set_answer so exist),
       if takes_time so \<or> refused so exist then M else M(k \<mapsto> v)))"
| "kv_step (KvSetNx k v) M = (if M k = None then (ok_reply, M(k \<mapsto> v)) else (null_reply, M))"
| "kv_step (KvSetEx k t v) M = (time_reply, M)"
| "kv_step (KvPSetEx k t v) M = (time_reply, M)"

definition kv_spec :: "int64 \<times> kv_cmd \<Rightarrow> (string \<rightharpoonup> string) \<Rightarrow> string \<times> (string \<rightharpoonup> string)" where
  "kv_spec x = kv_step (snd x)"

text \<open>The code: the words of the command become objects and the arguments of the client, and its handler runs at a time.\<close>

fun kv_words :: "kv_cmd \<Rightarrow> string list" where
  "kv_words (KvGet k) = [''GET'', k]"
| "kv_words (KvSet k v opts) = [''SET'', k, v] @ opts"
| "kv_words (KvSetNx k v) = [''SETNX'', k, v]"
| "kv_words (KvSetEx k t v) = [''SETEX'', k, t, v]"
| "kv_words (KvPSetEx k t v) = [''PSETEX'', k, t, v]"

fun kv_handler :: "kv_cmd \<Rightarrow> int64 \<Rightarrow> session \<Rightarrow> session go" where
  "kv_handler (KvGet k) = cmd_Get"
| "kv_handler (KvSet k v opts) = cmd_Set"
| "kv_handler (KvSetNx k v) = cmd_SetNx"
| "kv_handler (KvSetEx k t v) = cmd_SetEx"
| "kv_handler (KvPSetEx k t v) = cmd_PSetEx"

definition load_args :: "string list \<Rightarrow> session \<Rightarrow> session" where
  "load_args ws s =
     (let n = length (st_objs (ss_store s)) in
      s\<lparr>ss_client := (ss_client s)\<lparr>cl_argv := map Some [n ..< n + length ws], cl_argc := int (length ws)\<rparr>,
        ss_store := (ss_store s)\<lparr>st_objs := st_objs (ss_store s) @ map createRawStringObject ws\<rparr>\<rparr>)"

definition kv_command :: "int64 \<times> kv_cmd \<Rightarrow> session \<Rightarrow> session go" where
  "kv_command x s = kv_handler (snd x) (fst x) (load_args (kv_words (snd x)) s)"

text \<open>A client that has just connected, on an empty keyspace.\<close>

definition kv_start :: "session go" where
  "kv_start = gobind (New 0) (\<lambda>db. Ret \<lparr>ss_client = open_client, ss_store = \<lparr>st_db = db, st_objs = [], st_mem = 0\<rparr>, ss_cmds = []\<rparr>)"

section \<open>The invariant of a session\<close>

text \<open>The string a pointer leads to, and the map a keyspace of strings stands for.\<close>

definition text_at :: "redisObj list \<Rightarrow> objptr \<Rightarrow> string" where
  "text_at objs p = (case obj_Value (objs ! the p) of AString v \<Rightarrow> v | _ \<Rightarrow> [])"

definition kv_inv :: "string set \<Rightarrow> session \<Rightarrow> (string \<rightharpoonup> string) \<Rightarrow> bool" where
  "kv_inv K s M \<longleftrightarrow> connected (ss_client s) \<and> (\<exists>D. db_rep (ss_store s) D Map.empty \<and> small (ss_store s) D \<and> dom D \<subseteq> K \<and>
     (\<forall>k p. D k = Some p \<longrightarrow> string_ptr (st_objs (ss_store s)) p) \<and>
     M = (\<lambda>k. map_option (text_at (st_objs (ss_store s))) (D k)))"

lemma text_at_raw: "raw_string (objs ! a) v \<Longrightarrow> text_at objs (Some a) = v"
  by (simp add: text_at_def raw_string_def)

lemma text_at_contents:
  assumes "contents objs' = contents objs" and "string_ptr objs p"
  shows "text_at objs' p = text_at objs p"
proof -
  from assms(2) obtain a v where "p = Some a" "a < length objs" "raw_string (objs ! a) v" by (auto simp: string_ptr_def)
  with raw_string_contents [OF assms(1) [symmetric]] show ?thesis by (simp add: text_at_raw)
qed

text \<open>With at most twelve keys, a key that is not there yet meets no rehash.\<close>

lemma small_room:
  assumes "small st D" and "dom D \<subseteq> K" and "finite K" and "card K \<le> 12" and "key \<in> K" and "D key = None"
  shows "ht_RehashingIdx (db_dict (st_db st)) < 0"
proof -
  have "dom D \<subset> K" using assms(2,5,6) by auto
  from psubset_card_mono [OF assms(3) this] assms(4) have "\<not> 12 \<le> card (dom D)" by linarith
  with assms(1) show ?thesis unfolding small_def by blast
qed

lemma load_args_simps:
  "cl_argc (ss_client (load_args ws s)) = int (length ws)"
  "length (st_objs (ss_store (load_args ws s))) = length (st_objs (ss_store s)) + length ws"
  "st_db (ss_store (load_args ws s)) = st_db (ss_store s)"
  "cl_connection (ss_client (load_args ws s)) = cl_connection (ss_client s)"
  "cl_flags (ss_client (load_args ws s)) = cl_flags (ss_client s)"
  by (simp_all add: load_args_def Let_def)

lemma load_args_prepare: "prepareClientToWrite (ss_client (load_args ws s)) = prepareClientToWrite (ss_client s)"
  unfolding prepareClientToWrite_def load_args_simps ..

lemma load_args_connected: "connected (ss_client (load_args ws s)) = connected (ss_client s)"
  by (simp add: connected_def load_args_prepare load_args_simps(4))

lemma load_args_arg:
  assumes "i < length ws"
  shows "slice_get (cl_argv (ss_client (load_args ws s))) (int i) = Ret (Some (length (st_objs (ss_store s)) + i))"
    and "raw_string (st_objs (ss_store (load_args ws s)) ! (length (st_objs (ss_store s)) + i)) (ws ! i)"
  using assms by (simp_all add: load_args_def Let_def slice_get_def nth_append)

lemma load_args_string: "i < length ws \<Longrightarrow> arg_string (load_args ws s) (int i) = Ret (ws ! i)"
  using load_args_arg [of i ws s]
  by (simp add: arg_string_def arg_obj_def deref_def load_args_simps(2) raw_string_def as_string_def)

lemma load_args_old: "a < length (st_objs (ss_store s)) \<Longrightarrow> st_objs (ss_store (load_args ws s)) ! a = st_objs (ss_store s) ! a"
  by (simp add: load_args_def Let_def nth_append)

lemma load_args_ptr:
  assumes "string_ptr (st_objs (ss_store s)) p"
  shows "string_ptr (st_objs (ss_store (load_args ws s))) p"
    and "text_at (st_objs (ss_store (load_args ws s))) p = text_at (st_objs (ss_store s)) p"
  using assms load_args_old [of _ s ws] load_args_simps(2) [of ws s]
  by (auto simp: string_ptr_def text_at_def)

lemma load_args_inv:
  assumes "kv_inv K s M"
  shows "kv_inv K (load_args ws s) M"
proof -
  obtain D where D: "db_rep (ss_store s) D Map.empty" "small (ss_store s) D" "dom D \<subseteq> K"
    and str: "\<And>k p. D k = Some p \<Longrightarrow> string_ptr (st_objs (ss_store s)) p"
    and M: "M = (\<lambda>k. map_option (text_at (st_objs (ss_store s))) (D k))" and con: "connected (ss_client s)"
    using assms by (auto simp: kv_inv_def)
  let ?st = "ss_store (load_args ws s)"
  have "db_rep ?st D Map.empty"
    using D(1) str string_ptr_valid [OF load_args_ptr(1)] by (auto simp: db_rep_def load_args_simps(3))
  moreover have "small ?st D" using D(2) by (simp add: small_def load_args_simps(3))
  moreover have "M = (\<lambda>k. map_option (text_at (st_objs ?st)) (D k))"
    unfolding M by (rule ext, rule map_option_cong [OF refl]) (simp add: load_args_ptr(2) str elem_set)
  ultimately show ?thesis
    unfolding kv_inv_def using D(3) con load_args_ptr(1) [OF str] by (auto simp: load_args_connected)
qed


text \<open>What one command has to establish, from the state its reply and its write leave.\<close>

lemma kv_inv_write:
  assumes D: "D' = D \<or> (D' = D(key \<mapsto> val) \<and> key \<in> K \<and> string_ptr (st_objs (ss_store s)) val)"
    and "db_rep (ss_store s') D' Map.empty" and "small (ss_store s') D'" and "dom D \<subseteq> K"
    and con: "contents (st_objs (ss_store s')) = contents (st_objs (ss_store s))"
    and str: "\<And>k p. D k = Some p \<Longrightarrow> string_ptr (st_objs (ss_store s)) p"
    and "ss_client s' = sent out (ss_client s)" and "connected (ss_client s)"
  shows "kv_inv K s' (\<lambda>k. map_option (text_at (st_objs (ss_store s))) (D' k))"
proof -
  have str': "string_ptr (st_objs (ss_store s)) p" if "D' k = Some p" for k p
    using D str that by (auto split: if_splits)
  have "(\<lambda>k. map_option (text_at (st_objs (ss_store s))) (D' k)) = (\<lambda>k. map_option (text_at (st_objs (ss_store s'))) (D' k))"
    by (rule ext, rule map_option_cong [OF refl]) (simp add: text_at_contents [OF con] str' elem_set)
  moreover have "dom D' \<subseteq> K" using D assms(4) by (elim disjE) (auto simp: dom_def split: if_splits)
  ultimately show ?thesis
    unfolding kv_inv_def using assms(2,3,7,8) string_ptr_contents [OF con str'] by auto
qed

text \<open>A write of a string, with or without NX or XX.\<close>

lemma kv_write:
  assumes inv: "kv_inv K s M" and K: "finite K" "card K \<le> 12" "key \<in> K"
    and val: "string_ptr (st_objs (ss_store s)) val" "text_at (st_objs (ss_store s)) val = v"
  shows "\<exists>s'. setGenericCommand now flags key val None unit s = Ret s' \<and>
    ss_client s' = sent (set_reply flags (M key \<noteq> None)) (ss_client s) \<and>
    kv_inv K s' (if blocked flags (M key \<noteq> None) then M else M(key \<mapsto> v))"
proof -
  obtain D where D: "db_rep (ss_store s) D Map.empty" "small (ss_store s) D" "dom D \<subseteq> K"
    and str: "\<And>k p. D k = Some p \<Longrightarrow> string_ptr (st_objs (ss_store s)) p"
    and M: "M = (\<lambda>k. map_option (text_at (st_objs (ss_store s))) (D k))" and con: "connected (ss_client s)"
    using inv by (auto simp: kv_inv_def)
  have Mk: "M key \<noteq> None \<longleftrightarrow> D key \<noteq> None" by (simp add: M)
  let ?b = "blocked flags (D key \<noteq> None)" and ?D' = "if blocked flags (D key \<noteq> None) then D else D(key \<mapsto> val)"
  have idle: "D key = None \<Longrightarrow> ht_RehashingIdx (db_dict (st_db (ss_store s))) < 0"
    by (rule small_room [OF D(2,3) K])
  from set_step [OF D(1) string_ptr_valid [OF val(1)] con idle, where expire = None and flags = flags and unit = unit and ms = 0 and now = now]
  obtain s' where s': "setGenericCommand now flags key val None unit s = Ret s'" "db_rep (ss_store s') ?D' Map.empty"
      "contents (st_objs (ss_store s')) = contents (st_objs (ss_store s))"
      "ss_client s' = sent (set_reply flags (D key \<noteq> None)) (ss_client s)" by auto
  have small': "small (ss_store s') ?D'"
    by (rule set_small [OF D(2,1) string_ptr_valid [OF val(1)] con idle s'(1)])
  have "kv_inv K s' (\<lambda>k. map_option (text_at (st_objs (ss_store s))) (?D' k))"
    by (rule kv_inv_write [OF _ s'(2) small' D(3) s'(3) str s'(4) con]) (use K(3) val(1) in auto)
  moreover have "(\<lambda>k. map_option (text_at (st_objs (ss_store s))) (?D' k)) = (if ?b then M else M(key \<mapsto> v))"
    by (simp add: M val(2) fun_eq_iff)
  ultimately show ?thesis using s'(1,4) by (intro exI [of _ s']) (simp only: Mk)
qed


lemma kv_read:
  assumes inv: "kv_inv K s M" and arg: "arg_string s 1 = Ret key"
  shows "\<exists>s'. cmd_Get now s = Ret s' \<and>
    ss_client s' = sent (case M key of None \<Rightarrow> null_reply | Some v \<Rightarrow> bulk v) (ss_client s) \<and> kv_inv K s' M"
proof -
  obtain D where D: "db_rep (ss_store s) D Map.empty" "small (ss_store s) D" "dom D \<subseteq> K"
    and str: "\<And>k p. D k = Some p \<Longrightarrow> string_ptr (st_objs (ss_store s)) p"
    and M: "M = (\<lambda>k. map_option (text_at (st_objs (ss_store s))) (D k))" and con: "connected (ss_client s)"
    using inv by (auto simp: kv_inv_def)
  let ?objs = "st_objs (ss_store s)"
  have val: "raw_string (?objs ! a) (text_at ?objs (Some a))" if "D key = Some (Some a)" for a
    using str [OF that] by (auto simp: string_ptr_def text_at_raw)
  from get_rep [OF D(1) arg con val, of now] obtain s' where s': "getGenericCommand now s = Ret (D key \<noteq> None, s')"
    "db_rep (ss_store s') D Map.empty" "contents (st_objs (ss_store s')) = contents ?objs"
    "ss_client s' = sent (case D key of Some (Some a) \<Rightarrow> bulk (text_at ?objs (Some a)) | _ \<Rightarrow> null_reply) (ss_client s)" by blast
  have small': "small (ss_store s') D" by (rule get_small [OF D(2,1) con s'(1)])
  have "(case D key of Some (Some a) \<Rightarrow> bulk (text_at ?objs (Some a)) | _ \<Rightarrow> null_reply) =
      (case M key of None \<Rightarrow> null_reply | Some v \<Rightarrow> bulk v)"
    using str [of key] by (auto simp: M string_ptr_def split: option.split)
  moreover have "kv_inv K s' M"
    unfolding M by (rule kv_inv_write [OF _ s'(2) small' D(3) s'(3) str s'(4) con]) simp
  ultimately show ?thesis using s'(1,4) by (auto simp: cmd_Get_def)
qed


section \<open>Refinement\<close>

lemma load_args_val:
  assumes "i < length ws"
  shows "argp (load_args ws s) (int i) = Ret (Some (length (st_objs (ss_store s)) + i))"
    and "string_ptr (st_objs (ss_store (load_args ws s))) (Some (length (st_objs (ss_store s)) + i))"
    and "text_at (st_objs (ss_store (load_args ws s))) (Some (length (st_objs (ss_store s)) + i)) = ws ! i"
  using load_args_arg [OF assms, of s] assms by (auto simp: string_ptr_def load_args_simps(2) text_at_raw)

lemma load_args_text: "text_args (load_args ws s) ws"
  unfolding text_args_def list_all2_conv_all_nth text_ptr_def
  by (auto simp: load_args_def Let_def nth_append)

lemma kv_inv_sent: "kv_inv K s M \<Longrightarrow> kv_inv K (s\<lparr>ss_client := sent out (ss_client s)\<rparr>) M"
  by (auto simp: kv_inv_def)

lemma kv_flags: "blocked ObjSetNX b = b" "set_reply ObjSetNX b = (if b then null_reply else ok_reply)"
  by (simp_all add: blocked_def set_reply_def obj_flag_defs)

text \<open>SET with any options.\<close>

lemma kv_set:
  assumes inv: "kv_inv K s M" and K: "finite K" "card K \<le> 12" "k \<in> K" and ws: "ws = kv_words (KvSet k v opts)"
  shows "\<exists>s'. cmd_Set now (load_args ws s) = Ret s' \<and>
    ss_client s' = sent (fst (kv_step (KvSet k v opts) M)) (ss_client (load_args ws s)) \<and>
    kv_inv K s' (snd (kv_step (KvSet k v opts) M))"
proof -
  let ?s = "load_args ws s" and ?so = "read_options opts plain_set"
  let ?s1 = "?s\<lparr>ss_client := sent (if so_error ?so then syntax_reply else []) (ss_client ?s)\<rparr>"
  have con: "connected (ss_client ?s)" using inv by (simp add: load_args_connected kv_inv_def)
  have len: "3 \<le> length ws" "2 < length ws" "ws ! 1 = k" "ws ! 2 = v" "?so = read_options (drop 3 ws) plain_set"
    by (simp_all add: ws)
  have arg: "cl_argv (ss_client ?s) ! 2 = Some (length (st_objs (ss_store s)) + 2)"
    using load_args_val(1) [OF len(2), of s] text_args_arg(1) [OF load_args_text len(2), of s] by simp
  obtain fl unit where fl: "flags_mean fl ?so" and run: "cmd_Set now ?s =
      (if takes_time ?so then Ret (?s1\<lparr>ss_client := sent time_reply (ss_client ?s1)\<rparr>)
       else setGenericCommand now fl k (Some (length (st_objs (ss_store s)) + 2)) None unit ?s1)"
    using cmd_Set_options [OF load_args_text con len(1,5), of now] unfolding Let_def len(3) arg by blast
  have inv1: "kv_inv K ?s1 M" by (rule kv_inv_sent [OF load_args_inv [OF inv]])
  show ?thesis
  proof (cases "takes_time ?so")
    case True
    with run kv_inv_sent [OF inv1, of time_reply] show ?thesis by (simp add: Let_def)
  next
    case False
    note val = load_args_val(2,3) [OF len(2), of s]
    from kv_write [OF inv1 K, where val = "Some (length (st_objs (ss_store s)) + 2)" and v = v and now = now and flags = fl and unit = unit] val len(4) False run show ?thesis
      by (auto simp: Let_def flags_mean_blocked [OF fl] flags_mean_answer [OF fl])
  qed
qed

text \<open>The commands with a time.\<close>

lemma kv_timed:
  assumes inv: "kv_inv K s M" and ws: "ws = [c, k, t, v]"
  shows "\<exists>s'. cmd_SetEx now (load_args ws s) = Ret s' \<and> cmd_PSetEx now (load_args ws s) = Ret s' \<and>
    ss_client s' = sent time_reply (ss_client (load_args ws s)) \<and> kv_inv K s' M"
proof -
  let ?s = "load_args ws s" and ?n = "length (st_objs (ss_store s))"
  have args: "arg_string ?s 1 = Ret k" "argp ?s 2 = Ret (Some (?n + 2))" "argp ?s 3 = Ret (Some (?n + 3))"
    using load_args_string [of 1 ws s] load_args_val(1) [of 2 ws s] load_args_val(1) [of 3 ws s] by (simp_all add: ws)
  have time: "?n + 2 < length (st_objs (ss_store ?s))" "raw_string (st_objs (ss_store ?s) ! (?n + 2)) t"
    using load_args_arg(2) [of 2 ws s] by (simp_all add: ws load_args_simps)
  have con: "connected (ss_client ?s)" using inv by (simp add: load_args_connected kv_inv_def)
  let ?s' = "?s\<lparr>ss_client := sent time_reply (ss_client ?s)\<rparr>"
  have "cmd_SetEx now ?s = Ret ?s'" "cmd_PSetEx now ?s = Ret ?s'"
    by (simp_all add: cmd_SetEx_def cmd_PSetEx_def args setGenericCommand_def expire_text [OF time con] time_reply_def del: add_2_eq_Suc')
  with kv_inv_sent [OF load_args_inv [OF inv], of time_reply ws] show ?thesis by simp
qed

lemma kv_setnx:
  assumes inv: "kv_inv K s M" and K: "finite K" "card K \<le> 12" "k \<in> K" and ws: "ws = [c, k, v]"
  shows "\<exists>s'. cmd_SetNx now (load_args ws s) = Ret s' \<and>
    ss_client s' = sent (if M k = None then ok_reply else null_reply) (ss_client (load_args ws s)) \<and>
    kv_inv K s' (if M k = None then M(k \<mapsto> v) else M)"
proof -
  have len: "1 < length ws" "2 < length ws" by (simp_all add: ws)
  have "cmd_SetNx now (load_args ws s) =
      setGenericCommand now ObjSetNX k (Some (length (st_objs (ss_store s)) + 2)) None 0 (load_args ws s)"
    using load_args_string [OF len(1), of s] load_args_val(1) [OF len(2), of s] by (simp add: cmd_SetNx_def ws)
  with kv_write [OF load_args_inv [OF inv] K load_args_val(2) [OF len(2)], where v = v and now = now and flags = ObjSetNX and unit = 0] load_args_val(3) [OF len(2), of s]
  show ?thesis by (auto simp: kv_flags ws split: if_splits)
qed

lemma kv_handler_refines:
  assumes inv: "kv_inv K s M" and K: "finite K" "card K \<le> 12" "kv_key c \<in> K"
  shows "\<exists>s'. kv_handler c now (load_args (kv_words c) s) = Ret s' \<and>
    ss_client s' = sent (fst (kv_step c M)) (ss_client (load_args (kv_words c) s)) \<and> kv_inv K s' (snd (kv_step c M))"
proof (cases c)
  case (KvGet k)
  have "arg_string (load_args (kv_words c) s) 1 = Ret k" using load_args_string [of 1 "kv_words c" s] KvGet by simp
  from kv_read [OF load_args_inv [OF inv] this, of now] show ?thesis by (simp add: KvGet)
next
  case (KvSet k v opts)
  with kv_set [OF inv K(1,2) _ refl, where k = k and v = v and opts = opts and now = now] K(3) show ?thesis by (simp del: kv_words.simps kv_step.simps)
next
  case (KvSetNx k v)
  with kv_setnx [OF inv K(1,2) _ refl, where k = k and c = "''SETNX''" and v = v and now = now] K(3) show ?thesis by (auto split: if_splits)
next
  case (KvSetEx k t v)
  with kv_timed [OF inv refl, where c = "''SETEX''" and k = k and t = t and v = v and now = now] show ?thesis by auto
next
  case (KvPSetEx k t v)
  with kv_timed [OF inv refl, where c = "''PSETEX''" and k = k and t = t and v = v and now = now] show ?thesis by auto
qed


text \<open>A session over the keys \<open>K\<close> that stays below the bound, and a client that may be written to.\<close>

definition kv_rel :: "string set \<Rightarrow> session \<Rightarrow> (string \<rightharpoonup> string) \<Rightarrow> bool" where
  "kv_rel K s M \<longleftrightarrow> finite K \<and> card K \<le> 12 \<and> kv_inv K s M \<and> prepareClientToWrite (ss_client s)"

definition replies :: "session \<Rightarrow> string" where
  "replies s = the (cl_connection (ss_client s))"

interpretation kv: simulation "kv_rel K" "\<lambda>x. kv_key (snd x) \<in> K" kv_command kv_spec replies for K
proof
  fix s M and x :: "int64 \<times> kv_cmd"
  assume R: "kv_rel K s M" and x: "kv_key (snd x) \<in> K"
  let ?s = "load_args (kv_words (snd x)) s"
  have inv: "kv_inv K s M" and K: "finite K" "card K \<le> 12" using R by (simp_all add: kv_rel_def)
  obtain s' where s': "kv_command x s = Ret s'" "ss_client s' = sent (fst (kv_spec x M)) (ss_client ?s)"
    "kv_inv K s' (snd (kv_spec x M))"
    using kv_handler_refines [OF inv K x, of "fst x"] by (auto simp: kv_command_def kv_spec_def)
  obtain w where "cl_connection (ss_client s) = Some w" using inv by (auto simp: kv_inv_def connected_def)
  then have "cl_connection (ss_client s') = Some (w @ fst (kv_spec x M))" "replies s = w"
    using sent_output [of "ss_client ?s" w] R by (simp_all add: s'(2) load_args_prepare load_args_simps kv_rel_def replies_def)
  then show "\<exists>s'. kv_command x s = Ret s' \<and> kv_rel K s' (snd (kv_spec x M)) \<and> replies s' = replies s @ fst (kv_spec x M)"
    using s' R by (auto simp: kv_rel_def replies_def load_args_prepare)
qed

lemma kv_start_inv:
  "\<exists>s. kv_start = Ret s \<and> kv_inv K s Map.empty \<and> prepareClientToWrite (ss_client s) \<and> cl_connection (ss_client s) = Some []"
proof -
  obtain db where db: "New 0 = Ret db" "db_rep \<lparr>st_db = db, st_objs = [], st_mem = 0\<rparr> Map.empty Map.empty"
    "ht_RehashingIdx (db_dict db) = -1"
    using New_rep [of 0 "[]" 0] by auto
  have "represents (db_dict db) Map.empty 0" "ht_Size (db_dict db) = INITIAL_DB_SIZE"
    using db(1) NewHashTable_represents [of INITIAL_DB_SIZE, where ?'a = objptr]
    by (auto simp: New_def NewHashTable_def INITIAL_DB_SIZE_def)
  then have "small \<lparr>st_db = db, st_objs = [], st_mem = 0\<rparr> Map.empty" using db(3) by (simp add: small_def)
  moreover have "connected open_client" "prepareClientToWrite open_client" "cl_connection open_client = Some []"
    using text_session_client [of "[]"] by (simp_all add: open_client_def NewClient_def connected_def prepareClientToWrite_def)
  ultimately show ?thesis using db(1,2) by (auto simp: kv_start_def kv_inv_def)
qed

text \<open>
  C1: a session over at most twelve distinct keys is a session with a map: from an empty database every sequence of the commands GET, SET
  with any words as options, SETNX, SETEX and PSETEX, in any order and at any times, runs to its end without a panic; its output is, byte for
  byte, what the specification answers (its SET goes on after a syntax error, its times are all refused), and each key then has an object with
  exactly the bytes the map has. (The first rehash starts with the twelfth key.)
\<close>

theorem kv_session_is_a_map:
  assumes "card (set (map (kv_key \<circ> snd) cs)) \<le> 12"
  shows "\<exists>s0 s'. kv_start = Ret s0 \<and> go_run kv_command cs s0 = Ret s' \<and>
    replies s' = fst (spec_run kv_spec cs Map.empty) \<and>
    (\<exists>D. db_rep (ss_store s') D Map.empty \<and>
      snd (spec_run kv_spec cs Map.empty) = (\<lambda>k. map_option (text_at (st_objs (ss_store s'))) (D k)))"
proof -
  let ?K = "set (map (kv_key \<circ> snd) cs)"
  obtain s0 where s0: "kv_start = Ret s0" "kv_rel ?K s0 Map.empty" "replies s0 = []"
    using kv_start_inv [of ?K] assms by (auto simp: kv_rel_def replies_def)
  have "list_all (\<lambda>x. kv_key (snd x) \<in> ?K) cs" by (simp add: list_all_iff)
  from kv.run_sim [OF s0(2) this] s0(3) obtain s' where "go_run kv_command cs s0 = Ret s'"
    "kv_rel ?K s' (snd (spec_run kv_spec cs Map.empty))" "replies s' = fst (spec_run kv_spec cs Map.empty)" by auto
  with s0(1) show ?thesis unfolding kv_rel_def kv_inv_def by blast
qed

definition a_kv_session :: "(int64 \<times> kv_cmd) list" where
  "a_kv_session = [(1, KvSet ''a'' ''0'' [''xx'']), (2, KvSet ''a'' ''1'' [''FOO'']), (3, KvSetNx ''a'' ''2''), (3, KvSetEx ''a'' ''10'' ''3''),
     (5, KvSet ''a'' ''4'' [''XX'', ''get'']), (7, KvGet ''a''), (8, KvSet ''a'' ''5'' [''ex'', ''10'']), (9, KvGet ''b'')]"

lemma a_kv_session_spec:
  "fst (spec_run kv_spec a_kv_session Map.empty) =
    null_reply @ syntax_reply @ ok_reply @ null_reply @ time_reply @ bulk ''4'' @ time_reply @ null_reply"
  by code_simp

theorem kv_session_is_a_map_witness:
  "\<exists>s0 s'. kv_start = Ret s0 \<and> go_run kv_command a_kv_session s0 = Ret s' \<and>
    replies s' = null_reply @ syntax_reply @ ok_reply @ null_reply @ time_reply @ bulk ''4'' @ time_reply @ null_reply"
proof -
  have "card (set (map (kv_key \<circ> snd) a_kv_session)) \<le> 12" by (simp add: a_kv_session_def card_insert_if)
  from kv_session_is_a_map [OF this] show ?thesis unfolding a_kv_session_spec by blast
qed


section \<open>Beyond the bound\<close>

definition fourteen_keys :: "(int64 \<times> kv_cmd) list" where
  "fourteen_keys = map (\<lambda>c. (0, KvSet [c] [] [])) ''abcdefghijklop''"

lemma fourteen_keys_run:
  "gobind (gobind kv_start (go_run kv_command fourteen_keys)) (\<lambda>s. let h = db_dict (st_db (ss_store s)) in
     Ret (ht_RehashingIdx h, ht_Size h, length (ht_Table h), ht_Table h ! 30, ht_Entries h ! 12)) =
   Ret (-1, 32, 32, Some 12, \<lparr>ent_Key = ''o'', ent_Value = Some 38, ent_Next = Some 12\<rparr>)"
  by code_simp

lemma GET_hangs:
  assumes "Get k (db_dict (st_db (ss_store s))) = Diverges"
  shows "cmd_Get now (load_args [''GET'', k] s) = Diverges"
proof -
  let ?s = "load_args [''GET'', k] s"
  have "arg_string ?s 1 = Ret k" using load_args_string [of 1 "[''GET'', k]" s] by simp
  moreover have "LookupKeyRead now k (ss_store ?s) = Diverges"
    using assms by (simp add: LookupKeyRead_def lookupKeyReadWithFlags_def lookupKey_def load_args_simps(3) Let_def)
  ultimately show ?thesis by (simp add: cmd_Get_def getGenericCommand_def on_store_def)
qed

text \<open>
  The bound is needed: after SET of fourteen distinct keys, all answered, a GET of a key that was never set hangs the
  server, because the rehash that the twelfth key started left an entry that is its own successor.
\<close>

theorem fourteen_keys_hang:
  "(\<exists>s. gobind kv_start (go_run kv_command fourteen_keys) = Ret s) \<and>
   gobind kv_start (go_run kv_command (fourteen_keys @ [(0, KvGet ''O'')])) = Diverges"
proof -
  obtain s where s: "gobind kv_start (go_run kv_command fourteen_keys) = Ret s"
    using fourteen_keys_run by (auto simp: gobind_Ret_iff)
  let ?h = "db_dict (st_db (ss_store s))"
  have st: "ht_RehashingIdx ?h = -1" "ht_Size ?h = 32" "length (ht_Table ?h) = 32" "ht_Table ?h ! 30 = Some 12"
    "ht_Entries ?h ! 12 = \<lparr>ent_Key = ''o'', ent_Value = Some 38, ent_Next = Some 12\<rparr>"
    using fourteen_keys_run unfolding s by (simp_all add: Let_def)
  have hash: "Hash ''O'' 32 = Ret 30" by code_simp
  have "chain_find (ht_Entries ?h) ''O'' (Some 12) = Diverges"
    by (rule chain_find_self_loop) (simp_all add: st)
  with st hash have "Get ''O'' ?h = Diverges" by (simp add: Get_def GetEntry_def slice_get_def)
  from GET_hangs [OF this, of 0] have "go_run kv_command [(0, KvGet ''O'')] s = Diverges" by (simp add: kv_command_def)
  moreover have "gobind kv_start (go_run kv_command (fourteen_keys @ [(0, KvGet ''O'')])) = go_run kv_command [(0, KvGet ''O'')] s"
  proof -
    from s obtain s0 where s0: "kv_start = Ret s0" "go_run kv_command fourteen_keys s0 = Ret s" by (rule gobindE)
    show ?thesis unfolding s0(1) gobind_simps go_run_append s0(2) ..
  qed
  ultimately show ?thesis using s by simp
qed

end
