(* ===== verification/Acl.thy ===== *)
theory Acl
  imports Client
begin

text \<open>
  Access control, \<open>src/node/acl.go\<close>: the named flags and categories, the bit set of the commands a selector allows, and
  the check of a command against a selector. Users are in \<open>Client\<close>.
\<close>

section \<open>Flags and categories\<close>

datatype AclCheckAllPerm = ACLOK | ACLDeniedCmd | ACLDeniedKey | ACLDeniedAuth | ACLDeniedChannel

type_synonym SelectorFlag = "8 word"

definition SelectorFlagAllKeys :: SelectorFlag where "SelectorFlagAllKeys = 1"
definition SelectorFlagAllCommands :: SelectorFlag where "SelectorFlagAllCommands = 2"
definition SelectorFlagAllChannels :: SelectorFlag where "SelectorFlagAllChannels = 4"

text \<open>The tables end with an entry of the zero values.\<close>

definition AclSelectorFlags :: "(string \<times> SelectorFlag) list" where
  "AclSelectorFlags =
     [(''allkeys'', SelectorFlagAllKeys), (''allcommands'', SelectorFlagAllCommands),
      (''allchannels'', SelectorFlagAllChannels), ([], 0)]"

text \<open>The categories are the powers of two, in the order of this table.\<close>

definition category :: "nat \<Rightarrow> uint64" where
  "category n = push_bit n 1"

definition ACLCommandCategories :: "(string \<times> uint64) list" where
  "ACLCommandCategories =
     [(''keyspace'', category 0), (''read'', category 1), (''write'', category 2), (''set'', category 3),
      (''sortedset'', category 4), (''list'', category 5), (''hash'', category 6), (''string'', category 7),
      (''bitmap'', category 8), (''hyperloglog'', category 9), (''geo'', category 10), (''stream'', category 11),
      (''pubsub'', category 12), (''admin'', category 13), (''fast'', category 14), (''slow'', category 15),
      (''blocking'', category 16), (''dangerous'', category 17), (''connection'', category 18),
      (''transaction'', category 19), (''scripting'', category 20), ([], 0)]"

definition ACLUserFlags :: "(string \<times> 8 word) list" where
  "ACLUserFlags =
     [(''on'', UserFlagEnabled), (''off'', UserFlagDisabled), (''nopass'', UserFlagNoPass),
      (''skip-sanitize-payload'', UserFlagSkipSanitizePayload), (''sanitize-payload'', UserFlagSanitizePayload), ([], 0)]"

section \<open>Selectors\<close>

definition UserCommandBitsCount :: nat where
  "UserCommandBitsCount = 1024"

text \<open>The array of allowed commands has (1024 + 63) / 64 words; a nil slice is None.\<close>

record aclSelector =
  sel_flags :: SelectorFlag
  allowedCommands :: "uint64 list"
  allowedFirstArgs :: "string list option list option"
  sel_patterns :: "string dlist option"
  sel_channels :: "string dlist option"
  sel_cmdRules :: string

definition selector_ok :: "aclSelector \<Rightarrow> bool" where
  "selector_ok s \<longleftrightarrow> length (allowedCommands s) = (UserCommandBitsCount + 63) div 64"

definition ACLGetCommandBitCoordinates :: "uint64 \<Rightarrow> uint64 \<times> uint64 \<times> bool" where
  "ACLGetCommandBitCoordinates n =
     (if n \<ge> of_nat UserCommandBitsCount then (0, 0, False)
      else (n div (8 * 8), push_bit (unat (n mod (8 * 8))) 1, True))"

definition cmdBit :: "aclSelector \<Rightarrow> uint64 \<Rightarrow> bool go" where
  "cmdBit s n =
     (case ACLGetCommandBitCoordinates n of
        (w, b, ok) \<Rightarrow>
          if ok then gobind (slice_get (allowedCommands s) (uint w)) (\<lambda>x. Ret (x AND b \<noteq> 0)) else Ret False)"

section \<open>Checks\<close>

text \<open>
  The loop over the first arguments a command is allowed with, from \<open>subid\<close> on: it stops at the empty string, and
  at the first entry that is not the argument.
\<close>

fun first_args_loop :: "string go \<Rightarrow> string list \<Rightarrow> AclCheckAllPerm go" where
  "first_args_loop arg [] = Panics IndexOutOfRange"
| "first_args_loop arg (a # as) =
     (if a = [] then Ret ACLDeniedCmd
      else gobind arg (\<lambda>v. if \<not> EqualFold v a then Ret ACLOK else first_args_loop arg as))"

definition checkCmd :: "aclSelector \<Rightarrow> baseCommand \<Rightarrow> redisObj list \<Rightarrow> objptr list \<Rightarrow> int \<Rightarrow> AclCheckAllPerm go" where
  "checkCmd s cmd objs argv argc =
     (if sel_flags s AND SelectorFlagAllCommands = 0 \<and> cmd_flags cmd AND CmdNoAuth = 0 then
        let n = cmd_id cmd in
        gobind (cmdBit s n) (\<lambda>allowed.
          if allowed then Ret ACLOK
          else if argc < 2 then Ret ACLDeniedCmd
          else case allowedFirstArgs s of
            None \<Rightarrow> Ret ACLDeniedCmd
          | Some fa \<Rightarrow>
              gobind (slice_get fa (uint n)) (\<lambda>p.
                case p of
                  None \<Rightarrow> Ret ACLDeniedCmd
                | Some as \<Rightarrow>
                    let idx = (if cmd_parent cmd \<noteq> None then 2 else 1) in
                    first_args_loop
                      (gobind (slice_get argv idx) (\<lambda>a. gobind (deref objs a) (\<lambda>ob. as_string (obj_Value ob)))) as))
      else Ret ACLOK)"

text \<open>\<open>ACLCheckAllUserCommandPerm\<close> walks over the selectors of the user and, as yet, does nothing with them.\<close>

definition ACLCheckAllUserCommandPerm :: "user \<Rightarrow> unit go" where
  "ACLCheckAllUserCommandPerm u =
     gobind (iterate (us_selectors u) (NewListIterator DIRECTION_HEAD (us_selectors u))) (\<lambda>_. Ret ())"

end
