(* ===== verification/Acl_Props.thy ===== *)
theory Acl_Props
  imports Acl Client_Input
begin

text \<open>
  Access control, \<open>src/node/acl.go\<close>: which bit the check of a command reads, and whom the restriction to first
  arguments lets through.
\<close>

section \<open>The bit set\<close>

lemma coordinates:
  "n < 1024 \<Longrightarrow> ACLGetCommandBitCoordinates n = (n div 64, push_bit (unat (n mod 64)) 1, True)"
  by (simp add: ACLGetCommandBitCoordinates_def UserCommandBitsCount_def not_le)

lemma and_bit_nonzero: "(x AND 2 ^ k \<noteq> 0) = bit (x :: uint64) k"
  by (simp add: and_exp_eq_0_iff_not_bit)

text \<open>
  C21: the check of a command bit never panics: the bit it reads for the ids below 1024 is bit \<open>id mod 64\<close> of word
  \<open>id div 64\<close>, and every other id is denied.
\<close>

theorem cmdBit_reads_bit:
  assumes "selector_ok s"
  shows "cmdBit s n = Ret (n < 1024 \<and> bit (allowedCommands s ! (unat n div 64)) (unat n mod 64))"
proof (cases "n < 1024")
  case True
  then have less: "unat n < 1024" by (simp add: word_less_nat_alt)
  then have "unat n div 64 < length (allowedCommands s)"
    using assms by (simp add: selector_ok_def UserCommandBitsCount_def)
  moreover have "uint (n div 64) = int (unat n div 64)" by (simp add: uint_nat unat_div)
  moreover have "unat (n mod 64) = unat n mod 64" by (simp add: unat_mod)
  ultimately show ?thesis using True
    by (simp add: cmdBit_def coordinates and_bit_nonzero)
next
  case False
  then show ?thesis by (simp add: cmdBit_def ACLGetCommandBitCoordinates_def UserCommandBitsCount_def not_less)
qed

definition some_selector :: aclSelector where
  "some_selector =
     \<lparr>sel_flags = 0, allowedCommands = replicate 16 0, allowedFirstArgs = Some (replicate 1024 (Some [''get'', []])),
      sel_patterns = None, sel_channels = None, sel_cmdRules = []\<rparr>"

theorem cmdBit_reads_bit_witness:
  "cmdBit some_selector 70 =
    Ret (70 < (1024 :: uint64) \<and> bit (allowedCommands some_selector ! (unat (70 :: uint64) div 64)) (unat (70 :: uint64) mod 64))"
  by (rule cmdBit_reads_bit) (simp add: selector_ok_def some_selector_def UserCommandBitsCount_def)

text \<open>
  of the first arguments a command is restricted to the check asks for the opposite: an argument that is
  not the first entry of the list is let through, one that matches the whole list is denied.
\<close>

theorem checkCmd_inverted:
  assumes "sel_flags s AND SelectorFlagAllCommands = 0" and "cmd_flags cmd AND CmdNoAuth = 0"
    and "cmdBit s (cmd_id cmd) = Ret False" and "argc \<ge> 2"
    and "allowedFirstArgs s = Some fa" and "unat (cmd_id cmd) < length fa" and "fa ! unat (cmd_id cmd) = Some [a, []]"
    and "a \<noteq> []" and "cmd_parent cmd = None"
    and "slice_get argv 1 = Ret p" and "deref objs p = Ret ob" and "obj_Value ob = AString v"
  shows "checkCmd s cmd objs argv argc = Ret (if EqualFold v a then ACLDeniedCmd else ACLOK)"
proof -
  have "slice_get fa (uint (cmd_id cmd)) = Ret (Some [a, []])"
    using slice_get_nat [OF assms(6)] assms(7) by (metis uint_nat)
  moreover have "first_args_loop (Ret v) [a, []] = Ret (if EqualFold v a then ACLDeniedCmd else ACLOK)"
    using assms(8) by simp
  moreover have "gobind (slice_get argv 1) (\<lambda>a. gobind (deref objs a) (\<lambda>ob. as_string (obj_Value ob))) = Ret v"
    by (simp only: assms(10,11,12) gobind_simps as_string_def goany.case)
  moreover have "\<not> argc < 2" using assms(4) by simp
  ultimately show ?thesis
    by (simp only: checkCmd_def Let_def assms(1-3,5,9) gobind_simps if_False if_True simp_thms option.case)
qed

text \<open>The command number 0, restricted to the argument get, is allowed with any other argument.\<close>

theorem checkCmd_inverted_witness:
  "checkCmd some_selector (a_command ''config'' (-2) 0) [an_object ''config'', an_object ''set''] [Some 0, Some 1] 2 =
    Ret ACLOK"
proof -
  have "checkCmd some_selector (a_command ''config'' (-2) 0) [an_object ''config'', an_object ''set''] [Some 0, Some 1] 2 =
    Ret (if EqualFold ''set'' ''get'' then ACLDeniedCmd else ACLOK)"
  proof (rule checkCmd_inverted)
    show "cmdBit some_selector (cmd_id (a_command ''config'' (-2) 0)) = Ret False" by code_simp
    show "deref [an_object ''config'', an_object ''set''] (Some 1) = Ret (an_object ''set'')" by code_simp
    show "obj_Value (an_object ''set'') = AString ''set''" by code_simp
    show "allowedFirstArgs some_selector = Some (replicate 1024 (Some [''get'', []]))" by (simp add: some_selector_def)
  qed (simp_all add: some_selector_def a_command_def slice_get_def)
  moreover have "\<not> EqualFold ''set'' ''get''" by code_simp
  ultimately show ?thesis by simp
qed

end
