(* ===== verification/Hreader.thy ===== *)
theory Hreader
  imports Gostrings
begin

text \<open>
  The reply reader of the client library, \<open>src/deps/hredis/read.go\<close>, and the reply of
  \<open>src/deps/hredis/hredis.go\<close> that it makes. A \<open>*RedisReader\<close> is passed and returned; a task on its stack is
  named by its index. The functions that create replies are function values of the reader, and float64 with
  its parsing is a parameter of the model.
\<close>

section \<open>Data\<close>

datatype RedisStatus = RedisErr | RedisOk

datatype RedisErrFlag =
    RedisErrNoErr
  | RedisErrIo
  | RedisErrOther
  | RedisErrEOF
  | RedisErrProtocol
  | RedisErrOOM
  | RedisErrTimeout

text \<open>The value 0 has no name in the source; it is the zero value of the type.\<close>

datatype RedisReplyType =
    RedisReplyUnknown
  | RedisReplyZero
  | RedisReplyString
  | RedisReplyArray
  | RedisReplyInteger
  | RedisReplyNil
  | RedisReplyStatus
  | RedisReplyError
  | RedisReplyDouble
  | RedisReplyBool
  | RedisReplyMap
  | RedisReplySet
  | RedisReplyAttribute
  | RedisReplyPush
  | RedisReplyBignumber
  | RedisReplyVerbatim

datatype 'f RedisReply = RedisReply
  (rr_Tp: RedisReplyType)
  (rr_Integer: int)
  (rr_Dval: 'f)
  (rr_Str: string)
  (rr_Vtype: string)
  (rr_Elements: int)
  (rr_Element: "'f RedisReply option list")

record 'f RedisReadTask =
  tk_tp :: RedisReplyType
  tk_idx :: int
  tk_elements :: int
  tk_parent :: "nat option"
  tk_obj :: "'f RedisReply option"

text \<open>The literal \<open>&RedisReadTask{tp: RedisReplyUnknown}\<close>.\<close>

definition new_task :: "'f RedisReadTask" where
  "new_task = \<lparr>tk_tp = RedisReplyUnknown, tk_idx = 0, tk_elements = 0, tk_parent = None, tk_obj = None\<rparr>"

record 'f float64 =
  f_Parse :: "string \<Rightarrow> 'f option"
  f_Inf :: 'f
  f_NegInf :: 'f
  f_NaN :: 'f

text \<open>Function values, each possibly nil; each returns a reply pointer, possibly nil.\<close>

record 'f RedisReplyObjectFunctions =
  CreateString :: "('f RedisReadTask \<Rightarrow> string \<Rightarrow> uint64 \<Rightarrow> 'f RedisReply option) option"
  CreateArray :: "('f RedisReadTask \<Rightarrow> uint64 \<Rightarrow> 'f RedisReply option) option"
  CreateInteger :: "('f RedisReadTask \<Rightarrow> int \<Rightarrow> 'f RedisReply option) option"
  CreateDouble :: "('f RedisReadTask \<Rightarrow> 'f \<Rightarrow> string \<Rightarrow> uint64 \<Rightarrow> 'f RedisReply option) option"
  CreateNil :: "('f RedisReadTask \<Rightarrow> 'f RedisReply option) option"
  CreateBool :: "('f RedisReadTask \<Rightarrow> bool \<Rightarrow> 'f RedisReply option) option"

record 'f RedisReader =
  rd_err :: RedisErrFlag
  rd_errStr :: string
  rd_buf :: string
  rd_pos :: int
  rd_len :: int
  rd_maxBuf :: int
  rd_maxElements :: int
  rd_rIdx :: int
  rd_task :: "'f RedisReadTask list"
  rd_reply :: "'f RedisReply option"
  rd_funcs :: "'f RedisReplyObjectFunctions"

section \<open>Errors\<close>

definition setErr :: "RedisErrFlag \<Rightarrow> string \<Rightarrow> 'f RedisReader \<Rightarrow> 'f RedisReader" where
  "setErr tp err r =
     r\<lparr>rd_buf := [], rd_pos := 0, rd_len := 0, rd_rIdx := -1, rd_err := tp, rd_errStr := err\<rparr>"

definition setErrOOM :: "'f RedisReader \<Rightarrow> 'f RedisReader" where
  "setErrOOM r = setErr RedisErrOOM ''Out of memory'' r"

text \<open>A byte as a rune, encoded: the verb \<open>%c\<close> of a byte and the conversion \<open>string(c)\<close> of one.\<close>

definition byte_rune :: "char \<Rightarrow> string" where
  "byte_rune c =
     (let n = of_char c :: nat in if n < 128 then [c] else [char_of (192 + n div 64), char_of (128 + n mod 64)])"

definition setErrProtocolByte :: "char \<Rightarrow> 'f RedisReader \<Rightarrow> 'f RedisReader" where
  "setErrProtocolByte err r =
     setErr RedisErrProtocol
       (''Protocol error, got '' @ [CHR 0x27] @ byte_rune err @ [CHR 0x27] @ '' as reply type byte'') r"

section \<open>Reading the buffer\<close>

text \<open>\<open>s[lo:hi]\<close>; as for the other slices the capacity is taken to be the length.\<close>

definition slice_range :: "'a list \<Rightarrow> int \<Rightarrow> int \<Rightarrow> 'a list go" where
  "slice_range xs lo hi =
     (if 0 \<le> lo \<and> lo \<le> hi \<and> hi \<le> int (length xs) then Ret (take (nat (hi - lo)) (drop (nat lo) xs))
      else Panics SliceOutOfRange)"

definition readBytes :: "int \<Rightarrow> 'f RedisReader \<Rightarrow> (string option \<times> 'f RedisReader) go" where
  "readBytes n r =
     (if rd_len r < n then Ret (None, r)
      else gobind (slice_range (rd_buf r) (rd_pos r) (rd_pos r + n)) (\<lambda>p.
        Ret (Some p, r\<lparr>rd_pos := rd_pos r + n, rd_len := rd_len r - n\<rparr>)))"

text \<open>The line and its length; the error is None.\<close>

definition readLine :: "'f RedisReader \<Rightarrow> ((string \<times> int) option \<times> 'f RedisReader) go" where
  "readLine r =
     gobind (slice_from (rd_buf r) (rd_pos r)) (\<lambda>p.
       case split_crlf p of
         (_, None) \<Rightarrow> Ret (None, r)
       | (line, Some _) \<Rightarrow>
           Ret (Some (line, int (length line)), r\<lparr>rd_pos := rd_pos r + int (length line) + 2\<rparr>))"

text \<open>The loop of \<open>seekNewline\<close> from index \<open>i\<close> on.\<close>

fun seek_from :: "nat \<Rightarrow> string \<Rightarrow> int" where
  "seek_from i (a # b # s) = (if a = CHR 0x0D \<and> b = CHR 0x0A then int i else seek_from (Suc i) (b # s))"
| "seek_from i s = -1"

definition seekNewline :: "string \<Rightarrow> int" where
  "seekNewline s = (if length s < 2 then -1 else seek_from 0 s)"

section \<open>The task stack\<close>

definition cur_task :: "'f RedisReader \<Rightarrow> 'f RedisReadTask go" where
  "cur_task r = slice_get (rd_task r) (rd_rIdx r)"

definition update_task ::
  "int \<Rightarrow> ('f RedisReadTask \<Rightarrow> 'f RedisReadTask) \<Rightarrow> 'f RedisReader \<Rightarrow> 'f RedisReader" where
  "update_task i f r = r\<lparr>rd_task := (rd_task r)[nat i := f (rd_task r ! nat i)]\<rparr>"

function moveToNextTask :: "'f RedisReader \<Rightarrow> 'f RedisReader go" where
  "moveToNextTask r =
     (if rd_rIdx r < 0 then Ret r
      else if rd_rIdx r = 0 then Ret (r\<lparr>rd_rIdx := -1\<rparr>)
      else
        gobind (slice_get (rd_task r) (rd_rIdx r)) (\<lambda>cur.
        gobind (slice_get (rd_task r) (rd_rIdx r - 1)) (\<lambda>prv.
          if tk_idx cur = tk_elements prv - 1 then moveToNextTask (r\<lparr>rd_rIdx := rd_rIdx r - 1\<rparr>)
          else
            Ret (update_task (rd_rIdx r) (\<lambda>t. t\<lparr>tk_idx := tk_idx t + 1\<rparr>)
              (update_task (rd_rIdx r - 1) (\<lambda>t. t\<lparr>tk_tp := RedisReplyUnknown, tk_elements := -1\<rparr>) r)))))"
  by pat_completeness auto
termination
  by (relation "measure (\<lambda>r. nat (rd_rIdx r))") auto

declare moveToNextTask.simps [simp del]

section \<open>Items\<close>

text \<open>A call through a function value that may be nil: then the object stays nil.\<close>

abbreviation call :: "('a \<Rightarrow> 'r option) option \<Rightarrow> 'a \<Rightarrow> 'r option" where
  "call f x \<equiv> (case f of None \<Rightarrow> None | Some g \<Rightarrow> g x)"

text \<open>\<open>strings.ContainsRune(s, rune(c))\<close> for an ASCII string: a byte above 127 is a rune that is not in it.\<close>

abbreviation contains_rune :: "string \<Rightarrow> char \<Rightarrow> bool" where
  "contains_rune s c \<equiv> c \<in> set s"

text \<open>What a line of each type gives: an error message, or the object, nil when there is no function for it.\<close>

definition line_double :: "'f float64 \<Rightarrow> string \<Rightarrow> int \<Rightarrow> string + 'f" where
  "line_double F p l =
     (if l \<ge> 326 then Inl ''Double value is too large''
      else if l = 3 \<and> EqualFold p ''inf'' then Inr (f_Inf F)
      else if l = 4 \<and> EqualFold p ''-inf'' then Inr (f_NegInf F)
      else if (l = 3 \<and> EqualFold p ''nan'') \<or> (l = 4 \<and> EqualFold p ''-nan'') then Inr (f_NaN F)
      else case f_Parse F p of None \<Rightarrow> Inl ''Bad double value'' | Some d \<Rightarrow> Inr d)"

definition bignumber_ok :: "string \<Rightarrow> bool" where
  "bignumber_ok p =
     (let digits = (if p \<noteq> [] \<and> hd p = CHR ''-'' then tl p else p) in
      list_all (in_range 48 57) digits)"

definition line_object ::
  "'f float64 \<Rightarrow> 'f RedisReplyObjectFunctions \<Rightarrow> 'f RedisReadTask \<Rightarrow> string \<Rightarrow> int \<Rightarrow> string + 'f RedisReply option" where
  "line_object F fn t p l =
     (case tk_tp t of
        RedisReplyInteger \<Rightarrow>
          (case ParseInt p of
             (_, Some _) \<Rightarrow> Inl ''Bad integer value''
           | (v, None) \<Rightarrow> Inr (case CreateInteger fn of None \<Rightarrow> None | Some f \<Rightarrow> f t v))
      | RedisReplyDouble \<Rightarrow>
          (case line_double F p l of
             Inl e \<Rightarrow> Inl e
           | Inr d \<Rightarrow> Inr (case CreateDouble fn of None \<Rightarrow> None | Some f \<Rightarrow> f t d p (word_of_int l)))
      | RedisReplyNil \<Rightarrow>
          if l \<noteq> 0 then Inl ''Bad nil value''
          else Inr (call (CreateNil fn) t)
      | RedisReplyBool \<Rightarrow>
          if l \<noteq> 1 \<or> \<not> contains_rune ''tTfF'' (p ! 0) then Inl ''Bad bool value''
          else Inr (case CreateBool fn of None \<Rightarrow> None | Some f \<Rightarrow> f t (contains_rune ''tT'' (p ! 0)))
      | RedisReplyBignumber \<Rightarrow>
          if \<not> bignumber_ok p then Inl ''Bad bignumber value''
          else Inr (case CreateString fn of None \<Rightarrow> None | Some f \<Rightarrow> f t p (word_of_int l))
      | _ \<Rightarrow>
          if CHR 0x0D \<in> set p \<or> CHR 0x0A \<in> set p then Inl ''Bad simple string value''
          else Inr (case CreateString fn of None \<Rightarrow> None | Some f \<Rightarrow> f t p (word_of_int l)))"

definition processLineItem :: "'f float64 \<Rightarrow> 'f RedisReader \<Rightarrow> (RedisStatus \<times> 'f RedisReader) go" where
  "processLineItem F r =
     gobind (cur_task r) (\<lambda>curTask.
     gobind (readLine r) (\<lambda>(line, r1).
       case line of
         None \<Rightarrow> Ret (RedisErr, r1)
       | Some (p, l) \<Rightarrow>
           (case line_object F (rd_funcs r1) curTask p l of
              Inl e \<Rightarrow> Ret (RedisErr, setErr RedisErrProtocol e r1)
            | Inr None \<Rightarrow> Ret (RedisErr, setErrOOM r1)
            | Inr (Some obj) \<Rightarrow>
                if rd_rIdx r1 = 0 then
                  gobind (moveToNextTask (r1\<lparr>rd_reply := Some obj\<rparr>)) (\<lambda>r2. Ret (RedisOk, r2))
                else Ret (RedisErr, r1))))"

text \<open>
  \<open>processBulkItem\<close> after the length was read. The limit \<open>math.MaxInt64\<close> can not be passed by an int64. The
  outcome of the middle part is the object and how far to move, None when the item is not complete.
\<close>

definition bulk_item ::
  "'f RedisReadTask \<Rightarrow> int \<Rightarrow> int \<Rightarrow> 'f RedisReader \<Rightarrow> (string + ('f RedisReply option \<times> int) option) go" where
  "bulk_item t idx lenInt r =
     (if lenInt = -1 then Ret (Inr (Some (call (CreateNil (rd_funcs r)) t, idx - rd_pos r + 2)))
      else if rd_pos r + (idx + 2) \<le> rd_len r then
        gobind (if tk_tp t = RedisReplyVerbatim then Ret (lenInt < 4)
                else gobind (slice_get (rd_buf r) (idx + 5)) (\<lambda>c. Ret (c \<noteq> CHR '':''))) (\<lambda>bad.
        if bad then
          Ret (Inl ''Verbatim string 4 bytes of content type are missing or incorrectly encoded.'')
        else
          (case CreateString (rd_funcs r) of
             None \<Rightarrow> Ret (Inr (Some (None, idx + 2)))
           | Some f \<Rightarrow>
               gobind (slice_range (rd_buf r) (rd_pos r + idx + 2) (rd_pos r + idx + 2 + lenInt)) (\<lambda>s.
                 Ret (Inr (Some (f t s (word_of_int lenInt), idx + 2))))))
      else Ret (Inr None))"

definition processBulkItem :: "'f RedisReader \<Rightarrow> (RedisStatus \<times> 'f RedisReader) go" where
  "processBulkItem r =
     gobind (cur_task r) (\<lambda>curTask.
     gobind (slice_from (rd_buf r) (rd_pos r)) (\<lambda>unread.
       let idx = seekNewline unread in
       if idx > 0 then
         gobind (slice_range (rd_buf r) (rd_pos r) (rd_pos r + idx)) (\<lambda>line.
           case ParseInt line of
             (_, Some _) \<Rightarrow> Ret (RedisErr, setErr RedisErrProtocol ''Bad bulk string length'' r)
           | (lenInt, None) \<Rightarrow>
               if lenInt < -1 \<or> lenInt > MaxInt64 then
                 Ret (RedisErr, setErr RedisErrProtocol ''Bulk string length out of range'' r)
               else
                 gobind (bulk_item curTask idx lenInt r) (\<lambda>item.
                   case item of
                     Inl e \<Rightarrow> Ret (RedisErr, setErr RedisErrProtocol e r)
                   | Inr None \<Rightarrow> Ret (RedisErr, r)
                   | Inr (Some (None, _)) \<Rightarrow> Ret (RedisErr, setErrOOM r)
                   | Inr (Some (Some obj, byteLen)) \<Rightarrow>
                       let r1 = r\<lparr>rd_pos := rd_pos r + byteLen\<rparr> in
                       if rd_rIdx r1 = 0 then
                         gobind (moveToNextTask (r1\<lparr>rd_reply := Some obj\<rparr>)) (\<lambda>r2. Ret (RedisOk, r2))
                       else Ret (RedisErr, r1)))
       else Ret (RedisErr, r)))"

text \<open>
  The tail of \<open>processAggregateItem\<close> when the reply object was made: push the task of the first element
  when there are elements, go on otherwise.
\<close>

definition open_aggregate :: "int \<Rightarrow> 'f RedisReply \<Rightarrow> 'f RedisReader \<Rightarrow> 'f RedisReader go" where
  "open_aggregate elements obj r =
     (if elements > 0 then
        let r1 = update_task (rd_rIdx r) (\<lambda>t. t\<lparr>tk_elements := elements, tk_obj := Some obj\<rparr>) r;
            r2 = r1\<lparr>rd_rIdx := rd_rIdx r1 + 1\<rparr> in
        gobind (slice_set (rd_task r2) (rd_rIdx r2) new_task) (\<lambda>ts. Ret (r2\<lparr>rd_task := ts\<rparr>))
      else moveToNextTask r)"

text \<open>The product \<open>elements * 2\<close> of an int64 wraps.\<close>

definition doubled :: "int \<Rightarrow> int" where
  "doubled n = sint (word_of_int (n * 2) :: int64)"

definition processAggregateItem :: "'f RedisReader \<Rightarrow> (RedisStatus \<times> 'f RedisReader) go" where
  "processAggregateItem r =
     gobind (cur_task r) (\<lambda>curTask.
     gobind (readLine r) (\<lambda>(line, r1).
       case line of
         None \<Rightarrow> Ret (RedisErr, r1)
       | Some (p, _) \<Rightarrow>
           (case ParseInt p of
              (_, Some _) \<Rightarrow> Ret (RedisErr, setErr RedisErrProtocol ''Bad multi-bulk length'' r1)
            | (elements, None) \<Rightarrow>
                let root = (rd_rIdx r1 = 0);
                    finish = (\<lambda>obj r'. if root then Ret (RedisOk, r'\<lparr>rd_reply := Some obj\<rparr>) else Ret (RedisErr, r')) in
                if elements < -1 \<or> elements > MaxInt64 \<or> (rd_maxElements r1 > 0 \<and> elements > rd_maxElements r1) then
                  Ret (RedisErr, setErr RedisErrProtocol ''Multi-bulk length out of range'' r1)
                else if elements = -1 then
                  (case call (CreateNil (rd_funcs r1)) curTask of
                     None \<Rightarrow> Ret (RedisErr, setErrOOM r1)
                   | Some obj \<Rightarrow> gobind (moveToNextTask r1) (finish obj))
                else
                  let elements' = (if tk_tp curTask = RedisReplyMap then doubled elements else elements) in
                  (case CreateArray (rd_funcs r1) of
                     None \<Rightarrow> Ret (RedisErr, setErrOOM r1)
                   | Some f \<Rightarrow>
                       (case f curTask (word_of_int elements') of
                          None \<Rightarrow> Ret (RedisErr, setErrOOM r1)
                        | Some obj \<Rightarrow> gobind (open_aggregate elements' obj r1) (finish obj))))))"

section \<open>One step of the stack\<close>

text \<open>The first switch of \<open>processItem\<close>: the type a type byte stands for.\<close>

definition item_type :: "char \<Rightarrow> RedisReplyType option" where
  "item_type c =
     (if c = CHR ''-'' then Some RedisReplyError
      else if c = CHR ''+'' then Some RedisReplyStatus
      else if c = CHR '':'' then Some RedisReplyInteger
      else if c = CHR '','' then Some RedisReplyDouble
      else if c = CHR ''_'' then Some RedisReplyNil
      else if c = CHR ''$'' then Some RedisReplyString
      else if c = CHR ''*'' then Some RedisReplyArray
      else if c = CHR ''%'' then Some RedisReplyMap
      else if c = CHR ''~'' then Some RedisReplySet
      else if c = CHR ''#'' then Some RedisReplyBool
      else if c = CHR ''='' then Some RedisReplyVerbatim
      else if c = CHR ''('' then Some RedisReplyBignumber
      else None)"

text \<open>
  The second switch. A case of a Go switch does not fall through: the cases with an empty body leave the
  switch, and the \<open>return RedisErr\<close> behind it is what they give.
\<close>

definition process_typed ::
  "'f float64 \<Rightarrow> RedisReplyType \<Rightarrow> 'f RedisReader \<Rightarrow> (RedisStatus \<times> 'f RedisReader) go" where
  "process_typed F tp r =
     (case tp of
        RedisReplyError \<Rightarrow> Ret (RedisErr, r)
      | RedisReplyStatus \<Rightarrow> Ret (RedisErr, r)
      | RedisReplyInteger \<Rightarrow> Ret (RedisErr, r)
      | RedisReplyDouble \<Rightarrow> Ret (RedisErr, r)
      | RedisReplyNil \<Rightarrow> Ret (RedisErr, r)
      | RedisReplyBool \<Rightarrow> Ret (RedisErr, r)
      | RedisReplyBignumber \<Rightarrow> processLineItem F r
      | RedisReplyString \<Rightarrow> Ret (RedisErr, r)
      | RedisReplyVerbatim \<Rightarrow> processBulkItem r
      | RedisReplyArray \<Rightarrow> Ret (RedisErr, r)
      | RedisReplyMap \<Rightarrow> Ret (RedisErr, r)
      | RedisReplySet \<Rightarrow> Ret (RedisErr, r)
      | RedisReplyPush \<Rightarrow> processAggregateItem r
      | _ \<Rightarrow> Panics (Explicit ''Unknown reply type''))"

definition processItem :: "'f float64 \<Rightarrow> 'f RedisReader \<Rightarrow> (RedisStatus \<times> 'f RedisReader) go" where
  "processItem F r =
     gobind (cur_task r) (\<lambda>curTask.
       if tk_tp curTask = RedisReplyUnknown then
         gobind (readBytes 1 r) (\<lambda>(p, r1).
           case p of
             None \<Rightarrow> Ret (RedisErr, r1)
           | Some bytes \<Rightarrow>
               (case item_type (bytes ! 0) of
                  None \<Rightarrow> Ret (RedisErr, setErrProtocolByte (bytes ! 0) r1)
                | Some tp \<Rightarrow>
                    process_typed F tp (update_task (rd_rIdx r1) (\<lambda>t. t\<lparr>tk_tp := tp\<rparr>) r1)))
       else process_typed F (tk_tp curTask) r)"

section \<open>Replies\<close>

text \<open>The loop of \<open>GetReply\<close>; it may run on as long as items are processed.\<close>

partial_function (option) item_loop ::
  "'f float64 \<Rightarrow> 'f RedisReader \<Rightarrow> (panic + 'f RedisReader) option" where
  "item_loop F r =
     (if rd_task r = [] then Ret r
      else gobind (processItem F r) (\<lambda>(ok, r1). if ok = RedisOk then item_loop F r1 else Ret r1))"

declare item_loop.simps [code]

text \<open>
  \<open>GetReply\<close> assigns to its own copy of the pointer \<open>reply\<close>, first nil, and never through it: what the
  caller passed is what the caller keeps, so the argument is left out and the result is the status.
\<close>

definition GetReply :: "'f float64 \<Rightarrow> 'f RedisReader \<Rightarrow> (RedisStatus \<times> 'f RedisReader) go" where
  "GetReply F r =
     (if rd_err r \<noteq> RedisErrNoErr then Ret (RedisErr, r)
      else if rd_len r = 0 then Ret (RedisOk, r)
      else
        gobind (item_loop F (if rd_task r = [] then r\<lparr>rd_task := [new_task]\<rparr> else r)) (\<lambda>r1.
          if rd_err r1 \<noteq> RedisErrNoErr then Ret (RedisErr, r1)
          else if rd_pos r1 > 1024 \<and> rd_pos r1 \<ge> rd_len r1 then Ret (RedisErr, r1)
          else
            let r2 = (if rd_pos r1 > 1024 then r1\<lparr>rd_pos := 0, rd_len := int (length (rd_buf r1))\<rparr> else r1) in
            Ret (RedisOk, if rd_rIdx r2 = -1 then r2\<lparr>rd_reply := None\<rparr> else r2)))"

end
