(* ===== verification/Hredis.thy ===== *)
theory Hredis
  imports Hreader
begin

text \<open>
  The client library of \<open>src/deps/hredis/hredis.go\<close>: options and context of a connection, the formatting of
  commands, and the calls that send one and wait for its reply. A context pointer is passed and returned.
\<close>

section \<open>Options\<close>

datatype RedisConnectionType = RedisConnTCP | RedisConnUnix | RedisConnUserFd

type_synonym RedisOptType = "8 word"

definition RedisOptNonBlock :: RedisOptType where "RedisOptNonBlock = 0x01"
definition RedisOptReuseAddr :: RedisOptType where "RedisOptReuseAddr = 0x02"
definition RedisOptNoAutoFree :: RedisOptType where "RedisOptNoAutoFree = 0x04"
definition RedisOptNoPushAutoFree :: RedisOptType where "RedisOptNoPushAutoFree = 0x08"
definition RedisOptNoAutoFreeReplies :: RedisOptType where "RedisOptNoAutoFreeReplies = 0x10"
definition RedisOptPreferIPv4 :: RedisOptType where "RedisOptPreferIPv4 = 0x20"
definition RedisOptPreferIPv6 :: RedisOptType where "RedisOptPreferIPv6 = 0x40"

definition RedisOptPreferIpUnspec :: RedisOptType where
  "RedisOptPreferIpUnspec = RedisOptPreferIPv4 OR RedisOptPreferIPv6"

record Endpoint =
  sourceAddr :: string
  ip :: string
  port :: int
  redisFd :: int
  unixSocket :: string

record RedisOpts = Endpoint +
  opt_tp :: int
  options :: RedisOptType

definition NewRedisOpts :: RedisOpts where
  "NewRedisOpts = \<lparr>sourceAddr = [], ip = [], port = 0, redisFd = 0, unixSocket = [], opt_tp = 0, options = 0\<rparr>"

section \<open>Contexts\<close>

type_synonym ConnectionType = int64

definition RedisBlock :: ConnectionType where "RedisBlock = 0x01"
definition RedisConnected :: ConnectionType where "RedisConnected = 0x02"
definition RedisDisconnecting :: ConnectionType where "RedisDisconnecting = 0x04"
definition RedisFreeing :: ConnectionType where "RedisFreeing = 0x08"
definition RedisInCallBack :: ConnectionType where "RedisInCallBack = 0x10"
definition RedisSubscribed :: ConnectionType where "RedisSubscribed = 0x20"
definition RedisMonitoring :: ConnectionType where "RedisMonitoring = 0x40"
definition RedisReusedAddr :: ConnectionType where "RedisReusedAddr = 0x80"
definition RedisSupportPush :: ConnectionType where "RedisSupportPush = 0x100"
definition RedisNoAutoFree :: ConnectionType where "RedisNoAutoFree = 0x200"
definition RedisNoAutoFreeReplies :: ConnectionType where "RedisNoAutoFreeReplies = 0x400"
definition RedisPreferIPv4 :: ConnectionType where "RedisPreferIPv4 = 0x800"
definition RedisPreferIPv6 :: ConnectionType where "RedisPreferIPv6 = 0x1000"

record 'f RedisContext =
  RedisFd :: int
  Err :: RedisErrFlag
  ErrStr :: string
  SocketAddr :: string
  oBuf :: string
  c_reader :: "'f RedisReader option"
  Tcp_Host :: string
  Tcp_SourceAddr :: string
  Tcp_Port :: int
  UnixSocket_Path :: string
  Flags :: ConnectionType

definition NewRedisContextWithOpts :: "RedisOpts \<Rightarrow> 'f RedisContext" where
  "NewRedisContextWithOpts opts =
     (let set = (\<lambda>b flag fl. if b then fl OR flag else fl);
          has_opt = (\<lambda>opt. options opts AND opt \<noteq> 0) in
      \<lparr>RedisFd = 0, Err = RedisErrNoErr, ErrStr = [], SocketAddr = [], oBuf = [], c_reader = None,
       Tcp_Host = [], Tcp_SourceAddr = [], Tcp_Port = 0, UnixSocket_Path = [],
       Flags =
         set (has_opt RedisOptPreferIPv6) RedisPreferIPv6
         (set (has_opt RedisOptPreferIPv4) RedisPreferIPv4
         (set (has_opt RedisOptNoAutoFreeReplies) RedisNoAutoFreeReplies
         (set (has_opt RedisOptNoAutoFree) RedisNoAutoFree
         (set (has_opt RedisOptReuseAddr) RedisReusedAddr
         (set (\<not> has_opt RedisOptNonBlock) RedisBlock 0)))))\<rparr>)"

definition RedisConnect :: "string \<Rightarrow> int \<Rightarrow> 'f RedisContext" where
  "RedisConnect addr p = NewRedisContextWithOpts (NewRedisOpts\<lparr>ip := addr, port := p\<rparr>)"

definition RedisConnectUnix :: "string \<Rightarrow> 'f RedisContext" where
  "RedisConnectUnix path = NewRedisContextWithOpts (NewRedisOpts\<lparr>unixSocket := path\<rparr>)"

definition SetError :: "RedisErrFlag \<Rightarrow> string \<Rightarrow> 'f RedisContext \<Rightarrow> 'f RedisContext" where
  "SetError tp err c = (if err \<noteq> [] then c\<lparr>Err := tp, ErrStr := err\<rparr> else c\<lparr>Err := tp\<rparr>)"

section \<open>Formatting\<close>

text \<open>The dynamic type of an \<open>interface{}\<close> argument: a string, an int, or the slice of arguments itself.\<close>

datatype arg = StringArg string | IntArg int | SliceArg "arg list"

text \<open>
  The loop over the format. What is left of \<open>args\<close> stands for \<open>argIndex\<close>; a byte of the format is appended as
  the rune it is converted to.
\<close>

fun format_loop :: "string \<Rightarrow> arg list \<Rightarrow> string \<Rightarrow> string list \<Rightarrow> bool \<Rightarrow> string + string list" where
  "format_loop [] args curArg argv touched = Inr (if touched then argv @ [curArg] else argv)"
| "format_loop (c # fmt) args curArg argv touched =
     (if c \<noteq> CHR ''%'' then
        if c = CHR '' '' then
          if touched then format_loop fmt args [] (argv @ [curArg]) False
          else format_loop fmt args curArg argv touched
        else format_loop fmt args (curArg @ byte_rune c) argv True
      else
        case fmt of
          [] \<Rightarrow> Inl ''Format string ended unexpectedly''
        | v # fmt' \<Rightarrow>
            if v = CHR ''s'' then
              (case args of
                 [] \<Rightarrow> Inl ''Not enough arguments''
               | StringArg str # args' \<Rightarrow> format_loop fmt' args' (curArg @ str) argv True
               | _ # _ \<Rightarrow> Inl ''Expected a string argument'')
            else if v = CHR ''d'' then
              (case args of
                 [] \<Rightarrow> Inl ''Not enough arguments''
               | IntArg num # args' \<Rightarrow> format_loop fmt' args' (curArg @ itoa num) argv True
               | _ # _ \<Rightarrow> Inl ''Expected an integer argument'')
            else Inl (''Unsupported format specifier: '' @ byte_rune v))"

definition redisFormatCommand :: "string \<Rightarrow> arg list \<Rightarrow> string + string list" where
  "redisFormatCommand format args = format_loop format args [] [] False"

definition redisAppendCommand :: "string list \<Rightarrow> 'f RedisContext \<Rightarrow> RedisStatus \<times> 'f RedisContext" where
  "redisAppendCommand cmd c = (RedisOk, fold (\<lambda>str c. c\<lparr>oBuf := oBuf c @ str\<rparr>) cmd c)"

definition redisVAppendCommand :: "string \<Rightarrow> arg list \<Rightarrow> 'f RedisContext \<Rightarrow> RedisStatus \<times> 'f RedisContext" where
  "redisVAppendCommand format args c =
     (case redisFormatCommand format args of
        Inl _ \<Rightarrow> (RedisErr, c)
      | Inr cmd \<Rightarrow>
          (case redisAppendCommand cmd c of
             (RedisErr, c1) \<Rightarrow> (RedisErr, c1)
           | (RedisOk, c1) \<Rightarrow> (RedisOk, c1)))"

section \<open>Replies\<close>

definition redisHandledPushReply :: "'f RedisReply option \<Rightarrow> bool" where
  "redisHandledPushReply reply = (case reply of None \<Rightarrow> False | Some r \<Rightarrow> rr_Tp r = RedisReplyPush)"

text \<open>The reader of a context is a pointer; \<open>GetReply\<close> of a nil reader panics on its first field.\<close>

definition redisGetReplyFromReader :: "'f float64 \<Rightarrow> 'f RedisContext \<Rightarrow> (RedisStatus \<times> 'f RedisContext) go" where
  "redisGetReplyFromReader F c =
     (case c_reader c of
        None \<Rightarrow> Panics NilDeref
      | Some rd \<Rightarrow>
          gobind (GetReply F rd) (\<lambda>(ok, rd').
            let c1 = c\<lparr>c_reader := Some rd'\<rparr> in
            if ok \<noteq> RedisOk then Ret (RedisErr, SetError (rd_err rd') (rd_errStr rd') c1)
            else Ret (RedisOk, c1)))"

text \<open>\<open>reply\<close> is the pointer the caller passed; nothing is ever assigned to it.\<close>

partial_function (option) redisNextInBandReplyFromReader ::
  "'f float64 \<Rightarrow> 'f RedisReply option \<Rightarrow> 'f RedisContext \<Rightarrow> (panic + RedisStatus \<times> 'f RedisContext) option" where
  "redisNextInBandReplyFromReader F reply c =
     gobind (redisGetReplyFromReader F c) (\<lambda>(ok, c1).
       if ok \<noteq> RedisOk then Ret (RedisErr, c1)
       else if \<not> redisHandledPushReply reply then Ret (RedisOk, c1)
       else redisNextInBandReplyFromReader F reply c1)"

declare redisNextInBandReplyFromReader.simps [code]

definition redisGetReply ::
  "'f float64 \<Rightarrow> 'f RedisContext \<Rightarrow> (('f RedisReply option \<times> RedisStatus) \<times> 'f RedisContext) go" where
  "redisGetReply F c =
     gobind (redisNextInBandReplyFromReader F None c) (\<lambda>(ok, c1).
       if ok \<noteq> RedisOk then Ret ((None, RedisErr), c1) else Ret ((None, RedisOk), c1))"

definition redisBlockForReply :: "'f float64 \<Rightarrow> 'f RedisContext \<Rightarrow> ('f RedisReply option \<times> 'f RedisContext) go" where
  "redisBlockForReply F c =
     (if Flags c AND RedisBlock \<noteq> 0 then
        gobind (redisGetReply F c) (\<lambda>((reply, ok), c1). if ok = RedisOk then Ret (reply, c1) else Ret (None, c1))
      else Ret (None, c))"

definition RedisVCommand ::
  "'f float64 \<Rightarrow> string \<Rightarrow> arg list \<Rightarrow> 'f RedisContext \<Rightarrow> ('f RedisReply option \<times> 'f RedisContext) go" where
  "RedisVCommand F format args c =
     (case redisVAppendCommand format args c of
        (ok, c1) \<Rightarrow> if ok \<noteq> RedisOk then Ret (None, c1) else redisBlockForReply F c1)"

text \<open>The arguments are passed on as one argument, not spread.\<close>

definition RedisCommand ::
  "'f float64 \<Rightarrow> string \<Rightarrow> arg list \<Rightarrow> 'f RedisContext \<Rightarrow> ('f RedisReply option \<times> 'f RedisContext) go" where
  "RedisCommand F format args c = RedisVCommand F format [SliceArg args] c"

end
