(* ===== verification/Cli.thy ===== *)
theory Cli
  imports Hredis
begin

text \<open>
  The command line client of \<open>src/cmd/cli.go\<close>: its configuration, connecting with authentication, database and protocol,
  the prompt, and the read loop. The state is the configuration with the global \<open>context\<close> and what was written; the
  terminal, the environment variables, the socket option call and the line editor are parameters.
\<close>

section \<open>State\<close>

type_synonym CliConnectFlag = int64

definition CCForce :: CliConnectFlag where "CCForce = 1"
definition CCQuiet :: CliConnectFlag where "CCQuiet = 2"

datatype OutputMode = OutputStandard | OutputRaw | OutputJson | OutputQuotedJson

record CliConnInfo =
  hostIp :: string
  hostPort :: int
  inputDbNum :: int
  ci_auth :: string
  ci_user :: string

text \<open>The fields of \<open>RedisCliCfg\<close> but \<open>sslCfg\<close> and \<open>repeat\<close>, which the code neither reads nor writes.\<close>

record 'f RedisCliCfg =
  connInfo :: CliConnInfo
  hostSocket :: string
  tls :: bool
  cfg_dbNum :: int
  interactive :: bool
  cfg_shutdown :: bool
  inMulti :: bool
  cfg_eval :: string
  evalLDB :: bool
  evalLDBEnd :: bool
  clusterMode :: bool
  clusterReissueCommand :: bool
  pubsubMode :: bool
  prompt :: string
  serverVersion :: string
  cfg_output :: OutputMode
  lastReply :: "'f RedisReply option"
  cfg_resp2 :: int
  cfg_resp3 :: int
  currentResp3 :: bool

text \<open>What the line editor is asked to do.\<close>

datatype edit_event =
    Prompted string
  | HistoryLoad string
  | AppendHistory string
  | HistorySave string
  | ClearScreen

record 'f cli =
  cli_config :: "'f RedisCliCfg"
  cli_context :: "'f RedisContext option"
  cli_stdout :: string
  cli_stderr :: string
  cli_events :: "edit_event list"

record 'f cli_env =
  env_floats :: "'f float64"
  env_getenv :: "string \<Rightarrow> string"
  env_isatty :: bool
  env_setsockopt :: "int \<Rightarrow> string option"

definition set_config :: "('f RedisCliCfg \<Rightarrow> 'f RedisCliCfg) \<Rightarrow> 'f cli \<Rightarrow> 'f cli" where
  "set_config f s = s\<lparr>cli_config := f (cli_config s)\<rparr>"

definition print_out :: "string \<Rightarrow> 'f cli \<Rightarrow> 'f cli" where
  "print_out t s = s\<lparr>cli_stdout := cli_stdout s @ t\<rparr>"

definition print_err :: "string \<Rightarrow> 'f cli \<Rightarrow> 'f cli" where
  "print_err t s = s\<lparr>cli_stderr := cli_stderr s @ t\<rparr>"

definition edit :: "edit_event \<Rightarrow> 'f cli \<Rightarrow> 'f cli" where
  "edit e s = s\<lparr>cli_events := cli_events s @ [e]\<rparr>"

definition nl :: string where
  "nl = [CHR 0x0A]"

section \<open>Version\<close>

text \<open>\<open>strconv.ParseInt(s, 16, 64)\<close>: None stands for the error, a range error included.\<close>

definition hex_value :: "char \<Rightarrow> nat option" where
  "hex_value c =
     (let n = of_char c :: nat in
      if 48 \<le> n \<and> n \<le> 57 then Some (n - 48)
      else if 97 \<le> n \<and> n \<le> 102 then Some (n - 87)
      else if 65 \<le> n \<and> n \<le> 70 then Some (n - 55)
      else None)"

fun hex_digits :: "nat \<Rightarrow> string \<Rightarrow> nat option" where
  "hex_digits n [] = Some n"
| "hex_digits n (c # cs) = (case hex_value c of None \<Rightarrow> None | Some d \<Rightarrow> hex_digits (n * 16 + d) cs)"

definition ParseHex :: "string \<Rightarrow> int option" where
  "ParseHex s =
     (let neg = (s \<noteq> [] \<and> hd s = CHR ''-'');
          body = (if s \<noteq> [] \<and> (hd s = CHR ''+'' \<or> hd s = CHR ''-'') then tl s else s) in
      if body = [] then None
      else case hex_digits 0 body of
        None \<Rightarrow> None
      | Some n \<Rightarrow>
          if (\<not> neg \<and> int n > MaxInt64) \<or> (neg \<and> int n > - MinInt64) then None
          else Some (if neg then - int n else int n))"

definition cli_Version :: "string \<Rightarrow> string \<Rightarrow> string" where
  "cli_Version gitSHA1 gitDirty =
     (case ParseHex gitSHA1 of
        Some sha1 \<Rightarrow>
          if sha1 \<noteq> 0 then
            '' (git:'' @ gitSHA1 @
            (case ParseInt gitDirty of (d, None) \<Rightarrow> if d \<noteq> 0 then ''-dirty'' else [] | _ \<Rightarrow> []) @ '')''
          else []
      | None \<Rightarrow> [])"

section \<open>Usage\<close>

text \<open>
  The text \<open>Usage\<close> prints. Its format is a raw string, so the quotes, backslashes and code fragments of the original C
  source in it are part of the text; the two verbs stand for the version and the number 30.
\<close>

definition usage_line :: "string \<Rightarrow> string" where
  \<open>usage_line t = ''"'' @ t @ [CHR 0x5C] @ ''n"''\<close>

definition usage_lines :: "string \<Rightarrow> string list" where
  \<open>usage_lines version =
  [usage_line (''redis-cli '' @ version),
   usage_line [],
   usage_line ''Usage: redis-cli [OPTIONS] [cmd [arg [arg ...]]]'',
   usage_line ''  -h <hostname>      Server hostname (default: 127.0.0.1).'',
   usage_line ''  -p <port>          Server port (default: 6379).'',
   usage_line ''  -s <socket>        Server socket (overrides hostname and port).'',
   usage_line ''  -a <password>      Password to use when connecting to the server.'',
   usage_line ''                     You can also use the " REDIS_CLI_AUTH_ENV " environment'',
   usage_line ''                     variable to pass this password more safely'',
   usage_line ''                     (if both are used, this argument takes precedence).'',
   usage_line ''  --user <username>  Used to send ACL style 'AUTH username pass'. Needs -a.'',
   usage_line ''  --pass <password>  Alias of -a for consistency with the new --user option.'',
   usage_line ''  --askpass          Force user to input password with mask from STDIN.'',
   usage_line ''                     If this argument is used, '-a' and " REDIS_CLI_AUTH_ENV "'',
   usage_line ''                     environment variable will be ignored.'',
   usage_line ''  -u <uri>           Server URI.'',
   usage_line ''  -r <repeat>        Execute specified command N times.'',
   usage_line ''  -i <interval>      When -r is used, waits <interval> seconds per command.'',
   usage_line ''                     It is possible to specify sub-second times like -i 0.1.'',
   usage_line ''                     This interval is also used in --scan and --stat per cycle.'',
   usage_line ''                     and in --bigkeys, --memkeys, and --hotkeys per 100 cycles.'',
   usage_line ''  -n <db>            Database number.'',
   usage_line ''  -2                 Start session in RESP2 protocol mode.'',
   usage_line ''  -3                 Start session in RESP3 protocol mode.'',
   usage_line ''  -x                 Read last argument from STDIN (see example below).'',
   usage_line ''  -X                 Read <tag> argument from STDIN (see example below).'',
   usage_line (''  -d <delimiter>     Delimiter between response bulks for raw formatting (default: '' @ [CHR 0x5C] @ [CHR 0x5C] @ ''n).''),
   usage_line (''  -D <delimiter>     Delimiter between responses for raw formatting (default: '' @ [CHR 0x5C] @ [CHR 0x5C] @ ''n).''),
   usage_line ''  -c                 Enable cluster mode (follow -ASK and -MOVED redirections).'',
   usage_line ''  -e                 Return exit error code when command execution fails.'',
   usage_line ''  --raw              Use raw formatting for replies (default when STDOUT is'',
   usage_line ''                     not a tty).'',
   usage_line ''  --no-raw           Force formatted output even when STDOUT is not a tty.'',
   usage_line ''  --quoted-input     Force input to be handled as quoted strings.'',
   usage_line ''  --csv              Output in CSV format.'',
   usage_line ''  --json             Output in JSON format (default RESP3, use -2 if you want to use with RESP2).'',
   usage_line ''  --quoted-json      Same as --json, but produce ASCII-safe quoted strings, not Unicode.'',
   usage_line ''  --show-pushes <yn> Whether to print RESP3 PUSH messages.  Enabled by default when'',
   usage_line ''                     STDOUT is a tty but can be overridden with --show-pushes no.'',
   ''"  --stat             Print rolling stats about server: mem, clients, ...'' @ [CHR 0x5C] @ ''n",'',
   ''version,tls_usage);'',
   [],
   ''    fprintf(target,'',
   usage_line ''  --latency          Enter a special mode continuously sampling latency.'',
   usage_line ''                     If you use this mode in an interactive session it runs'',
   usage_line ''                     forever displaying real-time stats. Otherwise if --raw or'',
   usage_line ''                     --csv is specified, or if you redirect the output to a non'',
   usage_line ''                     TTY, it samples the latency for 1 second (you can use'',
   usage_line ''                     -i to change the interval), then produces a single output'',
   usage_line ''                     and exits.'',
   usage_line ''  --latency-history  Like --latency but tracking latency changes over time.'',
   usage_line ''                     Default time interval is 15 sec. Change it using -i.'',
   usage_line ''  --latency-dist     Shows latency as a spectrum, requires xterm 256 colors.'',
   usage_line ''                     Default time interval is 1 sec. Change it using -i.'',
   usage_line ''  --lru-test <keys>  Simulate a cache workload with an 80-20 distribution.'',
   usage_line ''  --replica          Simulate a replica showing commands received from the master.'',
   usage_line ''  --rdb <filename>   Transfer an RDB dump from remote server to local file.'',
   usage_line (''                     Use filename of '' @ [CHR 0x5C] @ ''"-'' @ [CHR 0x5C] @ ''" to write to stdout.''),
   usage_line ''  --functions-rdb <filename> Like --rdb but only get the functions (not the keys)'',
   usage_line ''                     when getting the RDB dump file.'',
   usage_line ''  --pipe             Transfer raw Redis protocol from stdin to server.'',
   usage_line ''  --pipe-timeout <n> In --pipe mode, abort with error if after sending all data.'',
   usage_line ''                     no reply is received within <n> seconds.'',
   ''"                     Default timeout: '' @ itoa 30 @ ''. Use 0 to wait forever.'' @ [CHR 0x5C] @ ''n",'',
   ''    REDIS_CLI_DEFAULT_PIPE_TIMEOUT);'',
   usage_line ''  --bigkeys          Sample Redis keys looking for keys with many elements (complexity).'',
   usage_line ''  --memkeys          Sample Redis keys looking for keys consuming a lot of memory.'',
   usage_line ''  --memkeys-samples <n> Sample Redis keys looking for keys consuming a lot of memory.'',
   usage_line ''                     And define number of key elements to sample'',
   usage_line ''  --hotkeys          Sample Redis keys looking for hot keys.'',
   usage_line ''                     only works when maxmemory-policy is *lfu.'',
   usage_line ''  --scan             List all keys using the SCAN command.'',
   usage_line ''  --pattern <pat>    Keys pattern when using the --scan, --bigkeys or --hotkeys'',
   usage_line ''                     options (default: *).'',
   usage_line ''  --count <count>    Count option when using the --scan, --bigkeys or --hotkeys (default: 10).'',
   usage_line ''  --quoted-pattern <pat> Same as --pattern, but the specified string can be'',
   usage_line ''                         quoted, in order to pass an otherwise non binary-safe string.'',
   usage_line ''  --intrinsic-latency <sec> Run a test to measure intrinsic system latency.'',
   usage_line ''                     The test will run for the specified amount of seconds.'',
   usage_line ''  --eval <file>      Send an EVAL command using the Lua script at <file>.'',
   usage_line ''  --ldb              Used with --eval enable the Redis Lua debugger.'',
   usage_line ''  --ldb-sync-mode    Like --ldb but uses the synchronous Lua debugger, in'',
   usage_line ''                     this mode the server is blocked and script changes are'',
   usage_line ''                     not rolled back from the server memory.'',
   usage_line ''  --cluster <command> [args...] [opts...]'',
   usage_line ''                     Cluster Manager command and arguments (see below).'',
   usage_line ''  --verbose          Verbose mode.'',
   usage_line ''  --no-auth-warning  Don't show warning message when using password on command'',
   usage_line ''                     line interface.'',
   usage_line ''  --help             Output this help and exit.'',
   usage_line ''  --version          Output version and exit.'',
   ''"'' @ [CHR 0x5C] @ ''n");'']\<close>

fun join_lines :: "string list \<Rightarrow> string" where
  "join_lines [] = []"
| "join_lines [l] = l"
| "join_lines (l # ls) = l @ CHR 0x0A # join_lines ls"

text \<open>The text goes to standard error (\<open>True\<close>) or to standard output.\<close>

definition Usage :: "string \<Rightarrow> string \<Rightarrow> bool \<Rightarrow> bool \<times> string" where
  "Usage gitSHA1 gitDirty err = (err, join_lines (usage_lines (cli_Version gitSHA1 gitDirty)))"

section \<open>Prompt\<close>

definition prompt_text :: "'f RedisCliCfg \<Rightarrow> string" where
  "prompt_text cfg =
     (if hostSocket cfg \<noteq> [] then ''redis '' @ hostSocket cfg
      else ''redis://'' @ hostIp (connInfo cfg) @ '':'' @ itoa (hostPort (connInfo cfg))) @
     (if cfg_dbNum cfg \<noteq> 0 then ''['' @ itoa (cfg_dbNum cfg) @ '']'' else []) @
     (if inMulti cfg then ''[TX]'' else []) @
     (if pubsubMode cfg then ''[pubsub]'' else []) @ ''> ''"

definition cliRefreshPrompt :: "'f cli \<Rightarrow> 'f cli" where
  "cliRefreshPrompt s =
     (if evalLDB (cli_config s) then s else set_config (\<lambda>cfg. cfg\<lparr>prompt := prompt_text cfg\<rparr>) s)"

section \<open>Connecting\<close>

text \<open>\<open>ctx.RedisCommand\<close> on the global context; a nil context panics on its output buffer.\<close>

definition command ::
  "'f cli_env \<Rightarrow> string \<Rightarrow> arg list \<Rightarrow> 'f cli \<Rightarrow> ('f RedisReply option \<times> 'f cli) go" where
  "command E format args s =
     (case cli_context s of
        None \<Rightarrow>
          (case redisFormatCommand format [SliceArg args] of
             Inl _ \<Rightarrow> Ret (None, s)
           | Inr cmd \<Rightarrow> Panics NilDeref)
      | Some ctx \<Rightarrow>
          gobind (RedisCommand (env_floats E) format args ctx) (\<lambda>(reply, ctx'). Ret (reply, s\<lparr>cli_context := Some ctx'\<rparr>)))"

definition cli_auth :: "'f cli_env \<Rightarrow> string \<Rightarrow> string \<Rightarrow> 'f cli \<Rightarrow> (RedisStatus \<times> 'f cli) go" where
  "cli_auth E user auth s =
     (if auth = [] then Ret (RedisOk, s)
      else
        gobind (if user = [] then command E ''AUTH %s'' [StringArg auth] s
                else command E ''AUTH %s %s'' [StringArg auth, StringArg user] s) (\<lambda>(reply, s1).
          case reply of
            None \<Rightarrow> Ret (RedisErr, print_err (nl @ ''I/O error'' @ nl) s1)
          | Some r \<Rightarrow>
              if rr_Tp r = RedisReplyError then
                Ret (RedisErr, print_err (''AUTH failed: '' @ rr_Str r @ nl) s1)
              else Ret (RedisOk, s1)))"

definition selectInputDb :: "'f cli_env \<Rightarrow> 'f cli \<Rightarrow> (RedisStatus \<times> 'f cli) go" where
  "selectInputDb E s =
     (let want = inputDbNum (connInfo (cli_config s)) in
      if want = cfg_dbNum (cli_config s) then Ret (RedisOk, s)
      else
        gobind (command E ''SELECT %d'' [IntArg want] s) (\<lambda>(reply, s1).
          case reply of
            None \<Rightarrow> Ret (RedisErr, print_err (nl @ ''I/O error'' @ nl) s1)
          | Some r \<Rightarrow>
              if rr_Tp r = RedisReplyError then
                Ret (RedisErr, print_err (''SELECT '' @ itoa want @ '' failed: '' @ rr_Str r @ nl) s1)
              else Ret (RedisOk, cliRefreshPrompt (set_config (\<lambda>cfg. cfg\<lparr>cfg_dbNum := want\<rparr>) s1))))"

text \<open>The loop over the map of the \<open>HELLO\<close> reply, two elements at a time from index \<open>i\<close> on, up to \<open>Elements\<close>.\<close>

definition element :: "'f RedisReply \<Rightarrow> int \<Rightarrow> 'f RedisReply go" where
  "element r i = gobind (slice_get (rr_Element r) i) (\<lambda>e. case e of None \<Rightarrow> Panics NilDeref | Some x \<Rightarrow> Ret x)"

function find_server :: "'f RedisReply \<Rightarrow> int \<Rightarrow> string option go" where
  "find_server r i =
     (if i < rr_Elements r then
        gobind (element r i) (\<lambda>k.
          if rr_Str k = ''server'' then gobind (element r (i + 1)) (\<lambda>v. Ret (Some (rr_Str v)))
          else find_server r (i + 2))
      else Ret None)"
  by pat_completeness auto
termination
  by (relation "measure (\<lambda>(r, i). nat (rr_Elements r - i))") auto

declare find_server.simps [simp del]

definition switchProto :: "'f cli_env \<Rightarrow> 'f cli \<Rightarrow> (RedisStatus \<times> 'f cli) go" where
  "switchProto E s =
     (if cfg_resp3 (cli_config s) < 0 \<or> cfg_resp2 (cli_config s) > 0 then Ret (RedisOk, s)
      else
        gobind (command E ''HELLO 3'' [] s) (\<lambda>(reply, s1).
          case reply of
            None \<Rightarrow> Ret (RedisErr, print_err (nl @ ''I/O error'' @ nl) s1)
          | Some r \<Rightarrow>
              let failed = (rr_Tp r = RedisReplyError);
                  s2 = (if failed then print_err (''HELLO 3 failed: '' @ rr_Str r @ nl) s1 else s1);
                  result = (if failed \<and> cfg_resp3 (cli_config s) = 1 then RedisErr else RedisOk) in
              gobind (find_server r 0) (\<lambda>v.
                let s3 = (case v of None \<Rightarrow> s2 | Some t \<Rightarrow> set_config (\<lambda>cfg. cfg\<lparr>serverVersion := t\<rparr>) s2) in
                Ret (result, set_config (\<lambda>cfg. cfg\<lparr>currentResp3 := True\<rparr>) s3))))"

text \<open>\<open>cliSecureConnection\<close> does nothing and returns no error.\<close>

definition cliSecureConnection :: "'f RedisContext \<Rightarrow> string option" where
  "cliSecureConnection ctx = None"

text \<open>The end of \<open>connect\<close>: authentication, database and protocol, on the new context.\<close>

definition handshake :: "'f cli_env \<Rightarrow> 'f cli \<Rightarrow> (RedisStatus \<times> 'f cli) go" where
  "handshake E s =
     (let info = connInfo (cli_config s) in
      gobind (cli_auth E (ci_user info) (ci_auth info) s) (\<lambda>(ok, s1).
        if ok \<noteq> RedisOk then Ret (RedisErr, s1)
        else gobind (selectInputDb E s1) (\<lambda>(ok, s2).
          if ok \<noteq> RedisOk then Ret (RedisErr, s2)
          else gobind (switchProto E s2) (\<lambda>(ok, s3).
            if ok \<noteq> RedisOk then Ret (RedisErr, s3) else Ret (RedisOk, s3)))))"

definition cli_connect :: "'f cli_env \<Rightarrow> CliConnectFlag \<Rightarrow> 'f cli \<Rightarrow> (RedisStatus \<times> 'f cli) go" where
  "cli_connect E flag s =
     (if cli_context s = None \<or> flag AND CCForce \<noteq> 0 then
        let s1 = (if cli_context s \<noteq> None then set_config (\<lambda>cfg. cfg\<lparr>cfg_dbNum := 0, inMulti := False\<rparr>) s else s);
            cfg = cli_config s1;
            ctx = (if hostSocket cfg \<noteq> [] \<or> (\<not> clusterMode cfg \<and> clusterReissueCommand cfg) then
                     RedisConnect (hostIp (connInfo cfg)) (hostPort (connInfo cfg))
                   else RedisConnectUnix (hostSocket cfg));
            s2 = s1\<lparr>cli_context := Some ctx\<rparr> in
        case (if Err ctx \<noteq> RedisErrNoErr \<and> tls cfg then cliSecureConnection ctx else None) of
          Some e \<Rightarrow>
            Ret (RedisErr,
              print_err (''Could not negotiate a TLS connection: '' @ e @ nl) s2\<lparr>cli_context := None\<rparr>)
        | None \<Rightarrow>
            if Err ctx \<noteq> RedisErrNoErr then Ret (RedisErr, s2)
            else
              let s3 = (case env_setsockopt E (RedisFd ctx) of
                          None \<Rightarrow> s2
                        | Some e \<Rightarrow> print_err (''Failed to set SO_KEEPALIVE: '' @ e @ nl) s2) in
              handshake E s3
      else Ret (RedisOk, s))"

section \<open>The read loop\<close>

text \<open>
  \<open>initHelp\<close> is called with the context before it connects, so a nil context stays nil in it: only when there
  was a context before does the command go to one.
\<close>

definition initHelp :: "'f cli_env \<Rightarrow> 'f cli \<Rightarrow> 'f cli go" where
  "initHelp E s =
     gobind (cli_connect E CCQuiet s) (\<lambda>(ok, s1).
       if ok = RedisErr then Ret s1
       else if cli_context s = None then Panics NilDeref
       else gobind (command E ''COMMAND DOCS'' [] s1) (\<lambda>(_, s2). Ret s2))"

definition splitArgs :: "string \<Rightarrow> 'f cli \<Rightarrow> (string list \<times> int) go" where
  "splitArgs line s =
     (if evalLDB (cli_config s) \<and> (prefix ''eval '' line \<or> prefix ''e '' line) then
        gobind (slice_get line 1) (\<lambda>c.
        let elen = (if c = CHR '' '' then 2 else 5) in
        gobind (slice_upto line (elen - 1)) (\<lambda>cmd.
        gobind (slice_from line elen) (\<lambda>rest. Ret ([cmd, rest], 2))))
      else Ret (Fields line, int (length (Fields line))))"

definition getDotfilePath :: "'f cli_env \<Rightarrow> string \<Rightarrow> string \<Rightarrow> string" where
  "getDotfilePath E envOverride dotFilename =
     (let path = env_getenv E envOverride in
      if path \<noteq> [] then (if path = ''/dev/null'' then [] else path)
      else let home = env_getenv E ''HOME'' in
        if home \<noteq> [] then home @ ''/'' @ dotFilename else [])"

text \<open>\<open>cliLoadPreferences\<close> computes the path and, as yet, does nothing with it; \<open>cliSetPreferences\<close> does nothing.\<close>

definition cliLoadPreferences :: "'f cli_env \<Rightarrow> 'f cli \<Rightarrow> 'f cli" where
  "cliLoadPreferences E s =
     (let rcFile = getDotfilePath E ''REDISCLI_RCFILE'' ''.redisclirc'' in if rcFile = [] then s else s)"

datatype 'f line_end =
    Continue "'f cli"
  | ReturnRepl "'f cli"
  | ExitProcess "'f cli"

text \<open>
  What the loop does with one line. \<open>strings.Fields\<close> never returns a nil slice, so the branch for invalid
  arguments is not taken; the arguments are not empty, so neither is \<open>argv[0]\<close>.
\<close>

definition repl_line :: "'f cli_env \<Rightarrow> string \<Rightarrow> 'f cli \<Rightarrow> 'f line_end go" where
  "repl_line E line s =
     gobind (splitArgs line s) (\<lambda>(argv, argc).
       if argc = 0 then Ret (Continue s)
       else
         let cmd = argv ! 0; (n, err) = Atoi cmd in
         if argc > 1 \<and> err = None \<and> n \<le> 0 then
           Ret (Continue (print_out (''Invalid redis-cli repeat command option value.'' @ nl) s))
         else if EqualFold cmd ''quit'' \<or> EqualFold cmd ''exit'' then Ret (ExitProcess s)
         else if cmd ! 0 = CHR '':'' then Ret (Continue s)
         else if EqualFold cmd ''restart'' then
           (if cfg_eval (cli_config s) \<noteq> [] then
              Ret (ReturnRepl (set_config (\<lambda>cfg. cfg\<lparr>evalLDB := True, cfg_output := OutputRaw\<rparr>) s))
            else Ret (Continue (print_out (''Use '' @ [CHR 0x27] @ ''restart'' @ [CHR 0x27] @ '' only in Lua debugging mode.'' @ nl) s)))
         else if argc = 3 \<and> EqualFold cmd ''connect'' then
           let (p, perr) = Atoi (argv ! 2);
               s1 = set_config (\<lambda>cfg. cfg\<lparr>connInfo := (connInfo cfg)\<lparr>hostIp := argv ! 1, hostPort := p\<rparr>\<rparr>) s in
           if perr \<noteq> None then Ret (ReturnRepl (print_out (''Invalid port number'' @ nl) s1))
           else gobind (cli_connect E CCForce (cliRefreshPrompt s1)) (\<lambda>(_, s2). Ret (Continue s2))
         else if argc = 1 \<and> EqualFold cmd ''clear'' then Ret (Continue (edit ClearScreen s))
         else Ret (Continue (if evalLDBEnd (cli_config s) then set_config (\<lambda>cfg. cfg\<lparr>evalLDBEnd := False\<rparr>) s else s)))"

definition show_prompt :: "'f cli \<Rightarrow> 'f cli" where
  "show_prompt s =
     edit (Prompted (if cli_context s \<noteq> None then prompt (cli_config s) else ''not connected> '')) s"

text \<open>An error of the line editor: in subscribed mode the loop reconnects, and goes on when that worked.\<close>

definition prompt_failed :: "'f cli_env \<Rightarrow> 'f cli \<Rightarrow> (bool \<times> 'f cli) go" where
  "prompt_failed E s =
     (if pubsubMode (cli_config s) then
        gobind (cli_connect E CCQuiet (set_config (\<lambda>cfg. cfg\<lparr>pubsubMode := False\<rparr>) s)) (\<lambda>(ok, s1). Ret (ok = RedisOk, s1))
      else Ret (False, s))"

text \<open>
  The loop over what the line editor returns, None for an error. When the input has ended the editor goes on
  returning errors, of which at most the first leads to another round.
\<close>

fun repl_loop :: "'f cli_env \<Rightarrow> string option list \<Rightarrow> 'f cli \<Rightarrow> 'f line_end go" where
  "repl_loop E [] s =
     gobind (prompt_failed E (show_prompt s)) (\<lambda>(again, s1). Ret (ReturnRepl (if again then show_prompt s1 else s1)))"
| "repl_loop E (None # input) s =
     gobind (prompt_failed E (show_prompt s)) (\<lambda>(again, s1).
       if again then repl_loop E input s1 else Ret (ReturnRepl s1))"
| "repl_loop E (Some line # input) s =
     gobind (repl_line E line (show_prompt s)) (\<lambda>r.
       case r of Continue s1 \<Rightarrow> repl_loop E input s1 | _ \<Rightarrow> Ret r)"

definition repl :: "'f cli_env \<Rightarrow> string option list \<Rightarrow> 'f cli \<Rightarrow> 'f line_end go" where
  "repl E input s =
     gobind (if \<not> evalLDB (cli_config s) \<and> env_isatty E then initHelp E s else Ret s) (\<lambda>s1.
       let s2 = set_config (\<lambda>cfg. cfg\<lparr>interactive := True\<rparr>) s1;
           historyFile = (if env_isatty E then getDotfilePath E ''REDISCLI_HISTFILE'' ''.rediscli_history'' else []);
           s3 = (if historyFile \<noteq> [] then edit (HistoryLoad historyFile) s2 else s2);
           s4 = (if env_isatty E then cliLoadPreferences E s3 else s3) in
       repl_loop E input (cliRefreshPrompt s4))"

text \<open>The configuration \<open>Run\<close> makes, and \<open>Run\<close>, whose loop starts only in a process without arguments.\<close>

definition default_config :: "'f RedisCliCfg" where
  "default_config =
     \<lparr>connInfo = \<lparr>hostIp = ''127.0.0.1'', hostPort = 6379, inputDbNum = 0, ci_auth = [], ci_user = []\<rparr>,
      hostSocket = [], tls = False, cfg_dbNum = 0, interactive = False, cfg_shutdown = False, inMulti = False,
      cfg_eval = [], evalLDB = False, evalLDBEnd = False, clusterMode = False, clusterReissueCommand = False,
      pubsubMode = False, prompt = [], serverVersion = [], cfg_output = OutputStandard, lastReply = None,
      cfg_resp2 = 0, cfg_resp3 = 0, currentResp3 = False\<rparr>"

definition cli_Run :: "'f cli_env \<Rightarrow> string list \<Rightarrow> string option list \<Rightarrow> 'f cli \<Rightarrow> 'f line_end go" where
  "cli_Run E args input s =
     (let s1 = s\<lparr>cli_config := default_config\<rparr> in
      if args = [] \<and> cfg_eval (cli_config s1) \<noteq> [] then
        gobind (cli_connect E 0 s1) (\<lambda>(_, s2). repl E input s2)
      else Ret (ReturnRepl s1))"

definition ReadReply :: "'f cli \<Rightarrow> 'f cli" where
  "ReadReply s = set_config (\<lambda>cfg. cfg\<lparr>lastReply := None\<rparr>) s"

end
