(* ===== verification/Hreader_Props.thy ===== *)
theory Hreader_Props
  imports Hreader
begin

text \<open>
  The reply reader of \<open>src/deps/hredis/read.go\<close>: it returns or panics on every buffer, it never hands out a reply, and
  for most reply types it takes the type byte and nothing else.
\<close>

section \<open>The reader between two calls\<close>

text \<open>
  What holds of a reader before and after every call: no reply is pending, and the stack has at most the root
  task, with the index on it unless an error was set.
\<close>

definition idle :: "'f RedisReader \<Rightarrow> bool" where
  "idle r \<longleftrightarrow> length (rd_task r) \<le> 1 \<and> rd_reply r = None \<and> (rd_err r = RedisErrNoErr \<longrightarrow> rd_rIdx r = 0)"

text \<open>What one item does to it: the reader stays idle, or the index leaves the stack, or the code panics.\<close>

definition item_ends :: "(RedisStatus \<times> 'f RedisReader) go \<Rightarrow> bool" where
  "item_ends m =
     (case m of
        None \<Rightarrow> False
      | Some (Inl p) \<Rightarrow> True
      | Some (Inr (RedisErr, r)) \<Rightarrow> idle r
      | Some (Inr (RedisOk, r)) \<Rightarrow> rd_rIdx r < 0 \<and> rd_task r \<noteq> [])"

lemma item_ends_simps [simp]:
  "item_ends (Panics p)" "item_ends (Ret (RedisErr, r)) = idle r"
  "item_ends (Ret (RedisOk, r)) \<longleftrightarrow> rd_rIdx r < 0 \<and> rd_task r \<noteq> []"
  by (simp_all add: item_ends_def)

lemma item_ends_bind:
  "m \<noteq> Diverges \<Longrightarrow> (\<And>x. m = Ret x \<Longrightarrow> item_ends (f x)) \<Longrightarrow> item_ends (gobind m f)"
  by (cases m) (auto simp: gobind_def split: sum.splits)

lemma idle_setErr [simp]: "idle (setErr e s r) \<longleftrightarrow> length (rd_task r) \<le> 1 \<and> rd_reply r = None \<and> e \<noteq> RedisErrNoErr"
  by (auto simp: idle_def setErr_def)

lemma idle_setErrOOM [simp]: "idle (setErrOOM r) \<longleftrightarrow> length (rd_task r) \<le> 1 \<and> rd_reply r = None"
  by (simp add: setErrOOM_def)

lemma idle_pos [simp]: "idle (r\<lparr>rd_pos := p\<rparr>) = idle r" "idle (r\<lparr>rd_len := n\<rparr>) = idle r"
  by (simp_all add: idle_def)

lemma idle_setErrProtocolByte [simp]:
  "idle (setErrProtocolByte c r) \<longleftrightarrow> length (rd_task r) \<le> 1 \<and> rd_reply r = None"
  by (simp add: setErrProtocolByte_def)

lemma idle_update_task [simp]: "idle (update_task i f r) = idle r"
  by (simp add: idle_def update_task_def)

lemma slices_return [simp]:
  "slice_get xs i \<noteq> Diverges" "slice_set xs i x \<noteq> Diverges" "slice_from xs i \<noteq> Diverges"
  "slice_range xs i j \<noteq> Diverges"
  by (simp_all add: slice_get_def slice_set_def slice_from_def slice_range_def)

lemma readLine_return: "readLine r \<noteq> Diverges"
  unfolding readLine_def slice_from_def by (auto split: prod.split option.split)

lemma readLine_frame: "readLine r = Ret (line, r1) \<Longrightarrow> \<exists>p. r1 = r\<lparr>rd_pos := p\<rparr>"
  unfolding readLine_def slice_from_def
  by (auto split: if_splits prod.splits option.splits) (metis RedisReader.surjective RedisReader.update_convs(4))

lemma bulk_item_return: "bulk_item t idx n r \<noteq> Diverges"
  unfolding bulk_item_def slice_get_def slice_range_def by (auto split: option.split)

lemma moveToNextTask_root: "rd_rIdx r = 0 \<Longrightarrow> moveToNextTask r = Ret (r\<lparr>rd_rIdx := -1\<rparr>)"
  by (simp add: moveToNextTask.simps)

lemma item_ends_cases:
  "(b \<Longrightarrow> item_ends x) \<Longrightarrow> (\<not> b \<Longrightarrow> item_ends y) \<Longrightarrow> item_ends (if b then x else y)"
  "(p = None \<Longrightarrow> item_ends x) \<Longrightarrow> (\<And>a. p = Some a \<Longrightarrow> item_ends (f a)) \<Longrightarrow>
     item_ends (case p of None \<Rightarrow> x | Some a \<Rightarrow> f a)"
  "(\<And>e. u = Inl e \<Longrightarrow> item_ends (g e)) \<Longrightarrow> (\<And>v. u = Inr v \<Longrightarrow> item_ends (h v)) \<Longrightarrow>
     item_ends (case u of Inl e \<Rightarrow> g e | Inr v \<Rightarrow> h v)"
  "(\<And>a b. q = (a, b) \<Longrightarrow> item_ends (k a b)) \<Longrightarrow> item_ends (case q of (a, b) \<Rightarrow> k a b)"
  by (auto split: option.split sum.split prod.split)

text \<open>The reader at the root task: the only state in which an item is processed.\<close>

definition at_root :: "'f RedisReader \<Rightarrow> bool" where
  "at_root r \<longleftrightarrow> length (rd_task r) = 1 \<and> rd_reply r = None \<and> rd_err r = RedisErrNoErr \<and> rd_rIdx r = 0"

lemma at_root_pos [simp]: "at_root (r\<lparr>rd_pos := p\<rparr>) = at_root r" "at_root (r\<lparr>rd_len := n\<rparr>) = at_root r"
  by (simp_all add: at_root_def)

lemma at_root_update_task [simp]: "at_root (update_task i f r) = at_root r"
  by (simp add: at_root_def update_task_def)

lemma at_root_idle: "at_root r \<Longrightarrow> idle r"
  by (simp add: at_root_def idle_def)

lemma at_root_ends:
  "at_root r \<Longrightarrow> e \<noteq> RedisErrNoErr \<Longrightarrow> item_ends (Ret (RedisErr, setErr e s r))"
  "at_root r \<Longrightarrow> item_ends (Ret (RedisErr, setErrOOM r))"
  "at_root r \<Longrightarrow> item_ends (Ret (RedisErr, setErrProtocolByte c r))"
  by (auto simp: at_root_def)

lemma root_reply_ends:
  "at_root r \<Longrightarrow>
    item_ends (gobind (moveToNextTask (r\<lparr>rd_pos := p, rd_reply := Some obj\<rparr>)) (\<lambda>r2. Ret (RedisOk, r2)))"
  "at_root r \<Longrightarrow>
    item_ends (gobind (moveToNextTask (r\<lparr>rd_reply := Some obj\<rparr>)) (\<lambda>r2. Ret (RedisOk, r2)))"
  by (auto simp: at_root_def moveToNextTask_root)

lemma cur_task_return: "cur_task r \<noteq> Diverges"
  by (simp add: cur_task_def)

lemma at_root_readLine: "at_root r \<Longrightarrow> readLine r = Ret (line, r1) \<Longrightarrow> at_root r1"
  by (auto dest: readLine_frame)

lemmas item_ends_intros =
  item_ends_bind item_ends_cases at_root_ends root_reply_ends cur_task_return readLine_return bulk_item_return slices_return

lemma line_ends: "at_root r \<Longrightarrow> item_ends (processLineItem F r)"
  unfolding processLineItem_def by (intro item_ends_intros) (auto dest: at_root_readLine simp: at_root_idle intro!: item_ends_intros)

lemma bulk_ends: "at_root r \<Longrightarrow> item_ends (processBulkItem r)"
  unfolding processBulkItem_def Let_def by (intro item_ends_intros) (simp_all add: at_root_def at_root_idle)

lemma open_aggregate_ends:
  "at_root r \<Longrightarrow>
    item_ends (gobind (open_aggregate n obj r)
      (\<lambda>r'. if rd_rIdx r = 0 then Ret (RedisOk, r'\<lparr>rd_reply := Some obj\<rparr>) else Ret (RedisErr, r')))"
  by (cases "rd_task r") (auto simp: open_aggregate_def at_root_def update_task_def Let_def slice_set_def moveToNextTask_root)

lemma root_finish_ends:
  "at_root r \<Longrightarrow>
    item_ends (gobind (moveToNextTask r)
      (\<lambda>r'. if rd_rIdx r = 0 then Ret (RedisOk, r'\<lparr>rd_reply := Some obj\<rparr>) else Ret (RedisErr, r')))"
  by (auto simp: at_root_def moveToNextTask_root)

lemma aggregate_ends: "at_root r \<Longrightarrow> item_ends (processAggregateItem r)"
  unfolding processAggregateItem_def Let_def
  apply (rule item_ends_bind [OF cur_task_return])
  apply (rule item_ends_bind [OF readLine_return])
  apply (clarify, drule (1) at_root_readLine)
  apply (intro item_ends_cases at_root_ends root_finish_ends open_aggregate_ends; assumption?; simp add: at_root_idle)
  done

lemma typed_ends: "at_root r \<Longrightarrow> item_ends (process_typed F tp r)"
  by (cases tp) (simp_all add: process_typed_def line_ends bulk_ends aggregate_ends at_root_idle)

lemma readBytes_frame: "readBytes n r = Ret (p, r1) \<Longrightarrow> at_root r \<Longrightarrow> at_root r1"
  unfolding readBytes_def slice_range_def by (auto split: if_splits)

lemma item_ends_processItem: "at_root r \<Longrightarrow> item_ends (processItem F r)"
  unfolding processItem_def
  apply (rule item_ends_bind [OF cur_task_return])
  apply (rule item_ends_cases)
   apply (rule item_ends_bind, simp add: readBytes_def slice_range_def)
   apply (clarify, drule (1) readBytes_frame)
   apply (intro item_ends_cases at_root_ends typed_ends; simp add: at_root_idle)
  apply (erule typed_ends)
  done

section \<open>Calls of GetReply\<close>

lemma item_off_stack: "rd_rIdx r < 0 \<Longrightarrow> processItem F r = Panics IndexOutOfRange"
  by (simp add: processItem_def cur_task_def slice_get_def)

lemma item_loop_ends:
  assumes "at_root r"
  shows "(\<exists>p. item_loop F r = Panics p) \<or> (\<exists>r'. item_loop F r = Ret r' \<and> idle r')"
proof -
  have "item_loop F r = gobind (processItem F r) (\<lambda>(ok, r1). if ok = RedisOk then item_loop F r1 else Ret r1)"
    using assms by (subst item_loop.simps) (auto simp: at_root_def)
  moreover have "item_loop F r1 = Panics IndexOutOfRange" if "rd_rIdx r1 < 0" "rd_task r1 \<noteq> []" for r1 :: "'a RedisReader"
    using that by (subst item_loop.simps) (simp add: item_off_stack)
  ultimately show ?thesis
    using item_ends_processItem [OF assms, of F]
    by (auto simp: item_ends_def split: option.splits sum.splits prod.splits RedisStatus.splits)
qed

text \<open>A reader in front of a buffer: nothing was read of the current reply yet.\<close>

definition reader :: "'f RedisReplyObjectFunctions \<Rightarrow> string \<Rightarrow> 'f RedisReader" where
  "reader fn buf =
     \<lparr>rd_err = RedisErrNoErr, rd_errStr = [], rd_buf = buf, rd_pos = 0, rd_len = int (length buf), rd_maxBuf = 0,
      rd_maxElements = 0, rd_rIdx = 0, rd_task = [], rd_reply = None, rd_funcs = fn\<rparr>"

definition no_functions :: "'f RedisReplyObjectFunctions" where
  "no_functions =
     \<lparr>CreateString = None, CreateArray = None, CreateInteger = None, CreateDouble = None, CreateNil = None, CreateBool = None\<rparr>"

definition string_functions :: "nat RedisReplyObjectFunctions" where
  "string_functions =
     no_functions\<lparr>CreateString := Some (\<lambda>t s n. Some (RedisReply (tk_tp t) 0 0 s [] 0 []))\<rparr>"

definition no_floats :: "nat float64" where
  "no_floats = \<lparr>f_Parse = (\<lambda>_. None), f_Inf = 0, f_NegInf = 0, f_NaN = 0\<rparr>"

text \<open>
  C37: \<open>GetReply\<close> returns or panics, on every buffer, and between two calls no reply is ever pending: the
  code has no path on which a reply reaches its caller.
\<close>

theorem GetReply_hands_out_nothing:
  assumes "idle r"
  shows "case GetReply F r of None \<Rightarrow> False | Some (Inl p) \<Rightarrow> True | Some (Inr (ok, r')) \<Rightarrow> idle r'"
proof (cases "rd_err r \<noteq> RedisErrNoErr \<or> rd_len r = 0")
  case True
  with assms show ?thesis by (auto simp: GetReply_def)
next
  case False
  let ?r = "if rd_task r = [] then r\<lparr>rd_task := [new_task]\<rparr> else r"
  have "length (rd_task r) = 1" if "rd_task r \<noteq> []"
    using that assms by (cases "rd_task r") (auto simp: idle_def)
  then have "at_root ?r" using assms False by (auto simp: idle_def at_root_def)
  from item_loop_ends [OF this, of F] show ?thesis
  proof
    assume "\<exists>p. item_loop F ?r = Panics p"
    then show ?thesis using False by (auto simp: GetReply_def)
  next
    assume "\<exists>r'. item_loop F ?r = Ret r' \<and> idle r'"
    then obtain r' where "item_loop F ?r = Ret r'" "idle r'" by blast
    then show ?thesis using False by (auto simp: GetReply_def Let_def idle_def)
  qed
qed

theorem GetReply_hands_out_nothing_witness:
  "case GetReply no_floats (reader no_functions (''+OK'' @ CRLF)) of
     None \<Rightarrow> False | Some (Inl p) \<Rightarrow> True | Some (Inr (ok, r')) \<Rightarrow> idle r'"
  by (rule GetReply_hands_out_nothing) (simp add: idle_def reader_def)

lemma GetReply_stops:
  assumes "processItem F (if rd_task r = [] then r\<lparr>rd_task := [new_task]\<rparr> else r) = Ret (RedisErr, r1)"
    and "rd_err r = RedisErrNoErr" and "rd_len r \<noteq> 0" and "rd_err r1 = RedisErrNoErr" and "rd_pos r1 \<le> 1024"
    and "rd_rIdx r1 \<noteq> -1"
  shows "GetReply F r = Ret (RedisOk, r1)"
proof -
  let ?r = "if rd_task r = [] then r\<lparr>rd_task := [new_task]\<rparr> else r"
  have "item_loop F ?r = Ret r1" using assms(1) by (subst item_loop.simps) simp
  then show ?thesis using assms(2-) by (simp add: GetReply_def)
qed

text \<open>The type bytes whose case in the second switch has no body.\<close>

definition empty_case :: "char \<Rightarrow> bool" where
  "empty_case c \<longleftrightarrow> c \<in> set ''-+:,_#$*%~''"

lemma empty_case_type: "empty_case c \<Longrightarrow> \<exists>tp. item_type c = Some tp \<and> tp \<noteq> RedisReplyUnknown"
  by (auto simp: empty_case_def item_type_def)

lemma empty_case_stops: "empty_case c \<Longrightarrow> item_type c = Some tp \<Longrightarrow> process_typed F tp r = Ret (RedisErr, r)"
  by (auto simp: empty_case_def item_type_def process_typed_def)

text \<open>
  of a status, an error, an integer, a double, a null, a boolean, a bulk string, an array, a map or a set
  \<open>GetReply\<close> takes the type byte, reports success and has no reply; every later call does nothing.
\<close>

theorem GetReply_takes_type_byte:
  assumes "empty_case c"
  shows "\<exists>r tp. GetReply F (reader fn (c # rest)) = Ret (RedisOk, r) \<and> rd_reply r = None \<and>
    rd_pos r = 1 \<and> rd_len r = int (length rest) \<and> rd_task r = [new_task\<lparr>tk_tp := tp\<rparr>] \<and>
    GetReply F r = Ret (RedisOk, r)"
proof -
  obtain tp where tp: "item_type c = Some tp" "tp \<noteq> RedisReplyUnknown"
    using empty_case_type [OF assms] by blast
  note stop = empty_case_stops [OF assms tp(1)]
  let ?r = "(reader fn (c # rest))\<lparr>rd_pos := 1, rd_len := int (length rest), rd_task := [new_task\<lparr>tk_tp := tp\<rparr>]\<rparr>"
  have "processItem F ((reader fn (c # rest))\<lparr>rd_task := [new_task]\<rparr>) = Ret (RedisErr, ?r)"
    by (simp add: processItem_def cur_task_def slice_get_def reader_def new_task_def readBytes_def slice_range_def
        tp stop update_task_def)
  then have "GetReply F (reader fn (c # rest)) = Ret (RedisOk, ?r)"
    by (intro GetReply_stops) (simp_all add: reader_def)
  moreover have "processItem F ?r = Ret (RedisErr, ?r)"
    using tp(2) by (simp add: processItem_def cur_task_def slice_get_def reader_def stop)
  then have "GetReply F ?r = Ret (RedisOk, ?r)"
    by (cases "rest = []") (simp add: GetReply_def reader_def, intro GetReply_stops, simp_all add: reader_def)
  ultimately show ?thesis by (intro exI [of _ ?r] exI [of _ tp]) (simp add: reader_def)
qed

theorem GetReply_takes_type_byte_witness:
  "\<exists>r tp. GetReply no_floats (reader string_functions (CHR ''$'' # ''3'' @ CRLF @ ''abc'' @ CRLF)) = Ret (RedisOk, r) \<and>
    rd_reply r = None \<and> rd_pos r = 1 \<and> rd_len r = int (length (''3'' @ CRLF @ ''abc'' @ CRLF)) \<and>
    rd_task r = [new_task\<lparr>tk_tp := tp\<rparr>] \<and> GetReply no_floats r = Ret (RedisOk, r)"
  by (rule GetReply_takes_type_byte) (simp add: empty_case_def)

text \<open>
  a complete big number, one of the two types that are read to the end, makes \<open>GetReply\<close> panic: the stack
  is left by the index and not by its length, and the loop looks at the task at index -1.
\<close>

theorem GetReply_complete_panics:
  assumes "bignumber_ok digits" and "CHR 0x0D \<notin> set digits" and "CreateString fn = Some (\<lambda>t s n. Some (f t s n))"
  shows "GetReply F (reader fn (''('' @ digits @ CRLF @ rest)) = Panics IndexOutOfRange"
proof -
  let ?r = "(reader fn (''('' @ digits @ CRLF @ rest))\<lparr>rd_task := [new_task]\<rparr>"
  have type: "item_type (CHR ''('') = Some RedisReplyBignumber" by (simp add: item_type_def)
  let ?t = "new_task\<lparr>tk_tp := RedisReplyBignumber\<rparr> :: 'a RedisReadTask"
  let ?obj = "f ?t digits (word_of_int (int (length digits)))"
  let ?r1 = "?r\<lparr>rd_pos := 1, rd_len := int (length (digits @ CRLF @ rest)), rd_task := [?t]\<rparr>"
  have "processItem F ?r = processLineItem F ?r1"
    by (simp add: processItem_def cur_task_def slice_get_def reader_def new_task_def readBytes_def slice_range_def
        type update_task_def process_typed_def)
  also have "\<dots> = Ret (RedisOk, ?r1\<lparr>rd_pos := int (length digits) + 3, rd_reply := Some ?obj, rd_rIdx := -1\<rparr>)"
    using assms split_crlf_line [OF assms(2), of rest]
    by (simp add: processLineItem_def cur_task_def slice_get_def reader_def readLine_def slice_from_def
        line_object_def moveToNextTask_root)
  finally have "item_loop F ?r = Panics IndexOutOfRange"
    by (subst item_loop.simps, simp, subst item_loop.simps, simp add: item_off_stack)
  then show ?thesis by (simp add: GetReply_def) (simp add: reader_def)
qed

theorem GetReply_complete_panics_witness:
  "GetReply no_floats (reader string_functions (''('' @ ''12345678901234567890123'' @ CRLF @ [])) = Panics IndexOutOfRange"
  by (rule GetReply_complete_panics) (simp_all add: bignumber_ok_def in_range_def string_functions_def no_functions_def)

end
