(* ===== verification/Hredis_Props.thy ===== *)
theory Hredis_Props
  imports Hredis Hreader_Props
begin

text \<open>
  The client library of \<open>src/deps/hredis/hredis.go\<close>: what command templates expand to, what is sent, and that no call ever
  returns a reply.
\<close>

section \<open>Templates\<close>

text \<open>
  A command template is a list of words, and a word a list of pieces: a byte of the format, or a verb with the
  argument it stands for.
\<close>

datatype piece = Lit char | StrVerb string | IntVerb int

fun piece_ok :: "piece \<Rightarrow> bool" where
  "piece_ok (Lit c) \<longleftrightarrow> c \<noteq> CHR '' '' \<and> c \<noteq> CHR ''%'' \<and> (of_char c :: nat) < 128"
| "piece_ok _ \<longleftrightarrow> True"

fun piece_format :: "piece \<Rightarrow> string" where
  "piece_format (Lit c) = [c]"
| "piece_format (StrVerb s) = ''%s''"
| "piece_format (IntVerb n) = ''%d''"

fun piece_args :: "piece \<Rightarrow> arg list" where
  "piece_args (Lit c) = []"
| "piece_args (StrVerb s) = [StringArg s]"
| "piece_args (IntVerb n) = [IntArg n]"

fun piece_text :: "piece \<Rightarrow> string" where
  "piece_text (Lit c) = [c]"
| "piece_text (StrVerb s) = s"
| "piece_text (IntVerb n) = itoa n"

definition word_ok :: "piece list \<Rightarrow> bool" where
  "word_ok w \<longleftrightarrow> w \<noteq> [] \<and> list_all piece_ok w"

definition word_format :: "piece list \<Rightarrow> string" where
  "word_format w = concat (map piece_format w)"

definition word_args :: "piece list \<Rightarrow> arg list" where
  "word_args w = concat (map piece_args w)"

definition word_text :: "piece list \<Rightarrow> string" where
  "word_text w = concat (map piece_text w)"

text \<open>The words of a template, with a blank between two of them.\<close>

fun template_format :: "piece list list \<Rightarrow> string" where
  "template_format [] = []"
| "template_format [w] = word_format w"
| "template_format (w # v # ws) = word_format w @ '' '' @ template_format (v # ws)"

definition template_args :: "piece list list \<Rightarrow> arg list" where
  "template_args ws = concat (map word_args ws)"

lemma byte_rune_ascii [simp]: "(of_char c :: nat) < 128 \<Longrightarrow> byte_rune c = [c]"
  by (simp add: byte_rune_def)

lemma format_word:
  "list_all piece_ok w \<Longrightarrow>
    format_loop (word_format w @ fmt) (word_args w @ args) cur argv touched =
    format_loop fmt args (cur @ word_text w) argv (touched \<or> w \<noteq> [])"
proof (induction w arbitrary: cur touched)
  case Nil
  then show ?case by (simp add: word_format_def word_args_def word_text_def)
next
  case (Cons p w)
  then show ?case
    by (cases p) (simp_all add: word_format_def word_args_def word_text_def)
qed

lemma format_template:
  "list_all word_ok ws \<Longrightarrow>
    format_loop (template_format ws) (template_args ws @ args) [] argv False = Inr (argv @ map word_text ws)"
proof (induction ws arbitrary: argv rule: template_format.induct)
  case 1
  then show ?case by (simp add: template_args_def)
next
  case (2 w)
  then show ?case
    using format_word [of w "[]" args "[]" argv False] by (auto simp: template_args_def word_ok_def)
next
  case (3 w v ws)
  then show ?case
    using format_word [of w "'' '' @ template_format (v # ws)" "template_args (v # ws) @ args" "[]" argv False]
    by (auto simp: template_args_def word_ok_def)
qed

text \<open>
  C20: a template expands to one argument per word. What is substituted for a verb never splits a word and is
  never read as a verb, whatever blanks or percent signs it has; arguments that no verb asks for are ignored.
\<close>

theorem redisFormatCommand_expands:
  assumes "list_all word_ok ws"
  shows "redisFormatCommand (template_format ws) (template_args ws @ extra) = Inr (map word_text ws)"
  using format_template [OF assms, of extra "[]"] by (simp add: redisFormatCommand_def)

theorem redisFormatCommand_expands_witness:
  "redisFormatCommand (template_format [[Lit (CHR ''G'')], [StrVerb ''a b'', Lit (CHR '':''), IntVerb 7]])
     (template_args [[Lit (CHR ''G'')], [StrVerb ''a b'', Lit (CHR '':''), IntVerb 7]] @ [IntArg 1]) =
   Inr (map word_text [[Lit (CHR ''G'')], [StrVerb ''a b'', Lit (CHR '':''), IntVerb 7]])"
  by (rule redisFormatCommand_expands) (simp add: word_ok_def)

section \<open>What is sent\<close>

lemma redisAppendCommand_concat: "redisAppendCommand cmd c = (RedisOk, c\<lparr>oBuf := oBuf c @ concat cmd\<rparr>)"
proof -
  have "fold (\<lambda>str c. c\<lparr>oBuf := oBuf c @ str\<rparr>) cmd c = c\<lparr>oBuf := oBuf c @ concat cmd\<rparr>"
    by (induction cmd arbitrary: c) simp_all
  then show ?thesis by (simp add: redisAppendCommand_def)
qed

lemma format_plain:
  "CHR ''%'' \<notin> set fmt \<Longrightarrow> ascii fmt \<Longrightarrow> touched = (cur \<noteq> []) \<Longrightarrow>
    \<exists>ws. format_loop fmt args cur argv touched = Inr (argv @ ws) \<and> concat ws = cur @ filter (\<lambda>c. c \<noteq> CHR '' '') fmt"
proof (induction fmt arbitrary: cur argv touched)
  case Nil
  then show ?case by (cases "cur = []") auto
next
  case (Cons c fmt)
  show ?case
  proof (cases "c = CHR '' '' \<and> touched")
    case True
    with Cons.prems Cons.IH [of False "[]" "argv @ [cur]"] show ?thesis
      by (auto simp: ascii_def)
  next
    case False
    with Cons.prems Cons.IH [of touched cur argv] Cons.IH [of True "cur @ [c]" argv] show ?thesis
      by (auto simp: ascii_def)
  qed
qed

text \<open>
  what a command puts into the output buffer is its words without anything between them: the lengths and
  separators of the protocol are missing, and commands that differ in their blanks only are the same bytes.
\<close>

theorem redisVAppendCommand_runs_words_together:
  assumes "CHR ''%'' \<notin> set format" and "ascii format"
  shows "redisVAppendCommand format args c = (RedisOk, c\<lparr>oBuf := oBuf c @ filter (\<lambda>b. b \<noteq> CHR '' '') format\<rparr>)"
proof -
  obtain ws where "redisFormatCommand format args = Inr ws" "concat ws = filter (\<lambda>b. b \<noteq> CHR '' '') format"
    using format_plain [OF assms, of False "[]" args "[]"] by (auto simp: redisFormatCommand_def)
  then show ?thesis by (simp add: redisVAppendCommand_def redisAppendCommand_concat)
qed

theorem redisVAppendCommand_runs_words_together_witness:
  "redisVAppendCommand ''SET a b'' [] (RedisConnect ''127.0.0.1'' 6379) =
     (RedisOk, (RedisConnect ''127.0.0.1'' 6379)\<lparr>oBuf :=
        oBuf (RedisConnect ''127.0.0.1'' 6379 :: nat RedisContext) @ filter (\<lambda>b. b \<noteq> CHR '' '') ''SET a b''\<rparr> :: nat RedisContext)"
proof -
  have "CHR ''%'' \<notin> set ''SET a b''" and "ascii ''SET a b''" by code_simp+
  from redisVAppendCommand_runs_words_together [OF this] show ?thesis by blast
qed

section \<open>Calls\<close>

lemma format_slice_arg:
  "CHR ''%'' \<in> set fmt \<Longrightarrow> \<exists>e. format_loop fmt [SliceArg as] cur argv touched = Inl e"
proof (induction fmt arbitrary: cur argv touched)
  case (Cons c fmt)
  show ?case
  proof (cases "c = CHR ''%''")
    case True
    then show ?thesis by (cases fmt) simp_all
  next
    case False
    with Cons.prems have "CHR ''%'' \<in> set fmt" by simp
    with False Cons.IH show ?thesis by simp
  qed
qed simp

lemma format_no_verb:
  "CHR ''%'' \<notin> set fmt \<Longrightarrow> \<exists>ws. format_loop fmt args cur argv touched = Inr ws"
proof (induction fmt arbitrary: cur argv touched)
  case (Cons c fmt)
  then have "c \<noteq> CHR ''%''" and "CHR ''%'' \<notin> set fmt" by auto
  with Cons.IH show ?case by simp
qed simp

lemma RedisCommand_verb: "CHR ''%'' \<in> set format \<Longrightarrow> RedisCommand F format args c = Ret (None, c)"
  using format_slice_arg [of format args "[]" "[]" False]
  by (auto simp: RedisCommand_def RedisVCommand_def redisVAppendCommand_def redisFormatCommand_def)

lemma RedisCommand_plain:
  assumes "CHR ''%'' \<notin> set format"
  shows "\<exists>t. RedisCommand F format args c = redisBlockForReply F (c\<lparr>oBuf := oBuf c @ t\<rparr>)"
proof -
  obtain ws where "redisFormatCommand format [SliceArg args] = Inr ws"
    using format_no_verb [OF assms, of "[SliceArg args]" "[]" "[]" False] by (auto simp: redisFormatCommand_def)
  then have "RedisCommand F format args c = redisBlockForReply F (c\<lparr>oBuf := oBuf c @ concat ws\<rparr>)"
    by (simp add: RedisCommand_def RedisVCommand_def redisVAppendCommand_def redisAppendCommand_concat)
  then show ?thesis by blast
qed

text \<open>A context whose reader was never made, in blocking mode: the only ones the library makes by default.\<close>

definition unread :: "'f RedisContext \<Rightarrow> bool" where
  "unread c \<longleftrightarrow> c_reader c = None \<and> Flags c AND RedisBlock \<noteq> 0"

lemma redisBlockForReply_unread: "unread c \<Longrightarrow> redisBlockForReply F c = Panics NilDeref"
  by (simp add: unread_def redisBlockForReply_def redisGetReply_def redisNextInBandReplyFromReader.simps [of F None c]
      redisGetReplyFromReader_def)

lemma unread_oBuf [simp]: "unread (c\<lparr>oBuf := t\<rparr>) = unread c"
  by (simp add: unread_def)

lemma RedisCommand_unread:
  "unread c \<Longrightarrow> RedisCommand F format args c = (if CHR ''%'' \<in> set format then Ret (None, c) else Panics NilDeref)"
  using RedisCommand_verb [of format F args c] RedisCommand_plain [of format F args c]
  by (auto simp: redisBlockForReply_unread)

lemma unread_connect [simp]: "unread (RedisConnect addr p)" "unread (RedisConnectUnix path)"
  by (simp_all add: unread_def RedisConnect_def RedisConnectUnix_def NewRedisContextWithOpts_def NewRedisOpts_def RedisBlock_def)

text \<open>
  on a connection as the library makes it \<open>RedisCommand\<close> never returns a reply: with a verb in the format it
  returns nil and sends nothing, because the arguments arrive as one slice; without a verb it panics on the
  reader that was never created.
\<close>

theorem RedisCommand_never_replies:
  "RedisCommand F format args (RedisConnect addr p) =
     (if CHR ''%'' \<in> set format then Ret (None, RedisConnect addr p) else Panics NilDeref) \<and>
   RedisCommand F format args (RedisConnectUnix path) =
     (if CHR ''%'' \<in> set format then Ret (None, RedisConnectUnix path) else Panics NilDeref)"
  by (simp add: RedisCommand_unread)

end
