(* ===== verification/Cli_Props.thy ===== *)
theory Cli_Props
  imports Cli Hredis_Props
begin

text \<open>
  The command line client of \<open>src/cmd/cli.go\<close>: when connecting succeeds, and what the read loop does with the lines it
  reads.
\<close>

section \<open>Connecting\<close>

text \<open>A state with a new context, and a command on it.\<close>

definition fresh_context :: "'f cli \<Rightarrow> bool" where
  "fresh_context s \<longleftrightarrow> (case cli_context s of None \<Rightarrow> False | Some c \<Rightarrow> unread c)"

lemma cli_simps [simp]:
  "cli_context (print_err t s) = cli_context s" "cli_config (print_err t s) = cli_config s"
  "cli_context (set_config f s) = cli_context s" "cli_config (set_config f s) = f (cli_config s)"
  by (simp_all add: print_err_def set_config_def)

lemma fresh_context_simps [simp]:
  "fresh_context (print_err t s) = fresh_context s" "fresh_context (set_config f s) = fresh_context s"
  by (simp_all add: fresh_context_def)

lemma command_fresh:
  assumes "fresh_context s"
  shows "command E format args s = (if CHR ''%'' \<in> set format then Ret (None, s) else Panics NilDeref)"
proof -
  obtain c where c: "cli_context s = Some c" "unread c" using assms by (auto simp: fresh_context_def split: option.splits)
  then have "s\<lparr>cli_context := Some c\<rparr> = s" by (cases s) simp
  with c show ?thesis by (simp add: command_def RedisCommand_unread)
qed

text \<open>The address is not looked at: every connection starts with the same context.\<close>

definition new_context :: "'f RedisContext" where
  "new_context = NewRedisContextWithOpts NewRedisOpts"

lemma connect_new: "RedisConnect addr p = new_context" "RedisConnectUnix path = new_context"
  by (simp_all add: new_context_def RedisConnect_def RedisConnectUnix_def NewRedisContextWithOpts_def NewRedisOpts_def)

lemma new_context_simps: "Err new_context = RedisErrNoErr" "unread new_context"
  using unread_connect(1) [of "[]" 0] by (simp_all add: connect_new) (simp add: new_context_def NewRedisContextWithOpts_def)

text \<open>The three exchanges of a new connection.\<close>

lemma auth_fresh:
  "fresh_context s \<Longrightarrow> cli_auth E user auth s =
    (if auth = [] then Ret (RedisOk, s) else Ret (RedisErr, print_err (nl @ ''I/O error'' @ nl) s))"
  by (simp add: cli_auth_def command_fresh)

lemma selectInputDb_fresh:
  "fresh_context s \<Longrightarrow> selectInputDb E s =
    (if inputDbNum (connInfo (cli_config s)) = cfg_dbNum (cli_config s) then Ret (RedisOk, s)
     else Ret (RedisErr, print_err (nl @ ''I/O error'' @ nl) s))"
  by (simp add: selectInputDb_def command_fresh Let_def)

lemma switchProto_fresh:
  "fresh_context s \<Longrightarrow> switchProto E s =
    (if cfg_resp3 (cli_config s) < 0 \<or> cfg_resp2 (cli_config s) > 0 then Ret (RedisOk, s) else Panics NilDeref)"
  by (simp add: switchProto_def command_fresh)

text \<open>The number of the database a new connection is taken to be on; a connection that replaces another starts at 0.\<close>

definition start_db :: "'f cli \<Rightarrow> int" where
  "start_db s = (if cli_context s = None then cfg_dbNum (cli_config s) else 0)"

text \<open>What connecting does when there is no context, or by force: the exchanges, on a context made just now.\<close>

lemma cli_connect_new:
  fixes s :: "'f cli"
  assumes "cli_context s = None \<or> flag AND CCForce \<noteq> 0"
  obtains s3 where "fresh_context s3" and "cfg_dbNum (cli_config s3) = start_db s" and "connInfo (cli_config s3) = connInfo (cli_config s)"
    and "cfg_resp3 (cli_config s3) = cfg_resp3 (cli_config s)" and "cfg_resp2 (cli_config s3) = cfg_resp2 (cli_config s)"
    and "cli_connect E flag s = handshake E s3"
proof -
  let ?s1 = "if cli_context s \<noteq> None then set_config (\<lambda>cfg. cfg\<lparr>cfg_dbNum := 0, inMulti := False\<rparr>) s else s"
  let ?s2 = "?s1\<lparr>cli_context := Some (new_context :: 'f RedisContext)\<rparr>"
  let ?s3 = "case env_setsockopt E (RedisFd (new_context :: 'f RedisContext)) of None \<Rightarrow> ?s2
    | Some e \<Rightarrow> print_err (''Failed to set SO_KEEPALIVE: '' @ e @ nl) ?s2"
  have "cli_connect E flag s = handshake E ?s3"
    unfolding cli_connect_def Let_def connect_new using assms by (simp add: new_context_simps)
  moreover have "cli_config ?s3 = cli_config ?s1" by (simp split: option.split)
  ultimately show ?thesis
    by (intro that [of ?s3]) (simp_all add: fresh_context_def new_context_simps start_db_def split: option.split)
qed

text \<open>
  C36: what connecting gives, for every configuration and from every state. With a context there already, be it one whose password was refused,
  and without force, it is successful at once: nothing is sent and nothing changes. Otherwise it is successful only without a password, with the
  asked database number equal to the one the client believes to be on (0 after a connection was replaced), and in the old protocol mode. A
  password or another database number is never sent: both give an I/O error. In the other cases the
  switch of the protocol makes the client panic, with the default configuration too.
\<close>

theorem cli_connect_result:
  "if cli_context s \<noteq> None \<and> flag AND CCForce = 0 then cli_connect E flag s = Ret (RedisOk, s)
   else gobind (cli_connect E flag s) (\<lambda>(ok, s'). Ret ok) =
    (if ci_auth (connInfo (cli_config s)) \<noteq> [] \<or> inputDbNum (connInfo (cli_config s)) \<noteq> start_db s then Ret RedisErr
     else if cfg_resp3 (cli_config s) < 0 \<or> cfg_resp2 (cli_config s) > 0 then Ret RedisOk
     else Panics NilDeref)"
proof (cases "cli_context s \<noteq> None \<and> flag AND CCForce = 0")
  case True
  then show ?thesis by (auto simp: cli_connect_def)
next
  case False
  then have "cli_context s = None \<or> flag AND CCForce \<noteq> 0" by blast
  then obtain s3 where "fresh_context s3" "cfg_dbNum (cli_config s3) = start_db s" "connInfo (cli_config s3) = connInfo (cli_config s)"
    "cfg_resp3 (cli_config s3) = cfg_resp3 (cli_config s)" "cfg_resp2 (cli_config s3) = cfg_resp2 (cli_config s)"
    "cli_connect E flag s = handshake E s3"
    by (rule cli_connect_new)
  then have "gobind (cli_connect E flag s) (\<lambda>(ok, s'). Ret ok) =
    (if ci_auth (connInfo (cli_config s)) \<noteq> [] \<or> inputDbNum (connInfo (cli_config s)) \<noteq> start_db s then Ret RedisErr
     else if cfg_resp3 (cli_config s) < 0 \<or> cfg_resp2 (cli_config s) > 0 then Ret RedisOk
     else Panics NilDeref)"
    by (simp add: handshake_def auth_fresh selectInputDb_fresh switchProto_fresh)
  then show ?thesis unfolding if_not_P [OF False] .
qed

text \<open>A client as \<open>Run\<close> configures it, in a quiet environment.\<close>

definition default_cli :: "nat cli" where
  "default_cli = \<lparr>cli_config = default_config, cli_context = None, cli_stdout = [], cli_stderr = [], cli_events = []\<rparr>"

definition quiet_env :: "nat cli_env" where
  "quiet_env = \<lparr>env_floats = no_floats, env_getenv = (\<lambda>_. []), env_isatty = False, env_setsockopt = (\<lambda>_. None)\<rparr>"

theorem cli_connect_result_witness:
  "gobind (cli_connect quiet_env CCForce default_cli) (\<lambda>(ok, s'). Ret ok) = Panics NilDeref \<and>
   cli_connect quiet_env 0 (default_cli\<lparr>cli_context := Some new_context\<rparr>) = Ret (RedisOk, default_cli\<lparr>cli_context := Some new_context\<rparr>)"
  using cli_connect_result [of default_cli CCForce quiet_env] cli_connect_result [of "default_cli\<lparr>cli_context := Some new_context\<rparr>" 0 quiet_env]
  by (simp add: default_cli_def default_config_def start_db_def)

section \<open>The read loop\<close>

fun end_state :: "'f line_end \<Rightarrow> 'f cli" where
  "end_state (Continue s) = s"
| "end_state (ReturnRepl s) = s"
| "end_state (ExitProcess s) = s"

definition first_word :: "string \<Rightarrow> string" where
  "first_word line = (case Fields line of [] \<Rightarrow> [] | w # _ \<Rightarrow> w)"

definition quits :: "string \<Rightarrow> bool" where
  "quits line \<longleftrightarrow> EqualFold (first_word line) ''quit'' \<or> EqualFold (first_word line) ''exit''"

text \<open>The plain mode: neither debugging nor subscribed.\<close>

definition plain_mode :: "'f cli \<Rightarrow> bool" where
  "plain_mode s \<longleftrightarrow> \<not> evalLDB (cli_config s) \<and> \<not> pubsubMode (cli_config s)"

lemma print_out_simps [simp]:
  "cli_context (print_out t s) = cli_context s" "cli_config (print_out t s) = cli_config s"
  "cli_context (edit e s) = cli_context s" "cli_config (edit e s) = cli_config s"
  "cli_context (show_prompt s) = cli_context s" "cli_config (show_prompt s) = cli_config s"
  by (simp_all add: print_out_def edit_def show_prompt_def)

lemma repl_line_quiet:
  assumes "plain_mode s" and "\<not> EqualFold (first_word line) ''connect''"
  shows "\<exists>r. repl_line E line s = Ret r \<and> cli_context (end_state r) = cli_context s \<and>
    (\<forall>s1. r = Continue s1 \<longrightarrow> plain_mode s1) \<and> ((\<exists>s1. r = ExitProcess s1) \<longrightarrow> quits line)"
proof (cases "Fields line")
  case Nil
  then show ?thesis using assms(1) by (simp add: repl_line_def splitArgs_def plain_mode_def)
next
  case (Cons w ws)
  then have w: "first_word line = w" by (simp add: first_word_def)
  have split: "splitArgs line s = Ret (w # ws, 1 + int (length ws))"
    using assms(1) Cons by (simp add: splitArgs_def plain_mode_def)
  obtain n err where n: "ParseInt w = (n, err)" by (cases "ParseInt w")
  show ?thesis
    using assms unfolding repl_line_def split w quits_def plain_mode_def
    by (simp add: n)
qed

lemma repl_loop_quiet:
  assumes "plain_mode s" and "list_all (\<lambda>l. case l of None \<Rightarrow> True | Some line \<Rightarrow> \<not> EqualFold (first_word line) ''connect'') input"
  shows "\<exists>r. repl_loop E input s = Ret r \<and> cli_context (end_state r) = cli_context s \<and>
    ((\<exists>s1. r = ExitProcess s1) \<longrightarrow> (\<exists>line. Some line \<in> set input \<and> quits line))"
  using assms
proof (induction input arbitrary: s)
  case Nil
  then show ?case by (simp add: prompt_failed_def plain_mode_def)
next
  case (Cons l input)
  show ?case
  proof (cases l)
    case None
    with Cons.prems show ?thesis by (simp add: prompt_failed_def plain_mode_def)
  next
    case (Some line)
    have "plain_mode (show_prompt s)" and "\<not> EqualFold (first_word line) ''connect''"
      using Cons.prems Some by (simp_all add: plain_mode_def)
    from repl_line_quiet [OF this, of E] obtain r where r: "repl_line E line (show_prompt s) = Ret r"
      "cli_context (end_state r) = cli_context s" "\<forall>s1. r = Continue s1 \<longrightarrow> plain_mode s1"
      "(\<exists>s1. r = ExitProcess s1) \<longrightarrow> quits line" by auto
    have IH: "plain_mode s1 \<Longrightarrow> \<exists>r. repl_loop E input s1 = Ret r \<and> cli_context (end_state r) = cli_context s1 \<and>
        ((\<exists>s1. r = ExitProcess s1) \<longrightarrow> (\<exists>line. Some line \<in> set input \<and> quits line))" for s1
      using Cons.IH Cons.prems(2) by simp
    show ?thesis
    proof (cases r)
      case (Continue s1)
      with r(3) IH [of s1] obtain r' where "repl_loop E input s1 = Ret r'"
        "cli_context (end_state r') = cli_context s1" "(\<exists>s1. r' = ExitProcess s1) \<longrightarrow> (\<exists>line. Some line \<in> set input \<and> quits line)"
        by blast
      with r Some Continue show ?thesis by auto
    qed (use r Some in auto)
  qed
qed

text \<open>
  without a line that asks for a connection the loop reads its lines and sends none of them: it always ends,
  the context with its output buffer is the one it started with, and the process exits only on quit or exit.
\<close>

theorem repl_sends_nothing:
  assumes "plain_mode s" and "list_all (\<lambda>l. case l of None \<Rightarrow> True | Some line \<Rightarrow> \<not> EqualFold (first_word line) ''connect'') input"
  shows "\<exists>r. repl_loop E input s = Ret r \<and> cli_context (end_state r) = cli_context s \<and>
    ((\<exists>s1. r = ExitProcess s1) \<longrightarrow> (\<exists>line. Some line \<in> set input \<and> quits line))"
  using assms by (rule repl_loop_quiet)

theorem repl_sends_nothing_witness:
  "\<exists>r. repl_loop quiet_env [Some ''SET a b'', Some ''quit''] default_cli = Ret r \<and>
    cli_context (end_state r) = cli_context default_cli \<and>
    ((\<exists>s1. r = ExitProcess s1) \<longrightarrow> (\<exists>line. Some line \<in> set [Some ''SET a b'', Some ''quit''] \<and> quits line))"
proof (rule repl_sends_nothing)
  show "plain_mode default_cli" by (simp add: plain_mode_def default_cli_def default_config_def)
  show "list_all (\<lambda>l. case l of None \<Rightarrow> True | Some line \<Rightarrow> \<not> EqualFold (first_word line) ''connect'')
    [Some ''SET a b'', Some ''quit'']" by code_simp
qed

end
