(* ===== verification/Epoll.thy ===== *)
theory Epoll
  imports Gostrings
begin

text \<open>
  The Linux networking of \<open>src/node\<close>: errors (\<open>error.go\<close>, \<open>utils_unix.go\<close>), the registry of descriptors
  (\<open>registry_unix.go\<close>) and connections (\<open>conn_unix.go\<close>, \<open>handler.go\<close>). The kernel is a parameter: a record of system calls on
  an abstract state, of which the code sees the results only.
\<close>

section \<open>The kernel\<close>

datatype ctl_op = EPOLL_CTL_ADD | EPOLL_CTL_DEL | EPOLL_CTL_MOD

definition EPOLLIN :: uint32 where "EPOLLIN = 0x1"
definition EPOLLPRI :: uint32 where "EPOLLPRI = 0x2"
definition EPOLLOUT :: uint32 where "EPOLLOUT = 0x4"
definition EPOLLERR :: uint32 where "EPOLLERR = 0x8"
definition EPOLLHUP :: uint32 where "EPOLLHUP = 0x10"

definition EINTR :: nat where "EINTR = 4"
definition EAGAIN :: nat where "EAGAIN = 11"
definition EWOULDBLOCK :: nat where "EWOULDBLOCK = 11"

record epollEvent =
  ev_Events :: uint32
  ev_Fd :: int

text \<open>An IPv4 or IPv6 socket address, by its address bytes, or one of another family.\<close>

datatype sockaddr = SockaddrInet4 string | SockaddrInet6 string | SockaddrOther

datatype go_error =
    Errno nat
  | SyscallError string go_error
  | PathError string string go_error
  | ErrorString string
  | WrapError string go_error
  | MultiError "go_error list"
  | ErrSignalStopped

text \<open>
  The system calls the code makes, each with an error number on failure; \<open>k_file_write\<close> is \<open>os.File.Write\<close> on a
  descriptor, \<open>k_errno_text\<close> the table of messages behind \<open>Errno.Error()\<close>.
\<close>

record 'k kernel =
  k_epoll_create :: "'k \<Rightarrow> (nat + int) \<times> 'k"
  k_eventfd :: "'k \<Rightarrow> (nat + int) \<times> 'k"
  k_epoll_ctl :: "int \<Rightarrow> ctl_op \<Rightarrow> int \<Rightarrow> uint32 option \<Rightarrow> 'k \<Rightarrow> nat option \<times> 'k"
  k_epoll_wait :: "int \<Rightarrow> int \<Rightarrow> 'k \<Rightarrow> (nat + epollEvent list) \<times> 'k"
  k_read :: "int \<Rightarrow> nat \<Rightarrow> 'k \<Rightarrow> (nat + string) \<times> 'k"
  k_write :: "int \<Rightarrow> string \<Rightarrow> 'k \<Rightarrow> (nat + int) \<times> 'k"
  k_file_write :: "int \<Rightarrow> string \<Rightarrow> 'k \<Rightarrow> (int \<times> go_error option) \<times> 'k"
  k_close :: "int \<Rightarrow> 'k \<Rightarrow> nat option \<times> 'k"
  k_getfd :: "int \<Rightarrow> 'k \<Rightarrow> nat option"
  k_accept :: "int \<Rightarrow> 'k \<Rightarrow> (nat + int \<times> sockaddr) \<times> 'k"
  k_nonblock :: "int \<Rightarrow> bool \<Rightarrow> 'k \<Rightarrow> nat option \<times> 'k"
  k_errno_text :: "nat \<Rightarrow> string"

section \<open>Errors\<close>

text \<open>The method \<open>Error\<close> of the errors, with the one of \<open>MultiError\<close>.\<close>

fun error_text :: "(nat \<Rightarrow> string) \<Rightarrow> go_error \<Rightarrow> string" where
  "error_text T (Errno e) = T e"
| "error_text T (SyscallError name e) = name @ '': '' @ error_text T e"
| "error_text T (PathError op path e) = op @ '' '' @ path @ '': '' @ error_text T e"
| "error_text T (ErrorString s) = s"
| "error_text T (WrapError s e) = s"
| "error_text T (MultiError es) = ''multiple errors:'' @ concat (map (\<lambda>e. [CHR 0x0A] @ ''- '' @ error_text T e) es)"
| "error_text T ErrSignalStopped = ''signal stopped''"

text \<open>\<open>os.NewSyscallError\<close>: no error stays no error.\<close>

definition NewSyscallError :: "string \<Rightarrow> nat option \<Rightarrow> go_error option" where
  "NewSyscallError name err = map_option (\<lambda>e. SyscallError name (Errno e)) err"

text \<open>\<open>strings.Contains\<close>.\<close>

definition Contains :: "string \<Rightarrow> string \<Rightarrow> bool" where
  "Contains s t = sublist t s"

definition IsTemporaryError :: "'k kernel \<Rightarrow> go_error \<Rightarrow> bool" where
  "IsTemporaryError K err =
     (let s = error_text (k_errno_text K) err in Contains s ''EAGAIN'' \<or> Contains s ''EWOULDBLOCK'')"

definition isFDValid :: "'k kernel \<Rightarrow> int \<Rightarrow> 'k \<Rightarrow> bool" where
  "isFDValid K fd k \<longleftrightarrow> k_getfd K fd k = None"

definition CloseFd :: "'k kernel \<Rightarrow> int \<Rightarrow> 'k \<Rightarrow> go_error option \<times> 'k" where
  "CloseFd K fd k =
     (if isFDValid K fd k then (case k_close K fd k of (e, k') \<Rightarrow> (map_option Errno e, k')) else (None, k))"

section \<open>The registry\<close>

definition readEvents :: uint32 where "readEvents = EPOLLPRI OR EPOLLIN"
definition writeEvents :: uint32 where "writeEvents = EPOLLOUT"
definition readWriteEvents :: uint32 where "readWriteEvents = readEvents OR writeEvents"

record registry =
  rg_epollFd :: int
  rg_epollSet :: "int \<Rightarrow> uint32 option"

definition NewRegistry :: "int \<Rightarrow> registry" where
  "NewRegistry epollFd = \<lparr>rg_epollFd = epollFd, rg_epollSet = Map.empty\<rparr>"

definition epoll_add :: "'k kernel \<Rightarrow> uint32 \<Rightarrow> registry \<Rightarrow> int \<Rightarrow> 'k \<Rightarrow> go_error option \<times> 'k" where
  "epoll_add K ev r fd k =
     (case k_epoll_ctl K (rg_epollFd r) EPOLL_CTL_ADD fd (Some ev) k of
        (e, k') \<Rightarrow> (NewSyscallError ''epoll_ctl add'' e, k'))"

definition epoll_mod :: "'k kernel \<Rightarrow> uint32 \<Rightarrow> registry \<Rightarrow> int \<Rightarrow> 'k \<Rightarrow> go_error option \<times> 'k" where
  "epoll_mod K ev r fd k =
     (case k_epoll_ctl K (rg_epollFd r) EPOLL_CTL_MOD fd (Some ev) k of
        (e, k') \<Rightarrow> (NewSyscallError ''epoll_ctl mod'' e, k'))"

definition AddRead :: "'k kernel \<Rightarrow> registry \<Rightarrow> int \<Rightarrow> 'k \<Rightarrow> go_error option \<times> 'k" where
  "AddRead K = epoll_add K readEvents"

definition AddWrite :: "'k kernel \<Rightarrow> registry \<Rightarrow> int \<Rightarrow> 'k \<Rightarrow> go_error option \<times> 'k" where
  "AddWrite K = epoll_add K writeEvents"

definition AddReadWrite :: "'k kernel \<Rightarrow> registry \<Rightarrow> int \<Rightarrow> 'k \<Rightarrow> go_error option \<times> 'k" where
  "AddReadWrite K = epoll_add K readWriteEvents"

definition ModRead :: "'k kernel \<Rightarrow> registry \<Rightarrow> int \<Rightarrow> 'k \<Rightarrow> go_error option \<times> 'k" where
  "ModRead K = epoll_mod K readEvents"

definition ModWrite :: "'k kernel \<Rightarrow> registry \<Rightarrow> int \<Rightarrow> 'k \<Rightarrow> go_error option \<times> 'k" where
  "ModWrite K = epoll_mod K writeEvents"

definition ModReadWrite :: "'k kernel \<Rightarrow> registry \<Rightarrow> int \<Rightarrow> 'k \<Rightarrow> go_error option \<times> 'k" where
  "ModReadWrite K = epoll_mod K readWriteEvents"

definition rg_Delete :: "'k kernel \<Rightarrow> registry \<Rightarrow> int \<Rightarrow> 'k \<Rightarrow> go_error option \<times> 'k" where
  "rg_Delete K r fd k =
     (case k_epoll_ctl K (rg_epollFd r) EPOLL_CTL_DEL fd None k of
        (e, k') \<Rightarrow> (NewSyscallError ''epoll_ctl del'' e, k'))"

definition registerRead :: "'k kernel \<Rightarrow> int \<Rightarrow> registry \<Rightarrow> 'k \<Rightarrow> go_error option \<times> registry \<times> 'k" where
  "registerRead K fd r k =
     (case (if rg_epollSet r fd \<noteq> None then ModRead K r fd k else AddRead K r fd k) of
        (Some err, k') \<Rightarrow> (Some err, r, k')
      | (None, k') \<Rightarrow> (None, r\<lparr>rg_epollSet := (rg_epollSet r)(fd \<mapsto> readEvents)\<rparr>, k'))"

definition registerWrite :: "'k kernel \<Rightarrow> int \<Rightarrow> registry \<Rightarrow> 'k \<Rightarrow> go_error option \<times> registry \<times> 'k" where
  "registerWrite K fd r k =
     (case (if rg_epollSet r fd \<noteq> None then ModWrite K r fd k else AddWrite K r fd k) of
        (Some err, k') \<Rightarrow> (Some err, r, k')
      | (None, k') \<Rightarrow> (None, r\<lparr>rg_epollSet := (rg_epollSet r)(fd \<mapsto> writeEvents)\<rparr>, k'))"

definition RegisterReadWriter :: "'k kernel \<Rightarrow> int \<Rightarrow> registry \<Rightarrow> 'k \<Rightarrow> go_error option \<times> registry \<times> 'k" where
  "RegisterReadWriter K fd r k =
     (case (if rg_epollSet r fd \<noteq> None then ModReadWrite K r fd k else AddReadWrite K r fd k) of
        (Some err, k') \<Rightarrow> (Some err, r, k')
      | (None, k') \<Rightarrow> (None, r\<lparr>rg_epollSet := (rg_epollSet r)(fd \<mapsto> readWriteEvents)\<rparr>, k'))"

definition deregisterWrite :: "'k kernel \<Rightarrow> int \<Rightarrow> registry \<Rightarrow> 'k \<Rightarrow> go_error option \<times> registry \<times> 'k" where
  "deregisterWrite K fd r k = registerRead K fd r k"

definition unregister :: "'k kernel \<Rightarrow> int \<Rightarrow> registry \<Rightarrow> 'k \<Rightarrow> go_error option \<times> registry \<times> 'k" where
  "unregister K fd r k =
     (if rg_epollSet r fd = None then (None, r, k)
      else case k_epoll_ctl K (rg_epollFd r) EPOLL_CTL_DEL fd None k of
        (Some e, k') \<Rightarrow> (Some (Errno e), r, k')
      | (None, k') \<Rightarrow> (None, r\<lparr>rg_epollSet := (rg_epollSet r)(fd := None)\<rparr>, k'))"

text \<open>
  \<open>ClosAndClearAllFDs\<close>: \<open>fds\<close> is the order in which the range loop visits the keys of the map. The map itself
  is left as it is.
\<close>

fun close_fds :: "'k kernel \<Rightarrow> registry \<Rightarrow> int list \<Rightarrow> go_error list \<Rightarrow> 'k \<Rightarrow> go_error list \<times> 'k" where
  "close_fds K r [] errs k = (errs, k)"
| "close_fds K r (fd # fds) errs k =
     (case rg_Delete K r fd k of
        (Some err, k1) \<Rightarrow>
          close_fds K r fds
            (errs @ [ErrorString (''delete fd: '' @ itoa fd @ '' error: '' @ error_text (k_errno_text K) err)]) k1
      | (None, k1) \<Rightarrow>
          (case k_close K fd k1 of
             (Some e, k2) \<Rightarrow>
               close_fds K r fds
                 (errs @ [ErrorString (''close fd: '' @ itoa fd @ '' error: '' @ error_text (k_errno_text K) (Errno e))]) k2
           | (None, k2) \<Rightarrow> close_fds K r fds errs k2))"

definition ClosAndClearAllFDs :: "'k kernel \<Rightarrow> int list \<Rightarrow> registry \<Rightarrow> 'k \<Rightarrow> go_error option \<times> 'k" where
  "ClosAndClearAllFDs K fds r k =
     (case close_fds K r fds [] k of (errs, k') \<Rightarrow> (if errs \<noteq> [] then Some (MultiError errs) else None, k'))"

section \<open>Connections\<close>

text \<open>\<open>dc_poll\<close> says whether the pointer to the poll is set; there is one poll.\<close>

record bufferedConn =
  dc_fd :: int
  dc_ip :: string
  dc_outBuffer :: string
  dc_poll :: bool

text \<open>The loop of \<open>Read\<close>: the data, or an error. It ends at the first error only.\<close>

partial_function (option) read_loop ::
  "'k kernel \<Rightarrow> int \<Rightarrow> string \<Rightarrow> 'k \<Rightarrow> (panic + (go_error + string) \<times> 'k) option" where
  "read_loop K fd buf k =
     (case k_read K fd 4096 k of
        (Inl e, k') \<Rightarrow>
          if IsTemporaryError K (Errno e) then Ret (Inr buf, k') else Ret (Inl (Errno e), k')
      | (Inr bytes, k') \<Rightarrow> read_loop K fd (buf @ bytes) k')"

declare read_loop.simps [code]

definition conn_Read :: "'k kernel \<Rightarrow> bufferedConn \<Rightarrow> 'k \<Rightarrow> ((go_error + string) \<times> 'k) go" where
  "conn_Read K c k = read_loop K (dc_fd c) [] k"

text \<open>\<open>c.poll.registerWrite(c.fd)\<close>; \<open>r\<close> is the registry of the poll.\<close>

definition want_write ::
  "'k kernel \<Rightarrow> bufferedConn \<Rightarrow> registry \<Rightarrow> 'k \<Rightarrow> (go_error option \<times> bufferedConn \<times> registry \<times> 'k) go" where
  "want_write K c r k =
     (if dc_poll c then (case registerWrite K (dc_fd c) r k of (err, r', k') \<Rightarrow> Ret (err, c, r', k'))
      else Panics NilDeref)"

definition conn_Write ::
  "'k kernel \<Rightarrow> string \<Rightarrow> bufferedConn \<Rightarrow> registry \<Rightarrow> 'k
     \<Rightarrow> (go_error option \<times> bufferedConn \<times> registry \<times> 'k) go" where
  "conn_Write K bytes c r k =
     (if dc_outBuffer c \<noteq> [] then want_write K (c\<lparr>dc_outBuffer := dc_outBuffer c @ bytes\<rparr>) r k
      else if dc_fd c < 0 then Ret (Some (ErrorString (''invalid fd: '' @ itoa (dc_fd c))), c, r, k)
      else
        case k_file_write K (dc_fd c) bytes k of
          ((n, Some err), k') \<Rightarrow>
            if IsTemporaryError K err then
              gobind (slice_from bytes n) (\<lambda>rest.
                want_write K (c\<lparr>dc_outBuffer := dc_outBuffer c @ rest\<rparr>) r k')
            else Ret (Some err, c, r, k')
        | ((n, None), k') \<Rightarrow>
            if n < int (length bytes) then
              gobind (slice_from bytes n) (\<lambda>rest.
                want_write K (c\<lparr>dc_outBuffer := dc_outBuffer c @ rest\<rparr>) r k')
            else Ret (None, c, r, k'))"

definition conn_Close :: "'k kernel \<Rightarrow> bufferedConn \<Rightarrow> registry \<Rightarrow> 'k \<Rightarrow> (go_error option \<times> registry \<times> 'k) go" where
  "conn_Close K c r k =
     (if \<not> dc_poll c then Panics NilDeref
      else case unregister K (dc_fd c) r k of
        (Some err, r', k') \<Rightarrow> Ret (Some err, r', k')
      | (None, r', k') \<Rightarrow> (case k_close K (dc_fd c) k' of (e, k'') \<Rightarrow> Ret (map_option Errno e, r', k'')))"

text \<open>\<open>DataToWrite\<close>, \<open>Next\<close> and \<open>Len\<close>: the bytes not yet read of a \<open>bytes.Buffer\<close>.\<close>

definition DataToWrite :: "bufferedConn \<Rightarrow> string" where
  "DataToWrite c = dc_outBuffer c"

definition conn_Next :: "int \<Rightarrow> bufferedConn \<Rightarrow> bufferedConn" where
  "conn_Next n c = c\<lparr>dc_outBuffer := drop (nat n) (dc_outBuffer c)\<rparr>"

definition conn_Len :: "bufferedConn \<Rightarrow> int" where
  "conn_Len c = int (length (dc_outBuffer c))"

text \<open>\<open>DefaultHandler.Read\<close>: what was read is written back, and the error of the write dropped.\<close>

definition DefaultHandler_Read ::
  "'k kernel \<Rightarrow> bufferedConn \<Rightarrow> registry \<Rightarrow> 'k \<Rightarrow> (go_error option \<times> bufferedConn \<times> registry \<times> 'k) go" where
  "DefaultHandler_Read K c r k =
     gobind (conn_Read K c k) (\<lambda>(res, k1).
       case res of
         Inl err \<Rightarrow> Ret (Some err, c, r, k1)
       | Inr bytes \<Rightarrow> gobind (conn_Write K bytes c r k1) (\<lambda>(_, c', r', k2). Ret (None, c', r', k2)))"

end
