(* ===== verification/Poll.thy ===== *)
theory Poll
  imports Epoll
begin

text \<open>
  The event loop of \<open>src/node/poll_unix.go\<close>, and the reactor and server around it (\<open>reactor_unix.go\<close>, \<open>server.go\<close>). The
  loop runs in its own goroutine; \<open>Run\<close> of the reactor is a step relation over the two.
\<close>

section \<open>Addresses\<close>

text \<open>
  \<open>net.IP.String()\<close>: four numbers, also for an IPv4 address inside an IPv6 one; otherwise eight groups in
  hexadecimal, with the first longest run of at least two zero groups left out.
\<close>

definition byte_at :: "string \<Rightarrow> nat \<Rightarrow> nat" where
  "byte_at a i = of_char (a ! i)"

definition dotted :: "string \<Rightarrow> string" where
  "dotted a =
     itoa (int (byte_at a 0)) @ ''.'' @ itoa (int (byte_at a 1)) @ ''.'' @
     itoa (int (byte_at a 2)) @ ''.'' @ itoa (int (byte_at a 3))"

fun hex_group :: "nat \<Rightarrow> string" where
  "hex_group n =
     (if n < 16 then [if n < 10 then char_of (48 + n) else char_of (87 + n)]
      else hex_group (n div 16) @ hex_group (n mod 16))"

declare hex_group.simps [simp del]

definition groups :: "string \<Rightarrow> nat list" where
  "groups a = map (\<lambda>i. 256 * byte_at a (2 * i) + byte_at a (2 * i + 1)) [0..<8]"

definition zero_run :: "nat list \<Rightarrow> nat \<Rightarrow> nat" where
  "zero_run gs i = length (takeWhile (\<lambda>g. g = 0) (drop i gs))"

text \<open>Start and length of the run that is left out; length 0 if there is none.\<close>

definition longest_zeros :: "nat list \<Rightarrow> nat \<times> nat" where
  "longest_zeros gs =
     fold (\<lambda>i (s, l). if zero_run gs i \<ge> 2 \<and> zero_run gs i > l then (i, zero_run gs i) else (s, l)) [0..<8] (0, 0)"

definition ip6_text :: "nat list \<Rightarrow> string" where
  "ip6_text gs =
     (let (s, l) = longest_zeros gs;
          part = (\<lambda>is. concat (map (\<lambda>i. (if i = 0 \<or> (l > 0 \<and> i = s + l) then [] else '':'') @ hex_group (gs ! i)) is)) in
      if l = 0 then part [0..<8] else part [0..<s] @ ''::'' @ part [s + l..<8])"

definition ip_text :: "sockaddr \<Rightarrow> string" where
  "ip_text sa =
     (case sa of
        SockaddrInet4 a \<Rightarrow> dotted a
      | SockaddrInet6 a \<Rightarrow>
          if take 12 a = replicate 10 (CHR 0x00) @ [CHR 0xFF, CHR 0xFF] then dotted (drop 12 a)
          else ip6_text (groups a)
      | SockaddrOther \<Rightarrow> [])"

section \<open>The poll\<close>

text \<open>
  A closed channel \<open>done\<close> is \<open>p_done\<close>. The handler is a function on a connection; nil is None. A connection
  pointer is the descriptor under which the pool holds it.
\<close>

record poll =
  p_done :: bool
  p_reg :: registry
  p_epollFd :: int
  p_listenFD :: int
  p_connCnt :: int64
  p_maxFD :: int
  p_efd :: int
  p_connPool :: "int \<Rightarrow> bufferedConn option"

type_synonym 'k handler =
  "bufferedConn \<Rightarrow> registry \<Rightarrow> 'k \<Rightarrow> (go_error option \<times> bufferedConn \<times> registry \<times> 'k) go"

definition NewPoll :: "'k kernel \<Rightarrow> int \<Rightarrow> int \<Rightarrow> 'k \<Rightarrow> (go_error + poll) \<times> 'k" where
  "NewPoll K maxfd lnFd k =
     (case k_epoll_create K k of
        (Inl e, k1) \<Rightarrow> (Inl (Errno e), k1)
      | (Inr epfd, k1) \<Rightarrow>
          let r = NewRegistry epfd in
          (case k_eventfd K k1 of
             (Inl e, k2) \<Rightarrow> (Inl (Errno e), k2)
           | (Inr efd, k2) \<Rightarrow>
               (case AddRead K r efd k2 of
                  (Some err, k3) \<Rightarrow> (Inl err, k3)
                | (None, k3) \<Rightarrow>
                    (case AddRead K r lnFd k3 of
                       (Some err, k4) \<Rightarrow> (Inl err, k4)
                     | (None, k4) \<Rightarrow>
                         (Inr \<lparr>p_done = False, p_reg = r, p_epollFd = epfd, p_listenFD = lnFd, p_connCnt = 0,
                               p_maxFD = maxfd, p_efd = efd, p_connPool = Map.empty\<rparr>, k4)))))"

text \<open>
  \<open>CloseGracefully\<close>; its errors are logged only. \<open>order\<close> is the order of the range loop over the connections.
\<close>

definition CloseGracefully :: "'k kernel \<Rightarrow> int list \<Rightarrow> poll \<Rightarrow> 'k \<Rightarrow> 'k" where
  "CloseGracefully K order p k =
     (let k1 = snd (rg_Delete K (p_reg p) (p_efd p) k);
          k2 = snd (CloseFd K (p_efd p) k1);
          k3 = snd (rg_Delete K (p_reg p) (p_listenFD p) k2);
          k4 = snd (CloseFd K (p_listenFD p) k3);
          k5 = snd (ClosAndClearAllFDs K order (p_reg p) k4) in
      snd (CloseFd K (p_epollFd p) k5))"

definition incrFd :: "poll \<Rightarrow> poll" where
  "incrFd p = p\<lparr>p_connCnt := p_connCnt p + 1\<rparr>"

definition decrFd :: "poll \<Rightarrow> poll" where
  "decrFd p = p\<lparr>p_connCnt := p_connCnt p - 1\<rparr>"

section \<open>Events\<close>

definition SignalStop :: "8 word" where
  "SignalStop = 1"

text \<open>
  \<open>handleSignal\<close> reads into the eight bytes of a zero \<open>uint64\<close> and looks at the lowest one, the first on a
  little-endian machine.
\<close>

definition handleSignal :: "'k kernel \<Rightarrow> int \<Rightarrow> 'k \<Rightarrow> go_error option \<times> 'k" where
  "handleSignal K fd k =
     (case k_read K fd 8 k of
        (Inl e, k') \<Rightarrow> (None, k')
      | (Inr bytes, k') \<Rightarrow>
          let receivedSignal = (case bytes of [] \<Rightarrow> 0 | b # _ \<Rightarrow> word_of_nat (of_char b)) in
          (if receivedSignal = SignalStop then Some ErrSignalStopped else None, k'))"

text \<open>\<open>sendSignal\<close> writes eight bytes from the address of a one-byte variable: \<open>mem\<close> is what lies behind it.\<close>

definition sendSignal :: "'k kernel \<Rightarrow> string \<Rightarrow> 8 word \<Rightarrow> poll \<Rightarrow> 'k \<Rightarrow> go_error option \<times> 'k" where
  "sendSignal K mem sig p k =
     (case k_write K (p_efd p) (char_of (unat sig) # take 7 mem) k of
        (Inl e, k') \<Rightarrow> (Some (Errno e), k')
      | (Inr _, k') \<Rightarrow> (None, k'))"

definition accept :: "'k kernel \<Rightarrow> int \<Rightarrow> poll \<Rightarrow> 'k \<Rightarrow> go_error option \<times> poll \<times> 'k" where
  "accept K fd p k =
     (case k_accept K fd k of
        (Inl e, k1) \<Rightarrow>
          if e = EAGAIN \<or> e = EWOULDBLOCK then (None, p, k1)
          else (Some (WrapError (''accept error: '' @ k_errno_text K e) (Errno e)), p, k1)
      | (Inr (connFd, sa), k1) \<Rightarrow>
          (case k_nonblock K connFd True k1 of
             (Some e, k2) \<Rightarrow>
               (Some (WrapError (''set nonblock error for fd '' @ itoa connFd @ '': '' @ k_errno_text K e) (Errno e)), p, k2)
           | (None, k2) \<Rightarrow>
               (case registerRead K connFd (p_reg p) k2 of
                  (Some err, r, k3) \<Rightarrow>
                    (Some (WrapError (''register read error for fd '' @ itoa connFd @ '': '' @
                       error_text (k_errno_text K) err) err), p\<lparr>p_reg := r\<rparr>, k3)
                | (None, r, k3) \<Rightarrow>
                    let c = \<lparr>dc_fd = connFd, dc_ip = ip_text sa, dc_outBuffer = [], dc_poll = False\<rparr> in
                    (None, incrFd (p\<lparr>p_reg := r, p_connPool := (p_connPool p)(connFd \<mapsto> c)\<rparr>), k3))))"

definition writeRawToFd :: "'k kernel \<Rightarrow> int \<Rightarrow> string \<Rightarrow> 'k \<Rightarrow> (go_error + int) \<times> 'k" where
  "writeRawToFd K fd bytes k =
     (case k_write K fd bytes k of (Inl e, k') \<Rightarrow> (Inl (Errno e), k') | (Inr n, k') \<Rightarrow> (Inr n, k'))"

definition handleWrite ::
  "'k kernel \<Rightarrow> bufferedConn \<Rightarrow> registry \<Rightarrow> 'k \<Rightarrow> go_error option \<times> bufferedConn \<times> registry \<times> 'k" where
  "handleWrite K c r k =
     (let fd = dc_fd c in
      case writeRawToFd K fd (DataToWrite c) k of
        (Inl err, k1) \<Rightarrow>
          (Some (WrapError (''write error for fd '' @ itoa fd @ '': '' @ error_text (k_errno_text K) err) err), c, r, k1)
      | (Inr n, k1) \<Rightarrow>
          let c1 = conn_Next n c in
          if conn_Len c1 = 0 then
            (case deregisterWrite K fd r k1 of
               (Some err, r1, k2) \<Rightarrow>
                 (Some (WrapError (''failed to deregister write for fd '' @ itoa fd @ '': '' @
                    error_text (k_errno_text K) err) err), c1, r1, k2)
             | (None, r1, k2) \<Rightarrow> (None, c1, r1, k2))
          else (None, c1, r, k1))"

text \<open>Run an operation on the connection of a descriptor, and store what it made of it.\<close>

definition on_conn ::
  "int \<Rightarrow> (bufferedConn \<Rightarrow> registry \<Rightarrow> 'k \<Rightarrow> (go_error option \<times> bufferedConn \<times> registry \<times> 'k) go)
     \<Rightarrow> poll \<Rightarrow> 'k \<Rightarrow> (go_error option \<times> poll \<times> 'k) go" where
  "on_conn fd f p k =
     (case p_connPool p fd of
        None \<Rightarrow> Ret (Some (ErrorString (''connection not found for fd '' @ itoa fd)), p, k)
      | Some c \<Rightarrow>
          gobind (f c (p_reg p) k) (\<lambda>(err, c', r', k').
            Ret (err, p\<lparr>p_reg := r', p_connPool := (p_connPool p)(fd \<mapsto> c')\<rparr>, k')))"

definition processEvent ::
  "'k kernel \<Rightarrow> 'k handler option \<Rightarrow> epollEvent \<Rightarrow> poll \<Rightarrow> 'k \<Rightarrow> (go_error option \<times> poll \<times> 'k) go" where
  "processEvent K H ev p k =
     (let fd = ev_Fd ev in
      if ev_Events ev AND EPOLLERR \<noteq> 0 \<or> ev_Events ev AND EPOLLHUP \<noteq> 0 then
        let p1 = decrFd p in
        case unregister K fd (p_reg p1) k of (err, r, k1) \<Rightarrow> Ret (err, p1\<lparr>p_reg := r\<rparr>, k1)
      else if fd = p_efd p then
        case handleSignal K fd k of (err, k1) \<Rightarrow> Ret (err, p, k1)
      else if fd = p_listenFD p then Ret (accept K fd p k)
      else if ev_Events ev AND EPOLLIN \<noteq> 0 then
        on_conn fd (\<lambda>c r k. case H of None \<Rightarrow> Panics NilDeref | Some h \<Rightarrow> h c r k) p k
      else if ev_Events ev AND EPOLLOUT \<noteq> 0 then
        on_conn fd (\<lambda>c r k. Ret (handleWrite K c r k)) p k
      else Ret (None, p, k))"

text \<open>The events of one round; the flag says whether the loop goes on.\<close>

fun process_events ::
  "'k kernel \<Rightarrow> 'k handler option \<Rightarrow> epollEvent list \<Rightarrow> poll \<Rightarrow> 'k \<Rightarrow> (bool \<times> poll \<times> 'k) go" where
  "process_events K H [] p k = Ret (True, p, k)"
| "process_events K H (ev # evs) p k =
     gobind (processEvent K H ev p k) (\<lambda>(err, p1, k1).
       if err = None then process_events K H evs p1 k1 else Ret (False, p1, k1))"

text \<open>One round of the loop: wait, and process what was reported.\<close>

definition poll_round :: "'k kernel \<Rightarrow> 'k handler option \<Rightarrow> poll \<Rightarrow> 'k \<Rightarrow> (bool \<times> poll \<times> 'k) go" where
  "poll_round K H p k =
     (case k_epoll_wait K (p_epollFd p) (p_maxFD p) k of
        (Inl e, k1) \<Rightarrow> if e = EINTR then Ret (True, p, k1) else Ret (False, p, k1)
      | (Inr evs, k1) \<Rightarrow> if evs = [] then Ret (True, p, k1) else process_events K H evs p k1)"

partial_function (option) poll_loop ::
  "'k kernel \<Rightarrow> 'k handler option \<Rightarrow> poll \<Rightarrow> 'k \<Rightarrow> (panic + poll \<times> 'k) option" where
  "poll_loop K H p k =
     gobind (poll_round K H p k) (\<lambda>(again, p1, k1). if again then poll_loop K H p1 k1 else Ret (p1, k1))"

text \<open>
  The deferred calls: the descriptors are closed, then the channel, which panics when it is closed already.
  \<open>order\<close> gives the order of the range loop over the registered descriptors.
\<close>

definition finish :: "'k kernel \<Rightarrow> ((int \<Rightarrow> uint32 option) \<Rightarrow> int list) \<Rightarrow> poll \<Rightarrow> 'k \<Rightarrow> (poll \<times> 'k) go" where
  "finish K order p k =
     (let k1 = CloseGracefully K (order (rg_epollSet (p_reg p))) p k in
      if p_done p then Panics (Explicit ''close of closed channel'') else Ret (p\<lparr>p_done := True\<rparr>, k1))"

definition poll_run ::
  "'k kernel \<Rightarrow> 'k handler option \<Rightarrow> ((int \<Rightarrow> uint32 option) \<Rightarrow> int list) \<Rightarrow> poll \<Rightarrow> 'k \<Rightarrow> (poll \<times> 'k) go" where
  "poll_run K H order p k =
     (if p_maxFD p < 0 then Panics MakeSliceLen
      else gobind (poll_loop K H p k) (\<lambda>(p1, k1). finish K order p1 k1))"

section \<open>Reactor and server\<close>

definition MaxFD :: int where
  "MaxFD = 1024"

text \<open>\<open>NewReactor\<close>; \<open>file\<close> is what \<open>File()\<close> of the TCP listener gave, an error or a descriptor.\<close>

definition NewReactor :: "'k kernel \<Rightarrow> go_error + int \<Rightarrow> 'k \<Rightarrow> (go_error + poll) \<times> 'k" where
  "NewReactor K file k =
     (case file of Inl err \<Rightarrow> (Inl err, k) | Inr fd \<Rightarrow> NewPoll K MaxFD fd k)"

text \<open>
  \<open>RedisServer.Run\<close> up to the call of \<open>reactor.Run\<close>: the listener (with the descriptor of its file), the reactor, and the
  handler, \<open>DefaultHandler\<close> when none was set.
\<close>

definition server_Run ::
  "'k kernel \<Rightarrow> go_error + (go_error + int) \<Rightarrow> 'k handler option \<Rightarrow> 'k \<Rightarrow> (go_error + poll \<times> 'k handler) \<times> 'k" where
  "server_Run K listener handler k =
     (case listener of
        Inl err \<Rightarrow> (Inl err, k)
      | Inr file \<Rightarrow>
          (case NewReactor K file k of
             (Inl err, k1) \<Rightarrow> (Inl err, k1)
           | (Inr p, k1) \<Rightarrow>
               (Inr (p, case handler of None \<Rightarrow> DefaultHandler_Read K | Some h \<Rightarrow> h), k1)))"

text \<open>
  \<open>Reactor.Run\<close>: the main goroutine selects between the channel \<open>done\<close> and a signal of the operating system, on which
  it sends the stop signal and waits for \<open>done\<close>. The poll goroutine runs beside it, one round at a time. \<open>ru_alive\<close> says
  that it did not end yet.
\<close>

datatype run_pc = Selecting | WaitingDone | RunReturned

record 'k run_state =
  ru_pc :: run_pc
  ru_signal :: bool
  ru_alive :: bool
  ru_poll :: poll
  ru_kernel :: 'k

inductive run_step ::
  "'k kernel \<Rightarrow> 'k handler option \<Rightarrow> ((int \<Rightarrow> uint32 option) \<Rightarrow> int list) \<Rightarrow> 'k run_state \<Rightarrow> 'k run_state \<Rightarrow> bool"
  for K :: "'k kernel" and H and order where
  signal: "run_step K H order s (s\<lparr>ru_signal := True\<rparr>)"
| done_closed: "ru_pc s = Selecting \<Longrightarrow> p_done (ru_poll s) \<Longrightarrow> run_step K H order s (s\<lparr>ru_pc := RunReturned\<rparr>)"
| signalled: "ru_pc s = Selecting \<Longrightarrow> ru_signal s \<Longrightarrow> sendSignal K mem SignalStop (ru_poll s) (ru_kernel s) = (err, k) \<Longrightarrow>
    run_step K H order s (s\<lparr>ru_pc := WaitingDone, ru_signal := False, ru_kernel := k\<rparr>)"
| waited: "ru_pc s = WaitingDone \<Longrightarrow> p_done (ru_poll s) \<Longrightarrow> run_step K H order s (s\<lparr>ru_pc := RunReturned\<rparr>)"
| round: "ru_alive s \<Longrightarrow> poll_round K H (ru_poll s) (ru_kernel s) = Ret (True, p, k) \<Longrightarrow>
    run_step K H order s (s\<lparr>ru_poll := p, ru_kernel := k\<rparr>)"
| last_round: "ru_alive s \<Longrightarrow> poll_round K H (ru_poll s) (ru_kernel s) = Ret (False, p, k) \<Longrightarrow>
    finish K order p k = Ret (p', k') \<Longrightarrow>
    run_step K H order s (s\<lparr>ru_alive := False, ru_poll := p', ru_kernel := k'\<rparr>)"

inductive_cases run_stepE: "run_step K H order s s'"

inductive run_reachable ::
  "'k kernel \<Rightarrow> 'k handler option \<Rightarrow> ((int \<Rightarrow> uint32 option) \<Rightarrow> int list) \<Rightarrow> poll \<Rightarrow> 'k \<Rightarrow> 'k run_state \<Rightarrow> bool"
  for K :: "'k kernel" and H and order and p and k where
  start: "run_reachable K H order p k
    \<lparr>ru_pc = Selecting, ru_signal = False, ru_alive = True, ru_poll = p, ru_kernel = k\<rparr>"
| step: "run_reachable K H order p k s \<Longrightarrow> run_step K H order s s' \<Longrightarrow> run_reachable K H order p k s'"

end
