(* ===== verification/Poll_Props.thy ===== *)
theory Poll_Props
  imports Poll
begin

text \<open>
  The networking of \<open>src/node\<close>: the registry agrees with the kernel, output keeps its order, and what the event loop
  and the reactor around it do. What the kernel is documented to do is stated as hypotheses on its record.
\<close>

section \<open>The registry and the kernel\<close>

definition EEXIST :: nat where "EEXIST = 17"
definition ENOENT :: nat where "ENOENT = 2"
definition EBADF :: nat where "EBADF = 9"

text \<open>
  \<open>epoll_ctl(2)\<close>: with \<open>I epfd k\<close> the interest list of an instance, adding works for a descriptor that is not on it,
  changing and deleting for one that is; \<open>EEXIST\<close> and \<open>ENOENT\<close> report the opposite, and a failed call changes nothing.
\<close>

definition epoll_spec :: "'k kernel \<Rightarrow> (int \<Rightarrow> 'k \<Rightarrow> int \<Rightarrow> uint32 option) \<Rightarrow> bool" where
  "epoll_spec K I \<longleftrightarrow> (\<forall>epfd op fd ev k.
     case k_epoll_ctl K epfd op fd ev k of
       (None, k') \<Rightarrow>
         (op = EPOLL_CTL_ADD \<longleftrightarrow> I epfd k fd = None) \<and>
         I epfd k' = (I epfd k)(fd := if op = EPOLL_CTL_DEL then None else ev)
     | (Some e, k') \<Rightarrow>
         I epfd k' = I epfd k \<and>
         (op = EPOLL_CTL_ADD \<and> e = EEXIST \<longrightarrow> I epfd k fd \<noteq> None) \<and>
         (op \<noteq> EPOLL_CTL_ADD \<and> e = ENOENT \<longrightarrow> I epfd k fd = None))"

lemma epoll_ctl_ok:
  "epoll_spec K I \<Longrightarrow> k_epoll_ctl K epfd op fd ev k = (None, k') \<Longrightarrow>
    I epfd k' = (I epfd k)(fd := if op = EPOLL_CTL_DEL then None else ev)"
  unfolding epoll_spec_def by (drule spec [of _ epfd], drule spec [of _ op], drule spec [of _ fd], drule spec [of _ ev],
    drule spec [of _ k]) simp

lemma epoll_ctl_failed:
  "epoll_spec K I \<Longrightarrow> k_epoll_ctl K epfd op fd ev k = (Some e, k') \<Longrightarrow>
    I epfd k' = I epfd k \<and> (op = EPOLL_CTL_ADD \<and> e = EEXIST \<longrightarrow> I epfd k fd \<noteq> None) \<and>
    (op \<noteq> EPOLL_CTL_ADD \<and> e = ENOENT \<longrightarrow> I epfd k fd = None)"
  unfolding epoll_spec_def by (drule spec [of _ epfd], drule spec [of _ op], drule spec [of _ fd], drule spec [of _ ev],
    drule spec [of _ k]) simp

text \<open>The map of the registry is the interest list, but for the descriptors in \<open>X\<close>, registered behind its back.\<close>

definition synced :: "int set \<Rightarrow> (int \<Rightarrow> 'k \<Rightarrow> int \<Rightarrow> uint32 option) \<Rightarrow> registry \<Rightarrow> 'k \<Rightarrow> bool" where
  "synced X I r k \<longleftrightarrow> (\<forall>fd. fd \<notin> X \<longrightarrow> rg_epollSet r fd = I (rg_epollFd r) k fd)"

text \<open>The operations the loop and the connections run on it, and a sequence of them with the errors it met.\<close>

datatype reg_op = RegRead int | RegWrite int | RegReadWrite int | Unregister int

fun op_fd :: "reg_op \<Rightarrow> int" where
  "op_fd (RegRead fd) = fd"
| "op_fd (RegWrite fd) = fd"
| "op_fd (RegReadWrite fd) = fd"
| "op_fd (Unregister fd) = fd"

fun run_op :: "'k kernel \<Rightarrow> reg_op \<Rightarrow> registry \<Rightarrow> 'k \<Rightarrow> go_error option \<times> registry \<times> 'k" where
  "run_op K (RegRead fd) r k = registerRead K fd r k"
| "run_op K (RegWrite fd) r k = registerWrite K fd r k"
| "run_op K (RegReadWrite fd) r k = RegisterReadWriter K fd r k"
| "run_op K (Unregister fd) r k = unregister K fd r k"

fun run_ops :: "'k kernel \<Rightarrow> reg_op list \<Rightarrow> registry \<Rightarrow> 'k \<Rightarrow> go_error list \<times> registry \<times> 'k" where
  "run_ops K [] r k = ([], r, k)"
| "run_ops K (x # xs) r k =
     (case run_op K x r k of
        (err, r1, k1) \<Rightarrow> (case run_ops K xs r1 k1 of (errs, r2, k2) \<Rightarrow> (case_option [] (\<lambda>e. [e]) err @ errs, r2, k2)))"

text \<open>The errors that say that the registry and the kernel disagree.\<close>

fun conflict :: "go_error \<Rightarrow> bool" where
  "conflict (SyscallError name (Errno n)) \<longleftrightarrow>
     (name = ''epoll_ctl add'' \<and> n = EEXIST) \<or> (name = ''epoll_ctl mod'' \<and> n = ENOENT)"
| "conflict (Errno n) \<longleftrightarrow> n = ENOENT"
| "conflict _ \<longleftrightarrow> False"

lemmas register_defs = registerRead_def registerWrite_def RegisterReadWriter_def ModRead_def AddRead_def ModWrite_def
  AddWrite_def ModReadWrite_def AddReadWrite_def epoll_add_def epoll_mod_def

text \<open>One registration, with the events \<open>ev\<close>: all three operations are this one.\<close>

definition register_events :: "'k kernel \<Rightarrow> uint32 \<Rightarrow> int \<Rightarrow> registry \<Rightarrow> 'k \<Rightarrow> go_error option \<times> registry \<times> 'k" where
  "register_events K ev fd r k =
     (case (if rg_epollSet r fd \<noteq> None then epoll_mod K ev r fd k else epoll_add K ev r fd k) of
        (Some err, k') \<Rightarrow> (Some err, r, k')
      | (None, k') \<Rightarrow> (None, r\<lparr>rg_epollSet := (rg_epollSet r)(fd \<mapsto> ev)\<rparr>, k'))"

lemma register_events:
  "registerRead K fd r k = register_events K readEvents fd r k"
  "registerWrite K fd r k = register_events K writeEvents fd r k"
  "RegisterReadWriter K fd r k = register_events K readWriteEvents fd r k"
  by (simp_all add: register_defs register_events_def)

lemma register_events_synced:
  assumes K: "epoll_spec K I" and s: "synced X I r k" and "fd \<notin> X" and run: "register_events K ev fd r k = (err, r', k')"
  shows "synced X I r' k' \<and> (\<forall>e. err = Some e \<longrightarrow> \<not> conflict e)"
proof -
  have fd: "rg_epollSet r fd = I (rg_epollFd r) k fd" using s assms(3) by (simp add: synced_def)
  let ?op = "if rg_epollSet r fd \<noteq> None then EPOLL_CTL_MOD else EPOLL_CTL_ADD"
  let ?name = "if rg_epollSet r fd \<noteq> None then ''epoll_ctl mod'' else ''epoll_ctl add''"
  obtain e k1 where ctl: "k_epoll_ctl K (rg_epollFd r) ?op fd (Some ev) k = (e, k1)" by fastforce
  have reg: "register_events K ev fd r k =
      (case NewSyscallError ?name e of
         Some err \<Rightarrow> (Some err, r, k1)
       | None \<Rightarrow> (None, r\<lparr>rg_epollSet := (rg_epollSet r)(fd \<mapsto> ev)\<rparr>, k1))"
    using ctl by (simp add: register_events_def epoll_mod_def epoll_add_def split: if_splits)
  show ?thesis
  proof (cases e)
    case None
    with run reg have "err = None" "r' = r\<lparr>rg_epollSet := (rg_epollSet r)(fd \<mapsto> ev)\<rparr>" "k' = k1"
      by (simp_all add: NewSyscallError_def)
    moreover have "I (rg_epollFd r) k1 = (I (rg_epollFd r) k)(fd \<mapsto> ev)"
      using epoll_ctl_ok [OF K ctl [unfolded None]] by (simp split: if_splits)
    ultimately show ?thesis using s by (simp add: synced_def)
  next
    case (Some n)
    with run reg have r': "r' = r" "k' = k1" and err: "err = Some (SyscallError ?name (Errno n))"
      by (auto simp: NewSyscallError_def)
    note failed = epoll_ctl_failed [OF K ctl [unfolded Some]]
    from failed s r' have "synced X I r' k'" by (simp add: synced_def)
    moreover have "\<not> conflict (SyscallError ?name (Errno n))"
    proof (cases "rg_epollSet r fd = None")
      case True
      with failed fd have "n \<noteq> EEXIST" by simp
      with True show ?thesis by simp
    next
      case False
      with failed fd have "n \<noteq> ENOENT" by auto
      with False show ?thesis by simp
    qed
    ultimately show ?thesis by (simp only: err option.inject) blast
  qed
qed

lemma unregister_synced:
  assumes K: "epoll_spec K I" and s: "synced X I r k" and "fd \<notin> X" and run: "unregister K fd r k = (err, r', k')"
  shows "synced X I r' k' \<and> (\<forall>e. err = Some e \<longrightarrow> \<not> conflict e)"
proof (cases "rg_epollSet r fd = None")
  case True
  with run s show ?thesis by (auto simp: unregister_def)
next
  case False
  then have fd: "I (rg_epollFd r) k fd \<noteq> None" using s assms(3) by (simp add: synced_def)
  obtain e k1 where ctl: "k_epoll_ctl K (rg_epollFd r) EPOLL_CTL_DEL fd None k = (e, k1)" by fastforce
  show ?thesis
  proof (cases e)
    case None
    with run ctl False have "err = None" "r' = r\<lparr>rg_epollSet := (rg_epollSet r)(fd := None)\<rparr>" "k' = k1"
      by (auto simp: unregister_def)
    with epoll_ctl_ok [OF K ctl [unfolded None]] s show ?thesis by (simp add: synced_def)
  next
    case (Some n)
    with run ctl False have "err = Some (Errno n)" "r' = r" "k' = k1" by (auto simp: unregister_def)
    with epoll_ctl_failed [OF K ctl [unfolded Some]] s fd show ?thesis by (auto simp: synced_def)
  qed
qed

lemma run_op_synced:
  assumes "epoll_spec K I" "synced X I r k" "op_fd x \<notin> X" "run_op K x r k = (err, r', k')"
  shows "synced X I r' k' \<and> (\<forall>e. err = Some e \<longrightarrow> \<not> conflict e)"
  using assms register_events_synced [OF assms(1,2)] unregister_synced [OF assms(1,2)]
  by (cases x) (simp_all add: register_events)

text \<open>
  C7: after any sequence of registrations and removals the map of the registry is the interest list of the
  kernel, failures of the kernel included, and the kernel never reports that the two disagree.
\<close>

theorem registry_agrees_with_kernel:
  assumes "epoll_spec K I" and "synced X I r k" and "list_all (\<lambda>x. op_fd x \<notin> X) xs"
    and "run_ops K xs r k = (errs, r', k')"
  shows "synced X I r' k' \<and> list_all (\<lambda>e. \<not> conflict e) errs"
  using assms(2-)
proof (induction xs arbitrary: r k errs)
  case Nil
  then show ?case by simp
next
  case (Cons x xs)
  obtain err r1 k1 where x: "run_op K x r k = (err, r1, k1)" by (cases "run_op K x r k")
  obtain errs1 r2 k2 where xs: "run_ops K xs r1 k1 = (errs1, r2, k2)" by (cases "run_ops K xs r1 k1")
  have "synced X I r1 k1 \<and> (\<forall>e. err = Some e \<longrightarrow> \<not> conflict e)"
    using run_op_synced [OF assms(1) Cons.prems(1) _ x] Cons.prems(2) by simp
  moreover from this have "synced X I r2 k2 \<and> list_all (\<lambda>e. \<not> conflict e) errs1"
    using Cons.IH [of r1 k1 errs1] Cons.prems(2,3) x xs by simp
  ultimately show ?case using Cons.prems(3) x xs by (auto split: option.splits)
qed

text \<open>
  A small kernel: its state is the interest list, the bytes sent, the input and the open descriptors; nothing fails but a wrong \<open>epoll_ctl\<close>.
\<close>

record sim =
  sim_interest :: "int \<Rightarrow> int \<Rightarrow> uint32 option"
  sim_sent :: "int \<Rightarrow> string"
  sim_input :: "int \<Rightarrow> string"
  sim_open :: "int set"

definition sim_ctl :: "int \<Rightarrow> ctl_op \<Rightarrow> int \<Rightarrow> uint32 option \<Rightarrow> sim \<Rightarrow> nat option \<times> sim" where
  "sim_ctl epfd op fd ev k =
     (let old = sim_interest k epfd in
      if op = EPOLL_CTL_ADD \<and> old fd \<noteq> None then (Some EEXIST, k)
      else if op \<noteq> EPOLL_CTL_ADD \<and> old fd = None then (Some ENOENT, k)
      else (None, k\<lparr>sim_interest :=
        (sim_interest k)(epfd := old(fd := if op = EPOLL_CTL_DEL then None else ev))\<rparr>))"

definition sim_send :: "int \<Rightarrow> string \<Rightarrow> sim \<Rightarrow> sim" where
  "sim_send fd bytes k = k\<lparr>sim_sent := (sim_sent k)(fd := sim_sent k fd @ bytes)\<rparr>"

text \<open>At most three bytes are taken by one write; a read gives all there is, then \<open>EAGAIN\<close>.\<close>

definition sim_kernel :: "epollEvent list \<Rightarrow> sim kernel" where
  "sim_kernel evs =
     \<lparr>k_epoll_create = (\<lambda>k. (Inr 3, k\<lparr>sim_interest := (sim_interest k)(3 := Map.empty)\<rparr>)), k_eventfd = (\<lambda>k. (Inr 4, k)), k_epoll_ctl = sim_ctl,
      k_epoll_wait = (\<lambda>_ _ k. (Inr evs, k)),
      k_read = (\<lambda>fd _ k. if sim_input k fd = [] then (Inl EAGAIN, k)
                       else (Inr (sim_input k fd), k\<lparr>sim_input := (sim_input k)(fd := [])\<rparr>)),
      k_write = (\<lambda>fd bytes k. (Inr (min 3 (int (length bytes))), sim_send fd (take 3 bytes) k)),
      k_file_write = (\<lambda>fd bytes k. ((min 3 (int (length bytes)), None), sim_send fd (take 3 bytes) k)),
      k_close = (\<lambda>fd k. (None, k\<lparr>sim_open := sim_open k - {fd}, sim_interest := (\<lambda>epfd. (sim_interest k epfd)(fd := None))\<rparr>)),
      k_getfd = (\<lambda>fd k. if fd \<in> sim_open k then None else Some EBADF), k_accept = (\<lambda>_ k. (Inl EAGAIN, k)),
      k_nonblock = (\<lambda>_ _ k. (None, k)),
      k_errno_text = (\<lambda>e. if e = EAGAIN then ''resource temporarily unavailable'' else ''other error'')\<rparr>"

definition sim_start :: sim where
  "sim_start = \<lparr>sim_interest = (\<lambda>_. Map.empty), sim_sent = (\<lambda>_. []), sim_input = (\<lambda>_. ''ping''), sim_open = {3, 4, 5, 7}\<rparr>"

lemma sim_epoll_spec: "epoll_spec (sim_kernel evs) (\<lambda>epfd k. sim_interest k epfd)"
  by (auto simp: epoll_spec_def sim_kernel_def sim_ctl_def Let_def EEXIST_def ENOENT_def split: prod.split option.split)

theorem registry_agrees_with_kernel_witness:
  "\<exists>errs r' k'. run_ops (sim_kernel []) [RegRead 7, RegWrite 7, Unregister 7] (NewRegistry 3) sim_start = (errs, r', k') \<and>
    synced {4, 5} (\<lambda>epfd k. sim_interest k epfd) r' k' \<and> list_all (\<lambda>e. \<not> conflict e) errs"
proof -
  have "synced {4, 5} (\<lambda>epfd k. sim_interest k epfd) (NewRegistry 3) sim_start"
    by (simp add: synced_def NewRegistry_def sim_start_def)
  moreover obtain errs r' k' where "run_ops (sim_kernel []) [RegRead 7, RegWrite 7, Unregister 7] (NewRegistry 3) sim_start = (errs, r', k')"
    by (cases "run_ops (sim_kernel []) [RegRead 7, RegWrite 7, Unregister 7] (NewRegistry 3) sim_start")
  ultimately show ?thesis
    using registry_agrees_with_kernel [OF sim_epoll_spec, of "{4, 5}" "NewRegistry 3" sim_start "[RegRead 7, RegWrite 7, Unregister 7]"]
    by simp
qed

section \<open>Output\<close>

text \<open>
  \<open>write(2)\<close>: with \<open>sent k fd\<close> the bytes a descriptor was given so far, a write takes a prefix and says how long it
  is; one that fails takes nothing, but for the write of a file, which reports both; \<open>epoll_ctl\<close> sends nothing.
\<close>

definition write_spec :: "'k kernel \<Rightarrow> ('k \<Rightarrow> int \<Rightarrow> string) \<Rightarrow> bool" where
  "write_spec K sent \<longleftrightarrow>
     (\<forall>fd bytes k n k'. k_write K fd bytes k = (Inr n, k') \<longrightarrow>
        0 \<le> n \<and> n \<le> int (length bytes) \<and> sent k' fd = sent k fd @ take (nat n) bytes) \<and>
     (\<forall>fd bytes k e k'. k_write K fd bytes k = (Inl e, k') \<longrightarrow> sent k' = sent k) \<and>
     (\<forall>fd bytes k n err k'. k_file_write K fd bytes k = ((n, err), k') \<longrightarrow>
        0 \<le> n \<and> n \<le> int (length bytes) \<and> sent k' fd = sent k fd @ take (nat n) bytes) \<and>
     (\<forall>epfd op fd ev k err k'. k_epoll_ctl K epfd op fd ev k = (err, k') \<longrightarrow> sent k' = sent k)"

lemma write_specD:
  assumes "write_spec K sent"
  shows "k_write K fd bytes k = (Inr n, k') \<Longrightarrow>
      0 \<le> n \<and> n \<le> int (length bytes) \<and> sent k' fd = sent k fd @ take (nat n) bytes"
    and "k_write K fd bytes k = (Inl e, k') \<Longrightarrow> sent k' = sent k"
    and "k_file_write K fd bytes k = ((n, err), k') \<Longrightarrow>
      0 \<le> n \<and> n \<le> int (length bytes) \<and> sent k' fd = sent k fd @ take (nat n) bytes"
    and "k_epoll_ctl K epfd op fd ev k = (e', k') \<Longrightarrow> sent k' = sent k"
  using assms unfolding write_spec_def by - (elim conjE; metis)+

lemma register_sent: "write_spec K sent \<Longrightarrow> register_events K ev fd r k = (err, r', k') \<Longrightarrow> sent k' = sent k"
  unfolding register_events_def epoll_mod_def epoll_add_def
  by (auto split: if_splits prod.splits option.splits dest: write_specD(4))

lemma want_write_sent:
  assumes "write_spec K sent" and "want_write K c r k = Ret (err, c', r', k')"
  shows "c' = c \<and> sent k' = sent k"
  using assms register_sent [OF assms(1)]
  by (auto simp: want_write_def register_events split: if_splits prod.splits)

lemma slice_from_Ret: "slice_from xs n = Ret ys \<Longrightarrow> ys = drop (nat n) xs"
  by (simp add: slice_from_def split: if_splits)

text \<open>A write without an error: everything is sent or in the buffer, behind what was there before.\<close>

lemma conn_Write_stream:
  assumes K: "write_spec K sent" and run: "conn_Write K bytes c r k = Ret (None, c', r', k')"
  shows "dc_fd c' = dc_fd c \<and> sent k' (dc_fd c) @ dc_outBuffer c' = sent k (dc_fd c) @ dc_outBuffer c @ bytes"
proof (cases "dc_outBuffer c = []")
  case False
  with run want_write_sent [OF K] show ?thesis by (fastforce simp: conn_Write_def)
next
  case True
  obtain n err k1 where w: "k_file_write K (dc_fd c) bytes k = ((n, err), k1)" by (metis surj_pair)
  note sent = write_specD(3) [OF K w]
  have buffered: "dc_fd c' = dc_fd c \<and> sent k' (dc_fd c) @ dc_outBuffer c' = sent k (dc_fd c) @ dc_outBuffer c @ bytes"
    if *: "gobind (slice_from bytes n) (\<lambda>rest. want_write K (c\<lparr>dc_outBuffer := dc_outBuffer c @ rest\<rparr>) r k1) = Ret (None, c', r', k')"
  proof (rule gobindE [OF *])
    fix rest
    assume "slice_from bytes n = Ret rest" "want_write K (c\<lparr>dc_outBuffer := dc_outBuffer c @ rest\<rparr>) r k1 = Ret (None, c', r', k')"
    with want_write_sent [OF K] slice_from_Ret have "c' = c\<lparr>dc_outBuffer := drop (nat n) bytes\<rparr>" "sent k' = sent k1"
      using True by fastforce+
    with sent True show ?thesis by simp
  qed
  show ?thesis
  proof (cases "dc_fd c < 0 \<or> n < int (length bytes) \<or> err \<noteq> None")
    case True
    with run w \<open>dc_outBuffer c = []\<close> buffered show ?thesis
      by (auto simp: conn_Write_def split: if_splits option.splits)
  next
    case False
    with sent have "n = int (length bytes)" by auto
    then have "take (nat n) bytes = bytes" by simp
    with False run w sent True show ?thesis by (simp add: conn_Write_def)
  qed
qed

lemma handleWrite_stream:
  assumes K: "write_spec K sent" and run: "handleWrite K c r k = (err, c', r', k')"
  shows "dc_fd c' = dc_fd c \<and> sent k' (dc_fd c) @ dc_outBuffer c' = sent k (dc_fd c) @ dc_outBuffer c"
proof -
  obtain res k1 where w: "k_write K (dc_fd c) (dc_outBuffer c) k = (res, k1)" by fastforce
  show ?thesis
  proof (cases res)
    case (Inl e)
    with run w write_specD(2) [OF K w [unfolded Inl]] show ?thesis
      by (auto simp: handleWrite_def writeRawToFd_def DataToWrite_def)
  next
    case (Inr n)
    note sent = write_specD(1) [OF K w [unfolded Inr]]
    obtain e r2 k2 where d: "deregisterWrite K (dc_fd c) r k1 = (e, r2, k2)" by (metis surj_pair)
    then have "sent k2 = sent k1" by (auto simp: deregisterWrite_def register_events dest: register_sent [OF K])
    with run w Inr sent d show ?thesis
      by (auto simp: handleWrite_def writeRawToFd_def DataToWrite_def conn_Next_def conn_Len_def Let_def
          split: if_splits option.splits)
  qed
qed

text \<open>What the server does with the output of one connection: it writes replies, and the loop drains the buffer.\<close>

datatype output_op = Put string | Drain

fun run_output ::
  "'k kernel \<Rightarrow> output_op list \<Rightarrow> bufferedConn \<Rightarrow> registry \<Rightarrow> 'k \<Rightarrow> (bool \<times> bufferedConn \<times> registry \<times> 'k) go" where
  "run_output K [] c r k = Ret (True, c, r, k)"
| "run_output K (Put bytes # ops) c r k =
     gobind (conn_Write K bytes c r k) (\<lambda>(err, c1, r1, k1).
       if err = None then run_output K ops c1 r1 k1 else Ret (False, c1, r1, k1))"
| "run_output K (Drain # ops) c r k =
     (case handleWrite K c r k of
        (err, c1, r1, k1) \<Rightarrow> if err = None then run_output K ops c1 r1 k1 else Ret (False, c1, r1, k1))"

fun put_bytes :: "output_op \<Rightarrow> string" where
  "put_bytes (Put bytes) = bytes"
| "put_bytes Drain = []"

text \<open>
  C8: output is never lost, duplicated or reordered: after any number of writes and drains without an error, what
  the kernel took and what is still buffered is exactly what was written, in order.
\<close>

theorem output_in_order:
  assumes "write_spec K sent" and "run_output K ops c r k = Ret (True, c', r', k')"
  shows "dc_fd c' = dc_fd c \<and>
    sent k' (dc_fd c) @ dc_outBuffer c' = sent k (dc_fd c) @ dc_outBuffer c @ concat (map put_bytes ops)"
  using assms(2)
proof (induction ops arbitrary: c r k)
  case Nil
  then show ?case by simp
next
  case (Cons x ops)
  show ?case
  proof (cases x)
    case (Put bytes)
    with Cons.prems obtain err c1 r1 k1 where w: "conn_Write K bytes c r k = Ret (err, c1, r1, k1)"
      and rest: "(if err = None then run_output K ops c1 r1 k1 else Ret (False, c1, r1, k1)) = Ret (True, c', r', k')"
      by (auto elim!: gobindE)
    then have "err = None" by (auto split: if_splits)
    with w rest Cons.IH [of c1 r1 k1] conn_Write_stream [OF assms(1), of bytes c r k c1 r1 k1] Put show ?thesis
      by auto
  next
    case Drain
    obtain err c1 r1 k1 where w: "handleWrite K c r k = (err, c1, r1, k1)" by (metis surj_pair)
    with Cons.prems Drain have "err = None" and "run_output K ops c1 r1 k1 = Ret (True, c', r', k')"
      by (auto split: if_splits)
    with Cons.IH [of c1 r1 k1] handleWrite_stream [OF assms(1) w] Drain show ?thesis by auto
  qed
qed

lemma sim_write_spec: "write_spec (sim_kernel evs) sim_sent"
proof -
  have "sim_sent (snd (sim_ctl epfd op fd ev k)) = sim_sent k" for epfd op fd ev k
    by (simp add: sim_ctl_def Let_def)
  then have "sim_ctl epfd op fd ev k = (err, k') \<Longrightarrow> sim_sent k' = sim_sent k" for epfd op fd ev k err k'
    by (metis snd_conv)
  then show ?thesis by (auto simp: write_spec_def sim_kernel_def sim_send_def min_def)
qed

text \<open>A connection with its poll, and a sequence that needs two drains.\<close>

definition a_conn :: "bool \<Rightarrow> bufferedConn" where
  "a_conn linked = \<lparr>dc_fd = 7, dc_ip = [], dc_outBuffer = [], dc_poll = linked\<rparr>"

theorem output_in_order_witness:
  "\<exists>c' r' k'. run_output (sim_kernel []) [Put ''PONG'', Put ''OK'', Drain, Drain] (a_conn True) (NewRegistry 3) sim_start =
      Ret (True, c', r', k') \<and>
    dc_fd c' = 7 \<and> sim_sent k' 7 @ dc_outBuffer c' = ''PONGOK''"
proof -
  let ?run = "run_output (sim_kernel []) [Put ''PONG'', Put ''OK'', Drain, Drain] (a_conn True) (NewRegistry 3) sim_start"
  have "case ?run of Some (Inr (ok, c, r, k)) \<Rightarrow> ok | _ \<Rightarrow> False" by code_simp
  then obtain c' r' k' where run: "?run = Ret (True, c', r', k')" by (auto split: option.splits sum.splits)
  from output_in_order [OF sim_write_spec run] show ?thesis
    using run by (simp add: a_conn_def sim_start_def)
qed

section \<open>Input\<close>

text \<open>The messages of the error numbers: none of them has the name of its constant in it.\<close>

definition errno_spec :: "'k kernel \<Rightarrow> bool" where
  "errno_spec K \<longleftrightarrow> (\<forall>e. \<not> Contains (k_errno_text K e) ''EAGAIN'' \<and> \<not> Contains (k_errno_text K e) ''EWOULDBLOCK'')"

lemma errno_not_temporary: "errno_spec K \<Longrightarrow> \<not> IsTemporaryError K (Errno e)"
  by (simp add: errno_spec_def IsTemporaryError_def)

lemma read_loop_fails:
  fixes K :: "'k kernel"
  assumes "errno_spec K" and "read_loop K fd buf k = Ret (res, k')"
  shows "\<exists>e. res = Inl (Errno e)"
proof -
  have "\<forall>res k'. p = Inr (res, k') \<longrightarrow> (\<exists>e. res = Inl (Errno e))" if "read_loop K fd buf k = Some p" for p
  proof (rule read_loop.raw_induct [where P = "\<lambda>K fd buf k p. errno_spec K \<longrightarrow> (\<forall>res k'. p = Inr (res, k') \<longrightarrow> (\<exists>e. res = Inl (Errno e)))",
        OF _ that, THEN mp, OF _ assms(1)])
    fix rec :: "'k kernel \<Rightarrow> int \<Rightarrow> string \<Rightarrow> 'k \<Rightarrow> ((go_error + string) \<times> 'k) go" and K fd buf k p
    assume IH: "\<And>K fd buf k p. rec K fd buf k = Some p \<Longrightarrow>
        errno_spec K \<longrightarrow> (\<forall>res k'. p = Inr (res, k') \<longrightarrow> (\<exists>e. res = Inl (Errno e)))"
      and run: "(case k_read K fd 4096 k of
          (Inl e, k') \<Rightarrow> if IsTemporaryError K (Errno e) then Ret (Inr buf, k') else Ret (Inl (Errno e), k')
        | (Inr bytes, k') \<Rightarrow> rec K fd (buf @ bytes) k') = Some p"
    show "errno_spec K \<longrightarrow> (\<forall>res k'. p = Inr (res, k') \<longrightarrow> (\<exists>e. res = Inl (Errno e)))"
      using run IH errno_not_temporary [of K] by (auto split: prod.splits sum.splits)
  qed
  with assms(2) show ?thesis by blast
qed

text \<open>At the end of its input a connection is read for ever.\<close>

lemma read_loop_eof:
  fixes K :: "'k kernel"
  assumes "\<And>n. k_read K fd n k = (Inr [], k)"
  shows "read_loop K fd buf k = Diverges"
proof (rule ccontr)
  assume "read_loop K fd buf k \<noteq> Diverges"
  then obtain p where run: "read_loop K fd buf k = Some p" by auto
  have "k_read K fd 4096 k \<noteq> (Inr [], k)"
  proof (rule read_loop.raw_induct [where P = "\<lambda>K fd buf k p. k_read K fd 4096 k \<noteq> (Inr [], k)", OF _ run])
    fix rec :: "'k kernel \<Rightarrow> int \<Rightarrow> string \<Rightarrow> 'k \<Rightarrow> ((go_error + string) \<times> 'k) go" and K fd buf k p
    assume IH: "\<And>K fd buf k p. rec K fd buf k = Some p \<Longrightarrow> k_read K fd 4096 k \<noteq> (Inr [], k)"
      and run: "(case k_read K fd 4096 k of
          (Inl e, k') \<Rightarrow> if IsTemporaryError K (Errno e) then Ret (Inr buf, k') else Ret (Inl (Errno e), k')
        | (Inr bytes, k') \<Rightarrow> rec K fd (buf @ bytes) k') = Some p"
    show "k_read K fd 4096 k \<noteq> (Inr [], k)"
    proof
      assume "k_read K fd 4096 k = (Inr [], k)"
      with run IH [of K fd buf k p] show False by simp
    qed
  qed
  with assms show False by blast
qed

section \<open>The loop\<close>

text \<open>An event that reports input on a connection of the pool, as the first of a round.\<close>

definition input_first :: "'k kernel \<Rightarrow> poll \<Rightarrow> 'k \<Rightarrow> bufferedConn \<Rightarrow> 'k \<Rightarrow> bool" where
  "input_first K p k c k1 \<longleftrightarrow> (\<exists>ev evs.
     k_epoll_wait K (p_epollFd p) (p_maxFD p) k = (Inr (ev # evs), k1) \<and>
     ev_Events ev AND EPOLLIN \<noteq> 0 \<and> ev_Events ev AND EPOLLERR = 0 \<and> ev_Events ev AND EPOLLHUP = 0 \<and>
     ev_Fd ev \<noteq> p_efd p \<and> ev_Fd ev \<noteq> p_listenFD p \<and> p_connPool p (ev_Fd ev) = Some c)"

lemma input_round:
  assumes "input_first K p k c k1"
  shows "\<exists>fd evs. p_connPool p fd = Some c \<and>
    poll_round K (Some h) p k =
      gobind (gobind (h c (p_reg p) k1) (\<lambda>(err, c', r', k'). Ret (err, p\<lparr>p_reg := r', p_connPool := (p_connPool p)(fd \<mapsto> c')\<rparr>, k')))
        (\<lambda>(err, p1, k1). if err = None then process_events K (Some h) evs p1 k1 else Ret (False, p1, k1))"
proof -
  obtain ev evs where "k_epoll_wait K (p_epollFd p) (p_maxFD p) k = (Inr (ev # evs), k1)"
    "ev_Events ev AND EPOLLIN \<noteq> 0" "ev_Events ev AND EPOLLERR = 0" "ev_Events ev AND EPOLLHUP = 0"
    "ev_Fd ev \<noteq> p_efd p" "ev_Fd ev \<noteq> p_listenFD p" "p_connPool p (ev_Fd ev) = Some c"
    using assms by (auto simp: input_first_def)
  then show ?thesis
    by (intro exI [of _ "ev_Fd ev"] exI [of _ evs]) (simp add: poll_round_def processEvent_def on_conn_def Let_def)
qed

text \<open>
  \<open>close(2)\<close>, \<open>fcntl(2)\<close> and \<open>epoll_ctl(2)\<close>, with \<open>opn k\<close> the open descriptors: closing frees the descriptor, with an error too, and takes
  at most this descriptor off the interest lists; a descriptor is valid when it is open; \<open>epoll_ctl\<close> opens and closes nothing, and takes a watched
  descriptor off the list of an open instance when it is asked to.
\<close>

definition close_spec :: "'k kernel \<Rightarrow> (int \<Rightarrow> 'k \<Rightarrow> int \<Rightarrow> uint32 option) \<Rightarrow> ('k \<Rightarrow> int set) \<Rightarrow> bool" where
  "close_spec K I opn \<longleftrightarrow>
     (\<forall>fd k. k_getfd K fd k = None \<longleftrightarrow> fd \<in> opn k) \<and>
     (\<forall>fd k. opn (snd (k_close K fd k)) = opn k - {fd} \<and>
        (\<forall>epfd fd'. fd' \<noteq> fd \<and> epfd \<noteq> fd \<longrightarrow> I epfd (snd (k_close K fd k)) fd' = I epfd k fd')) \<and>
     (\<forall>epfd op fd ev k. opn (snd (k_epoll_ctl K epfd op fd ev k)) = opn k) \<and>
     (\<forall>epfd fd k. epfd \<in> opn k \<and> I epfd k fd \<noteq> None \<longrightarrow> fst (k_epoll_ctl K epfd EPOLL_CTL_DEL fd None k) = None)"

text \<open>The descriptors of a poll that serves: an open epoll instance of its own, and a registry that agrees with it.\<close>

definition serving :: "(int \<Rightarrow> 'k \<Rightarrow> int \<Rightarrow> uint32 option) \<Rightarrow> ('k \<Rightarrow> int set) \<Rightarrow> poll \<Rightarrow> 'k \<Rightarrow> bool" where
  "serving I opn p k \<longleftrightarrow> rg_epollFd (p_reg p) = p_epollFd p \<and> p_epollFd p \<in> opn k \<and>
     p_epollFd p \<notin> {p_efd p, p_listenFD p} \<union> dom (rg_epollSet (p_reg p)) \<and>
     dom (rg_epollSet (p_reg p)) \<inter> {p_efd p, p_listenFD p} = {} \<and> synced {p_efd p, p_listenFD p} I (p_reg p) k"

lemma rg_Delete_frame:
  assumes "epoll_spec K I" and "close_spec K I opn" and "rg_Delete K r fd k = (err, k')"
  shows "opn k' = opn k" "fd' \<noteq> fd \<Longrightarrow> I (rg_epollFd r) k' fd' = I (rg_epollFd r) k fd'"
    "rg_epollFd r \<in> opn k \<Longrightarrow> I (rg_epollFd r) k fd \<noteq> None \<Longrightarrow> err = None"
proof -
  obtain e where e: "k_epoll_ctl K (rg_epollFd r) EPOLL_CTL_DEL fd None k = (e, k')" "err = NewSyscallError ''epoll_ctl del'' e"
    using assms(3) by (auto simp: rg_Delete_def split: prod.splits)
  have spec: "opn (snd (k_epoll_ctl K epfd op fd ev k)) = opn k"
    "epfd \<in> opn k \<and> I epfd k fd \<noteq> None \<longrightarrow> fst (k_epoll_ctl K epfd EPOLL_CTL_DEL fd None k) = None" for epfd op ev
    using assms(2) unfolding close_spec_def by blast+
  show "opn k' = opn k" using spec(1) [of "rg_epollFd r" EPOLL_CTL_DEL None] e(1) by simp
  show "fd' \<noteq> fd \<Longrightarrow> I (rg_epollFd r) k' fd' = I (rg_epollFd r) k fd'"
    using epoll_ctl_ok [OF assms(1)] epoll_ctl_failed [OF assms(1)] e(1) by (cases e) fastforce+
  show "rg_epollFd r \<in> opn k \<Longrightarrow> I (rg_epollFd r) k fd \<noteq> None \<Longrightarrow> err = None"
    using spec(2) [of "rg_epollFd r"] e by (simp add: NewSyscallError_def)
qed

lemma k_close_frame:
  assumes "close_spec K I opn"
  shows "opn (snd (k_close K fd k)) = opn k - {fd}"
    "fd' \<noteq> fd \<Longrightarrow> epfd \<noteq> fd \<Longrightarrow> I epfd (snd (k_close K fd k)) fd' = I epfd k fd'"
  using assms [unfolded close_spec_def, THEN conjunct2, THEN conjunct1, THEN spec, THEN spec, of fd k] by blast+

lemma CloseFd_frame:
  assumes "close_spec K I opn"
  shows "opn (snd (CloseFd K fd k)) = opn k - {fd}"
    "fd' \<noteq> fd \<Longrightarrow> epfd \<noteq> fd \<Longrightarrow> I epfd (snd (CloseFd K fd k)) fd' = I epfd k fd'"
proof -
  have "k_getfd K fd k = None \<longleftrightarrow> fd \<in> opn k"
    by (rule assms [unfolded close_spec_def, THEN conjunct1, THEN spec, THEN spec])
  then have "snd (CloseFd K fd k) = (if fd \<in> opn k then snd (k_close K fd k) else k)"
    by (simp add: CloseFd_def isFDValid_def split: prod.split)
  then show "opn (snd (CloseFd K fd k)) = opn k - {fd}"
    "fd' \<noteq> fd \<Longrightarrow> epfd \<noteq> fd \<Longrightarrow> I epfd (snd (CloseFd K fd k)) fd' = I epfd k fd'"
    using k_close_frame(1) [OF assms, of fd k] k_close_frame(2) [OF assms, of fd' fd epfd k] by simp_all
qed

lemma close_fds_closes:
  assumes "epoll_spec K I" and "close_spec K I opn"
  shows "rg_epollFd r \<in> opn k \<Longrightarrow> rg_epollFd r \<notin> set fds \<Longrightarrow> distinct fds \<Longrightarrow>
    \<forall>fd \<in> set fds. I (rg_epollFd r) k fd \<noteq> None \<Longrightarrow> opn (snd (close_fds K r fds errs k)) = opn k - set fds"
proof (induction fds arbitrary: errs k)
  case (Cons fd fds)
  obtain err k1 where del: "rg_Delete K r fd k = (err, k1)" by (cases "rg_Delete K r fd k")
  note frame = rg_Delete_frame [OF assms del]
  have "err = None" using frame(3) Cons.prems(1,4) by simp
  obtain e k2 where close: "k_close K fd k1 = (e, k2)" by (cases "k_close K fd k1")
  have opn: "opn k2 = opn k - {fd}" using k_close_frame(1) [OF assms(2), of fd k1] frame(1) close by simp
  have watch: "I (rg_epollFd r) k2 fd' \<noteq> None" if "fd' \<in> set fds" for fd'
  proof -
    have ne: "fd' \<noteq> fd" using that Cons.prems(3) by auto
    show ?thesis
      using k_close_frame(2) [OF assms(2) ne, of "rg_epollFd r" k1] frame(2) [OF ne] close Cons.prems(2,4) that by simp
  qed
  have "opn (snd (close_fds K r fds errs' k2)) = opn k2 - set fds" for errs'
    by (rule Cons.IH) (use Cons.prems opn watch in auto)
  then show ?case using opn del \<open>err = None\<close> close by (auto split: option.split)
qed simp

lemma CloseGracefully_closes:
  assumes "epoll_spec K I" and "close_spec K I opn" and "serving I opn p k"
    and "set fds = dom (rg_epollSet (p_reg p))" and "distinct fds"
  shows "opn (CloseGracefully K fds p k) = opn k - ({p_efd p, p_listenFD p, p_epollFd p} \<union> dom (rg_epollSet (p_reg p)))"
proof -
  let ?r = "p_reg p"
  obtain e1 k1 where k1: "rg_Delete K ?r (p_efd p) k = (e1, k1)" by (cases "rg_Delete K ?r (p_efd p) k")
  define k2 where "k2 = snd (CloseFd K (p_efd p) k1)"
  obtain e3 k3 where k3: "rg_Delete K ?r (p_listenFD p) k2 = (e3, k3)" by (cases "rg_Delete K ?r (p_listenFD p) k2")
  define k4 where "k4 = snd (CloseFd K (p_listenFD p) k3)"
  note frames = rg_Delete_frame [OF assms(1,2) k1] rg_Delete_frame [OF assms(1,2) k3] CloseFd_frame [OF assms(2)]
  have opn: "opn k4 = opn k - {p_efd p, p_listenFD p}" using frames unfolding k4_def k2_def by auto
  have watch: "I (rg_epollFd ?r) k4 fd \<noteq> None" if "fd \<in> set fds" for fd
  proof -
    have ne: "fd \<noteq> p_efd p" "fd \<noteq> p_listenFD p" "rg_epollFd ?r \<noteq> p_efd p" "rg_epollFd ?r \<noteq> p_listenFD p"
      using that assms(3,4) unfolding serving_def by auto
    have "I (rg_epollFd ?r) k4 fd = I (rg_epollFd ?r) k fd"
      using frames ne unfolding k4_def k2_def by simp
    with that assms(3,4) ne show ?thesis unfolding serving_def synced_def by auto
  qed
  have "opn (snd (close_fds K ?r fds [] k4)) = opn k4 - set fds"
    by (rule close_fds_closes [OF assms(1,2) _ _ assms(5)]) (use assms(3,4) opn watch in \<open>auto simp: serving_def\<close>)
  moreover have "CloseGracefully K fds p k = snd (CloseFd K (p_epollFd p) (snd (close_fds K ?r fds [] k4)))"
    by (simp add: CloseGracefully_def ClosAndClearAllFDs_def k1 k3 k2_def [symmetric] k4_def [symmetric] Let_def split: prod.split)
  ultimately show ?thesis using frames(7) opn assms(4) by auto
qed

text \<open>
  C34: the first message of any client stops the server: reading ends with the error number of an empty socket,
  whose text does not have the name the code looks for, so the read fails and nothing is written back; the loop then
  closes the eventfd, the listener, every registered connection and the epoll instance, exactly these, and ends. The hypotheses are the first
  event of a round, a poll that serves when the read returns, and the documented behaviour of the system calls.
\<close>

theorem first_message_stops_poll:
  assumes "errno_spec K" and "epoll_spec K I" and "close_spec K I opn"
    and "input_first K p k c k1" and "read_loop K (dc_fd c) [] k1 = Ret (res, k2)" and "serving I opn p k2"
    and "set (order (rg_epollSet (p_reg p))) = dom (rg_epollSet (p_reg p))" and "distinct (order (rg_epollSet (p_reg p)))"
    and "\<not> p_done p" and "0 \<le> p_maxFD p"
  shows "\<exists>e k3. DefaultHandler_Read K c (p_reg p) k1 = Ret (Some (Errno e), c, p_reg p, k2) \<and>
    poll_run K (Some (DefaultHandler_Read K)) order p k = Ret (p\<lparr>p_done := True\<rparr>, k3) \<and>
    opn k3 = opn k2 - ({p_efd p, p_listenFD p, p_epollFd p} \<union> dom (rg_epollSet (p_reg p)))"
proof -
  obtain e where res: "res = Inl (Errno e)" using read_loop_fails [OF assms(1,5)] by blast
  have h: "DefaultHandler_Read K c (p_reg p) k1 = Ret (Some (Errno e), c, p_reg p, k2)"
    using assms(5) res by (simp add: DefaultHandler_Read_def conn_Read_def)
  obtain fd evs where fd: "p_connPool p fd = Some c"
    and run: "poll_round K (Some (DefaultHandler_Read K)) p k =
      gobind (gobind (DefaultHandler_Read K c (p_reg p) k1) (\<lambda>(err, c', r', k'). Ret (err, p\<lparr>p_reg := r', p_connPool := (p_connPool p)(fd \<mapsto> c')\<rparr>, k')))
        (\<lambda>(err, p1, k1). if err = None then process_events K (Some (DefaultHandler_Read K)) evs p1 k1 else Ret (False, p1, k1))"
    using input_round [OF assms(4), of "DefaultHandler_Read K"] by blast
  have "p\<lparr>p_reg := p_reg p, p_connPool := (p_connPool p)(fd \<mapsto> c)\<rparr> = p" using fd by (simp add: fun_upd_idem)
  then have "poll_round K (Some (DefaultHandler_Read K)) p k = Ret (False, p, k2)" by (simp add: run h)
  then have "poll_loop K (Some (DefaultHandler_Read K)) p k = Ret (p, k2)" by (subst poll_loop.simps) simp
  with h CloseGracefully_closes [OF assms(2,3,6,7,8)] assms(9,10) show ?thesis by (simp add: poll_run_def finish_def Let_def)
qed

text \<open>A poll with one connection on descriptor 7, and a kernel that reports input on it.\<close>

definition a_poll :: poll where
  "a_poll = \<lparr>p_done = False, p_reg = (NewRegistry 3)\<lparr>rg_epollSet := [7 \<mapsto> readEvents]\<rparr>, p_epollFd = 3, p_listenFD = 5, p_connCnt = 1,
     p_maxFD = MaxFD, p_efd = 4, p_connPool = [7 \<mapsto> a_conn False]\<rparr>"

definition sim_serving :: sim where
  "sim_serving = sim_start\<lparr>sim_interest := (\<lambda>_. [4 \<mapsto> readEvents, 5 \<mapsto> readEvents, 7 \<mapsto> readEvents])\<rparr>"

lemma sim_input_first: "input_first (sim_kernel [\<lparr>ev_Events = EPOLLIN, ev_Fd = 7\<rparr>]) a_poll k (a_conn False) k"
  unfolding input_first_def
  by (intro exI [of _ "\<lparr>ev_Events = EPOLLIN, ev_Fd = 7\<rparr>"] exI [of _ "[]"])
    (simp add: sim_kernel_def a_poll_def EPOLLIN_def EPOLLERR_def EPOLLHUP_def)

lemma sim_close_spec: "close_spec (sim_kernel evs) (\<lambda>epfd k. sim_interest k epfd) sim_open"
  by (simp add: close_spec_def sim_kernel_def sim_ctl_def Let_def)

lemma sim_errno_spec: "errno_spec (sim_kernel evs)"
proof -
  have "\<not> Contains ''resource temporarily unavailable'' ''EAGAIN''"
    "\<not> Contains ''resource temporarily unavailable'' ''EWOULDBLOCK''"
    "\<not> Contains ''other error'' ''EAGAIN''" "\<not> Contains ''other error'' ''EWOULDBLOCK''"
    unfolding Contains_def by code_simp+
  then show ?thesis by (simp add: errno_spec_def sim_kernel_def)
qed

theorem first_message_stops_poll_witness:
  "\<exists>e k2 k3. DefaultHandler_Read (sim_kernel [\<lparr>ev_Events = EPOLLIN, ev_Fd = 7\<rparr>]) (a_conn False) (p_reg a_poll) sim_serving =
      Ret (Some (Errno e), a_conn False, p_reg a_poll, k2) \<and>
    poll_run (sim_kernel [\<lparr>ev_Events = EPOLLIN, ev_Fd = 7\<rparr>])
      (Some (DefaultHandler_Read (sim_kernel [\<lparr>ev_Events = EPOLLIN, ev_Fd = 7\<rparr>]))) (\<lambda>_. [7]) a_poll sim_serving =
    Ret (a_poll\<lparr>p_done := True\<rparr>, k3) \<and> sim_open k3 = {}"
proof -
  let ?K = "sim_kernel [\<lparr>ev_Events = EPOLLIN, ev_Fd = 7\<rparr>]"
  let ?k2 = "sim_serving\<lparr>sim_input := (sim_input sim_serving)(7 := [])\<rparr>"
  have "read_loop ?K (dc_fd (a_conn False)) [] sim_serving = read_loop ?K 7 ''ping'' ?k2"
    by (subst read_loop.simps) (simp add: sim_kernel_def a_conn_def sim_serving_def sim_start_def)
  also have "\<dots> = Ret (Inl (Errno EAGAIN), ?k2)"
    using errno_not_temporary [OF sim_errno_spec [of "[\<lparr>ev_Events = EPOLLIN, ev_Fd = 7\<rparr>]"], of EAGAIN]
    by (subst read_loop.simps) (simp add: sim_kernel_def)
  finally have run: "read_loop ?K (dc_fd (a_conn False)) [] sim_serving = Ret (Inl (Errno EAGAIN), ?k2)" .
  have serve: "serving (\<lambda>epfd k. sim_interest k epfd) sim_open a_poll ?k2"
    by (simp add: serving_def synced_def a_poll_def NewRegistry_def sim_serving_def sim_start_def)
  from first_message_stops_poll [OF sim_errno_spec sim_epoll_spec sim_close_spec sim_input_first run serve, of "\<lambda>_. [7]"]
  show ?thesis by (fastforce simp: a_poll_def MaxFD_def sim_serving_def sim_start_def)
qed

text \<open>
  C35: a client that closes its side hangs the server: at the end of the input a read gives no bytes and no error,
  and the loop of \<open>Read\<close> ends at an error only. Then the event loop never comes back, not for a stop signal either.
\<close>

theorem closed_peer_hangs_poll:
  assumes "input_first K p k c k1" and "\<And>n. k_read K (dc_fd c) n k1 = (Inr [], k1)" and "0 \<le> p_maxFD p"
  shows "poll_run K (Some (DefaultHandler_Read K)) order p k = Diverges"
proof -
  have "DefaultHandler_Read K c (p_reg p) k1 = Diverges"
    using read_loop_eof [OF assms(2)] by (simp add: DefaultHandler_Read_def conn_Read_def)
  with input_round [OF assms(1), of "DefaultHandler_Read K"]
  have "poll_round K (Some (DefaultHandler_Read K)) p k = Diverges" by auto
  then have "poll_loop K (Some (DefaultHandler_Read K)) p k = Diverges" by (subst poll_loop.simps) simp
  then show ?thesis using assms(3) by (simp add: poll_run_def)
qed

definition eof_kernel :: "sim kernel" where
  "eof_kernel = (sim_kernel [\<lparr>ev_Events = EPOLLIN, ev_Fd = 7\<rparr>])\<lparr>k_read := \<lambda>_ _ k. (Inr [], k)\<rparr>"

theorem closed_peer_hangs_poll_witness:
  "poll_run eof_kernel (Some (DefaultHandler_Read eof_kernel)) (\<lambda>_. []) a_poll sim_start = Diverges"
proof (rule closed_peer_hangs_poll)
  show "input_first eof_kernel a_poll sim_start (a_conn False) sim_start"
    using sim_input_first [of sim_start] by (simp add: input_first_def eof_kernel_def)
qed (simp_all add: eof_kernel_def a_poll_def MaxFD_def)

section \<open>The two goroutines\<close>

lemma on_conn_done: "on_conn fd f p k = Ret (err, p', k') \<Longrightarrow> p_done p' = p_done p"
  by (auto simp: on_conn_def split: option.splits elim!: gobindE)

lemma accept_done: "accept K fd p k = (err, p', k') \<Longrightarrow> p_done p' = p_done p"
  by (auto simp: accept_def incrFd_def Let_def split: sum.splits prod.splits option.splits if_splits)

lemma processEvent_done: "processEvent K H ev p k = Ret (err, p', k') \<Longrightarrow> p_done p' = p_done p"
  by (auto simp: processEvent_def decrFd_def Let_def split: if_splits prod.splits dest: on_conn_done accept_done)

lemma process_events_done: "process_events K H evs p k = Ret (again, p', k') \<Longrightarrow> p_done p' = p_done p"
proof (induction evs arbitrary: p k)
  case (Cons ev evs)
  then obtain err p1 k1 where "processEvent K H ev p k = Ret (err, p1, k1)"
    and "(if err = None then process_events K H evs p1 k1 else Ret (False, p1, k1)) = Ret (again, p', k')"
    by (auto elim!: gobindE)
  with Cons.IH [of p1 k1] processEvent_done show ?case by (fastforce split: if_splits)
qed simp

lemma poll_round_done: "poll_round K H p k = Ret (again, p', k') \<Longrightarrow> p_done p' = p_done p"
  by (auto simp: poll_round_def split: prod.splits sum.splits if_splits dest: process_events_done)

lemma finish_done: "finish K order p k = Ret (p', k') \<Longrightarrow> p_done p'"
  by (auto simp: finish_def Let_def split: if_splits)

text \<open>The channel is closed exactly when the poll goroutine has ended, and \<open>Run\<close> returns only then.\<close>

definition run_inv :: "'k run_state \<Rightarrow> bool" where
  "run_inv s \<longleftrightarrow> (p_done (ru_poll s) \<longleftrightarrow> \<not> ru_alive s) \<and> (ru_pc s = RunReturned \<longrightarrow> \<not> ru_alive s)"

lemma run_step_inv: "run_step K H order s s' \<Longrightarrow> run_inv s \<Longrightarrow> run_inv s'"
  by (induction rule: run_step.induct) (auto simp: run_inv_def dest: poll_round_done finish_done)

lemma run_reachable_inv: "run_reachable K H order p k s \<Longrightarrow> \<not> p_done p \<Longrightarrow> run_inv s"
  by (induction rule: run_reachable.induct) (simp add: run_inv_def, blast dest: run_step_inv)

text \<open>
  C12: in every interleaving of the two goroutines the channel \<open>done\<close> is closed exactly when the event loop has ended
  and released its descriptors, \<open>Run\<close> returns only after that, the channel is never closed twice, and once
  the loop has ended \<open>Run\<close> can return.
\<close>

theorem Run_waits_for_poll:
  assumes "run_reachable K H order p k s" and "\<not> p_done p"
  shows "(p_done (ru_poll s) \<longleftrightarrow> \<not> ru_alive s) \<and> (ru_pc s = RunReturned \<longrightarrow> \<not> ru_alive s) \<and>
    (ru_alive s \<longrightarrow> returns (finish K order (ru_poll s) (ru_kernel s))) \<and>
    (\<not> ru_alive s \<and> ru_pc s \<noteq> RunReturned \<longrightarrow> (\<exists>s'. run_step K H order s s' \<and> ru_pc s' = RunReturned))"
proof -
  have inv: "run_inv s" using run_reachable_inv [OF assms] .
  have "returns (finish K order (ru_poll s) (ru_kernel s))" if "ru_alive s"
    using inv that by (simp add: run_inv_def finish_def Let_def returns_def)
  moreover have "\<exists>s'. run_step K H order s s' \<and> ru_pc s' = RunReturned" if "\<not> ru_alive s \<and> ru_pc s \<noteq> RunReturned"
  proof -
    have "p_done (ru_poll s)" using inv that by (simp add: run_inv_def)
    then have "run_step K H order s (s\<lparr>ru_pc := RunReturned\<rparr>)"
      using that by (cases "ru_pc s") (auto intro: run_step.done_closed run_step.waited)
    then show ?thesis by (intro exI [of _ "s\<lparr>ru_pc := RunReturned\<rparr>"]) simp
  qed
  ultimately show ?thesis using inv unfolding run_inv_def by blast
qed

text \<open>A run in which a signal ends the server: the goroutine sends it, the loop finds it and ends, \<open>Run\<close> returns.\<close>

definition signal_kernel :: "sim kernel" where
  "signal_kernel = (sim_kernel [\<lparr>ev_Events = EPOLLIN, ev_Fd = 4\<rparr>])\<lparr>k_read := \<lambda>_ _ k. (Inr [CHR 0x01], k)\<rparr>"

theorem Run_waits_for_poll_witness:
  "\<exists>s. run_reachable signal_kernel None (\<lambda>_. []) a_poll sim_start s \<and> ru_pc s = WaitingDone \<and>
    (ru_alive s \<longrightarrow> returns (finish signal_kernel (\<lambda>_. []) (ru_poll s) (ru_kernel s)))"
proof -
  let ?s0 = "\<lparr>ru_pc = Selecting, ru_signal = False, ru_alive = True, ru_poll = a_poll, ru_kernel = sim_start\<rparr>"
  let ?s1 = "?s0\<lparr>ru_signal := True\<rparr>"
  obtain err k where sig: "sendSignal signal_kernel [] SignalStop (ru_poll ?s1) (ru_kernel ?s1) = (err, k)" by fastforce
  let ?s2 = "?s1\<lparr>ru_pc := WaitingDone, ru_signal := False, ru_kernel := k\<rparr>"
  have "run_reachable signal_kernel None (\<lambda>_. []) a_poll sim_start ?s1"
    by (rule run_reachable.step [OF run_reachable.start run_step.signal])
  then have reach: "run_reachable signal_kernel None (\<lambda>_. []) a_poll sim_start ?s2"
    by (rule run_reachable.step) (rule run_step.signalled [OF _ _ sig], simp_all)
  have "\<not> p_done a_poll" by (simp add: a_poll_def)
  from Run_waits_for_poll [OF reach this] reach show ?thesis by (intro exI [of _ ?s2]) simp
qed

section \<open>Starting and hanging up\<close>

text \<open>A new epoll instance has an empty interest list, and making an eventfd leaves all of them alone.\<close>

definition create_spec :: "'k kernel \<Rightarrow> (int \<Rightarrow> 'k \<Rightarrow> int \<Rightarrow> uint32 option) \<Rightarrow> bool" where
  "create_spec K I \<longleftrightarrow>
     (\<forall>k epfd k'. k_epoll_create K k = (Inr epfd, k') \<longrightarrow> I epfd k' = Map.empty) \<and>
     (\<forall>k res k' epfd. k_eventfd K k = (res, k') \<longrightarrow> I epfd k' = I epfd k)"

lemma epoll_add_ok:
  assumes "epoll_spec K I" and "epoll_add K ev r fd k = (None, k')"
  shows "I (rg_epollFd r) k' = (I (rg_epollFd r) k)(fd \<mapsto> ev)"
proof -
  have "k_epoll_ctl K (rg_epollFd r) EPOLL_CTL_ADD fd (Some ev) k = (None, k')"
    using assms(2) by (auto simp: epoll_add_def NewSyscallError_def split: prod.splits)
  from epoll_ctl_ok [OF assms(1) this] show ?thesis by simp
qed

text \<open>
  C40: when the server starts, the kernel watches exactly the eventfd and the listener for input; the registry knows
  of neither, and is in agreement with the kernel on every other descriptor.
\<close>

theorem server_Run_registers:
  assumes "epoll_spec K I" and "create_spec K I" and "server_Run K (Inr (Inr fd)) handler k = (Inr (p, h), k')"
  shows "I (p_epollFd p) k' = [p_efd p \<mapsto> readEvents, fd \<mapsto> readEvents] \<and>
    synced {p_efd p, fd} I (p_reg p) k' \<and> p_listenFD p = fd \<and> p_connPool p = Map.empty"
proof -
  obtain epfd k1 where c: "k_epoll_create K k = (Inr epfd, k1)"
    using assms(3) by (auto simp: server_Run_def NewReactor_def NewPoll_def split: prod.splits sum.splits)
  obtain efd k2 where e: "k_eventfd K k1 = (Inr efd, k2)"
    using assms(3) c by (auto simp: server_Run_def NewReactor_def NewPoll_def Let_def split: prod.splits sum.splits)
  obtain k3 where a: "AddRead K (NewRegistry epfd) efd k2 = (None, k3)"
    using assms(3) c e
    by (auto simp: server_Run_def NewReactor_def NewPoll_def Let_def split: prod.splits sum.splits option.splits)
  obtain k4 where b: "AddRead K (NewRegistry epfd) fd k3 = (None, k4)"
    using assms(3) c e a
    by (auto simp: server_Run_def NewReactor_def NewPoll_def Let_def split: prod.splits sum.splits option.splits)
  have p: "p = \<lparr>p_done = False, p_reg = NewRegistry epfd, p_epollFd = epfd, p_listenFD = fd, p_connCnt = 0,
      p_maxFD = MaxFD, p_efd = efd, p_connPool = Map.empty\<rparr>" and k': "k' = k4"
    using assms(3) c e a b by (simp_all add: server_Run_def NewReactor_def NewPoll_def Let_def)
  have "I epfd k2 = Map.empty" using assms(2) c e by (simp add: create_spec_def)
  then have "I epfd k4 = [efd \<mapsto> readEvents, fd \<mapsto> readEvents]"
    using epoll_add_ok [OF assms(1), of readEvents "NewRegistry epfd"] a b by (simp add: AddRead_def NewRegistry_def)
  then show ?thesis by (simp add: p k' synced_def NewRegistry_def)
qed

theorem server_Run_registers_witness:
  "\<exists>p h k'. server_Run (sim_kernel []) (Inr (Inr 5)) None sim_start = (Inr (p, h), k') \<and>
    synced {p_efd p, 5} (\<lambda>epfd k. sim_interest k epfd) (p_reg p) k'"
proof -
  have c: "create_spec (sim_kernel []) (\<lambda>epfd k. sim_interest k epfd)" by (auto simp: create_spec_def sim_kernel_def)
  have "case fst (server_Run (sim_kernel []) (Inr (Inr 5)) None sim_start) of Inl _ \<Rightarrow> False | Inr _ \<Rightarrow> True"
    by (simp add: server_Run_def NewReactor_def NewPoll_def AddRead_def epoll_add_def sim_kernel_def sim_ctl_def Let_def
        NewSyscallError_def NewRegistry_def)
  then obtain p h k' where "server_Run (sim_kernel []) (Inr (Inr 5)) None sim_start = (Inr (p, h), k')"
    by (auto split: sum.splits) (metis prod.collapse)
  with server_Run_registers [OF sim_epoll_spec c this] show ?thesis by blast
qed

text \<open>
  A connection that was hung up is taken off the interest list, but it stays in the pool and its descriptor is not
  closed: the only system call is the one that removes it.
\<close>

lemma hangup_keeps_connection:
  assumes "ev_Events ev AND EPOLLHUP \<noteq> 0" and "processEvent K H ev p k = Ret (err, p', k')"
  shows "p_connPool p' = p_connPool p \<and> p_connCnt p' = p_connCnt p - 1 \<and>
    (k' = k \<or> k' = snd (k_epoll_ctl K (rg_epollFd (p_reg p)) EPOLL_CTL_DEL (ev_Fd ev) None k))"
  using assms by (auto simp: processEvent_def decrFd_def unregister_def Let_def split: prod.splits if_splits option.splits)

end
