(* ===== verification/Spec2Isabelle.thy ===== *)
theory Spec2Isabelle
  imports Dict_Props Db_Props DList_Props Rax_Props Resp_Props Client_Input Kv_Session
    Acl_Props Cli_Props Poll_Props
begin

text \<open>
  A model of \<^emph>\<open>go-mock-redis\<close>, a key-value server with its client library and command line client, written in Go, and
  the theorems about it. Every definition is a translation of the source under \<open>src/\<close>, in the order of its files, and keeps
  its names; a name that Isabelle has already gets a prefix (\<open>ht_Set\<close>, \<open>cmd_Get\<close>, \<open>rt_Len\<close>).

  \<^bold>\<open>How Go is modelled.\<close> A function that can panic or loop has the type \<open>'a go\<close> of \<open>Prelude\<close>: \<open>Ret x\<close> returns, \<open>Panics p\<close>
  is a run-time panic with its reason (nil dereference, index out of range, negative length, failed assertion, explicit),
  \<open>Diverges\<close> never returns. \<open>gobind\<close> is sequencing. Slices are lists, read and written by functions with Go's bounds checks; the
  capacity of a slice is taken to be its length. Machine integers whose wrap-around can be seen are words
  (\<open>uint64\<close>, \<open>int64\<close>, \<open>uint32\<close>, \<open>8 word\<close>); an \<open>int\<close> that only counts elements is an integer. Byte strings are strings. Objects the
  code shares and mutates live in a store: the entries of a hash table, the nodes of a linked list and the objects
  of the keyspace are lists, and a pointer is an index into them (\<open>None\<close> is nil). A loop over pointers, and every loop that
  may not end, is a \<open>partial_function (option)\<close>; the others are recursive functions with a termination proof.

  \<^bold>\<open>Parts and theories.\<close>
  \<^item> Memory accounting (\<open>db/zmalloc.go\<close>): \<open>Zmalloc\<close>, the used-memory counter at 64 bits.
  \<^item> Hash table with incremental rehashing (\<open>db/dict.go\<close>): \<open>Dict\<close>. \<open>Dict_Chain\<close> and \<open>Dict_Refine\<close> have the invariant of the
    pointer structure (\<open>shape\<close>) and the map a table represents; \<open>Dict_Delete\<close>, \<open>Dict_Raw\<close> and \<open>Dict_Sample\<close> the other
    operations; \<open>Dict_Props\<close> the properties: lookups, updates and deletions in every state of a rehash, termination of a
    rehash, whole runs, sampling, and the runs in which raw insertion and update go wrong during a rehash; \<open>Dict_Hang\<close> shows for every
    table in the middle of a rehash how a raw insertion leaves an entry that is its own successor.
  \<^item> Sets of keys (\<open>db/set.go\<close>): \<open>GoSet\<close>, on the table contract \<open>kv_table\<close> and \<open>kv_metered\<close> of \<open>Kv_Table\<close>, which the hash table provides.
  \<^item> Objects and keyspace (\<open>db/types.go\<close>, \<open>db/db.go\<close>, \<open>db/utils.go\<close>): \<open>RedisDb\<close>; \<open>RedisDb_Refine\<close> shows that the keyspace is two
    maps, from keys to objects and from keys to expire times. Eviction (\<open>db/lru.go\<close>, \<open>db/evict.go\<close>): \<open>Lru\<close>, \<open>Lru_Evict\<close>. Properties: \<open>Db_Props\<close>.
  \<^item> Doubly linked list (\<open>db/dlist.go\<close>): \<open>DList\<close>; in \<open>DList_Props\<close> it is a sequence (locale \<open>sequence\<close>).
  \<^item> Radix tree (\<open>db/rax.go\<close>): \<open>Rax\<close>; invariant and stored keys in \<open>Rax_Wf\<close>; properties in \<open>Rax_Props\<close>.
  \<^item> RESP3 protocol (\<open>resp/*.go\<close>): \<open>Resp\<close>, with the parts of \<open>strconv\<close>, \<open>strings\<close> and \<open>bytes\<close> it uses in \<open>Gostrings\<close>. The recursion
    of the parser has a depth argument, which \<open>parseRESP\<close> sets to the length of its input plus one: every level takes a byte, so
    \<open>Diverges\<close> of \<open>parse_depth\<close> is never reached (\<open>Resp_Props.parseRESP_ends\<close>). \<open>maxElems\<close>, \<open>2^44\<close>, is the number of
    16-byte elements beyond which \<open>make\<close> panics on a 64-bit machine. \<open>Resp_Props\<close>: the parser ends, and inverts a reference encoder.
  \<^item> Commands, string objects and shared replies (\<open>node/command.go\<close>, \<open>object.go\<close>, \<open>utils.go\<close>): \<open>Command\<close>.
  \<^item> Client (\<open>node/client.go\<close>, \<open>multi.go\<close>): \<open>Client\<close>; a \<open>session\<close> is a client with the keyspace and the commands it can
    reach. \<open>Client_Props\<close> has the replies, \<open>Client_Input\<close> the checks of a command and the query buffer.
  \<^item> String commands (\<open>node/strcmd.go\<close>): \<open>StrCmd\<close>, \<open>StrCmd_Props\<close>: the two maps and the reply after each command. \<open>StrCmd_Options\<close>: the meaning of
    the options of SET, without flags, and the loop over them as its implementation.
  \<^item> The composition: \<open>Kv_Session\<close>, over the runs and the locale \<open>simulation\<close> of \<open>Simulation\<close>. The string commands are type safe outside a
    rehash, and a session of them over at most twelve keys, with any options, is a session with a map from strings to strings; fourteen keys can hang the server.
  \<^item> Access control (\<open>node/acl.go\<close>): \<open>Acl\<close>, \<open>Acl_Props\<close>.
  \<^item> Networking on Linux (\<open>node/registry_unix.go\<close>, \<open>conn_unix.go\<close>, \<open>handler.go\<close>, \<open>error.go\<close>, \<open>utils_unix.go\<close>): \<open>Epoll\<close>. Event loop, reactor and
    server (\<open>node/poll_unix.go\<close>, \<open>reactor_unix.go\<close>, \<open>server.go\<close>): \<open>Poll\<close>, where one round of the loop is a function and the two goroutines of
    \<open>Reactor.Run\<close> are the step relation \<open>run_step\<close>. \<open>Poll_Props\<close>: the registry agrees with the kernel, output keeps its order,
    shutdown waits for the loop, and what a message and a closed peer do to it.
  \<^item> Client library (\<open>deps/hredis/read.go\<close>, \<open>hredis.go\<close>): \<open>Hreader\<close>, \<open>Hredis\<close> and their \<open>_Props\<close>. Command line client (\<open>cmd/cli.go\<close>):
    \<open>Cli\<close>, \<open>Cli_Props\<close>.

  \<^bold>\<open>How the parts interact.\<close> The event loop accepts connections and gives their input to a handler; the handler of the source
  echoes it and does not reach the client code. A client takes words from its query buffer, checks the command and calls it;
  the string commands read and write the keyspace of the session and append replies to the connection; the keyspace is two hash
  tables, and the eviction loop deletes from both. The connection of a \<open>client\<close> is the bytes it was sent; that of the event loop, the
  \<open>bufferedConn\<close>, is a descriptor with the bytes the kernel has not taken yet. \<open>on_client\<close> and \<open>on_store\<close> run an operation of one part in a session.

  \<^bold>\<open>Parameters.\<close> What is not under \<open>src/\<close> is an argument: the clock (\<open>mstime()\<close>), random numbers and the order in which Go visits a
  map (a stream, a function to lists), parsing and comparing \<open>float64\<close>, \<open>fmt\<close> printing of an object pointer, the functions that create
  replies in the client library, the environment and terminal of the command line client, and the kernel, a record of system
  calls on an abstract state. Where a theorem needs what the kernel documents (\<open>epoll_ctl(2)\<close>, \<open>write(2)\<close>, \<open>close(2)\<close>, the errors of
  \<open>read(2)\<close>), that is a named hypothesis, with a small kernel that meets it in the witness. \<open>strings.ToUpper\<close> folds ASCII letters only;
  \<open>EqualFold\<close> also the two other letters that fold to ASCII ones.

  \<^bold>\<open>Not modelled.\<close> \<open>deps/linenoise\<close>, \<open>log\<close>, \<open>main.go\<close>, \<open>config.go\<close>, \<open>version.go\<close> and
  \<open>executor.go\<close> are wrappers of third-party packages, build constants or empty. \<open>hashcmd.go\<close>, \<open>lstcmd.go\<close>, \<open>setcmd.go\<close> and
  \<open>zsetcmd.go\<close> are empty files. \<open>cmd/cli_commands.go\<close> has types without operations. Left out of modelled files: fields that no code reads
  (most of \<open>RedisServer\<close>), interfaces (their implementations are modelled), the sort adapter of the edges of the radix tree, which nothing calls, the
  finalizer of \<open>os.File\<close>, which can close a descriptor that is still in use, \<open>DefaultWriterHandler\<close>, which nothing calls, the
  \<open>float64\<close> level of the memory status, which nothing reads, and data races between goroutines.

  The properties are the theorems whose text starts with the letter C and a number. Those that show a departure of the code from its own
  comments are stated as the code behaves. The text in front of each names its hypotheses.
\<close>

end
